(* ===== verification/Prelude.thy ===== *)
theory Prelude
  imports Main "HOL-Library.Word"
begin

text \<open>
  The shared vocabulary of the development.

  \<^item> The sources are C.  What the C standard leaves undefined, and what stops the process
    (\<open>assert\<close>, \<open>BUG_ON\<close>), is a value of the type \<open>fault\<close>; a function that may run into
    such a case returns \<open>fault + 'a\<close>, abbreviated \<open>'a res\<close>, and \<open>bindE\<close> sequences such functions.
  \<^item> A C \<open>int\<close> is a HOL \<open>int\<close>; every arithmetic operation whose operands are not already
    bounded by a loop guard is checked (\<open>c_add\<close>, \<open>c_mul\<close>, ...) and faults when the result
    leaves the 32-bit range, because signed overflow is undefined in C.  Unsigned 64-bit and
    32-bit counters are words and wrap.
  \<^item> A C array is a function on indices together with its length; \<open>arr_get\<close> and \<open>arr_set\<close>
    fault outside the bounds.
  \<^item> A counting loop \<open>for (i = 0; i < n; i++)\<close> is \<open>foldE\<close> over \<open>[0..n - 1]\<close>.
  \<^item> A C string is the list of its characters before the terminating NUL.

  The collections \<open>res_simps\<close> and \<open>arith_simps\<close> hold the rules that carry the proofs
  of the components.
\<close>

named_theorems res_simps
named_theorems arith_simps

section \<open>Faults and sequencing\<close>

datatype fault =
    DivByZero        \<comment> \<open>integer division or remainder by zero\<close>
  | OutOfBounds      \<comment> \<open>access outside an array object\<close>
  | SignedOverflow   \<comment> \<open>result of signed arithmetic not representable\<close>
  | ConvOverflow     \<comment> \<open>conversion to an integer type that cannot hold the value\<close>
  | UninitRead       \<comment> \<open>read of an indeterminate value\<close>
  | BadPointer       \<comment> \<open>use of a freed or null pointer\<close>
  | Aborted          \<comment> \<open>\<open>assert\<close> or \<open>BUG_ON\<close>: the process raises SIGABRT\<close>

type_synonym 'a res = "fault + 'a"

definition bindE :: "'a res \<Rightarrow> ('a \<Rightarrow> 'b res) \<Rightarrow> 'b res" where
  "bindE m f = (case m of Inl e \<Rightarrow> Inl e | Inr x \<Rightarrow> f x)"

lemma bindE_Inr [simp, code_unfold]: "bindE (Inr x) f = f x"
  by (simp add: bindE_def)

lemma bindE_Inl [simp]: "bindE (Inl e) f = Inl e"
  by (simp add: bindE_def)

lemma bindE_eq_Inr [res_simps]:
  "(bindE m f = Inr y) = (\<exists>x. m = Inr x \<and> f x = Inr y)"
  by (cases m) auto

lemma bindE_cong [fundef_cong]:
  assumes "m = m'" and "\<And>x. m' = Inr x \<Longrightarrow> f x = f' x"
  shows "bindE m f = bindE m' f'"
  using assms by (cases m') auto

lemma bindE_right [simp]: "bindE m Inr = m"
  by (cases m) simp_all

lemma bindE_assoc: "bindE (bindE m f) g = bindE m (\<lambda>x. bindE (f x) g)"
  by (cases m) auto

text \<open>\<open>guardE b e\<close> continues when \<open>b\<close> holds and faults with \<open>e\<close> otherwise.\<close>

definition guardE :: "bool \<Rightarrow> fault \<Rightarrow> unit res" where
  "guardE b e = (if b then Inr () else Inl e)"

lemma guardE_simps [simp]:
  "guardE True e = Inr ()"
  "guardE False e = Inl e"
  by (simp_all add: guardE_def)

lemma guardE_eq_Inr [res_simps]: "(guardE b e = Inr u) = b"
  by (simp add: guardE_def)

text \<open>\<open>BUG_ON(cond)\<close> of \<open>util_common.h\<close> and \<open>assert(!cond)\<close>.\<close>

definition BUG_ON :: "bool \<Rightarrow> unit res" where
  "BUG_ON cond = (if cond then Inl Aborted else Inr ())"

lemma BUG_ON_simps [simp]:
  "BUG_ON True = Inl Aborted"
  "BUG_ON False = Inr ()"
  by (simp_all add: BUG_ON_def)

lemma BUG_ON_eq_Inr [res_simps]: "(BUG_ON c = Inr u) = (\<not> c)"
  by (simp add: BUG_ON_def)

text \<open>
  Partial correctness: what holds of the value when there is no fault.  The rules compute the
  condition along the structure of the code.
\<close>

definition ensures :: "'a res \<Rightarrow> ('a \<Rightarrow> bool) \<Rightarrow> bool" where
  "ensures m Q \<longleftrightarrow> (\<forall>x. m = Inr x \<longrightarrow> Q x)"

lemma ensures_Inr [simp]: "ensures (Inr x) Q = Q x"
  by (simp add: ensures_def)

lemma ensures_Inl [simp]: "ensures (Inl e) Q"
  by (simp add: ensures_def)

lemma ensures_bindE [simp]: "ensures (bindE m f) Q = ensures m (\<lambda>x. ensures (f x) Q)"
  by (cases m) simp_all

lemma ensures_any: "(\<And>x. Q x) \<Longrightarrow> ensures m Q"
  by (simp add: ensures_def)

lemma ensuresD: "ensures m Q \<Longrightarrow> m = Inr x \<Longrightarrow> Q x"
  by (simp add: ensures_def)

lemma ensuresI: "(\<And>x. m = Inr x \<Longrightarrow> Q x) \<Longrightarrow> ensures m Q"
  by (simp add: ensures_def)

text \<open>
  Total correctness up to known faults: a value with \<open>Q\<close>, or a fault with \<open>E\<close>.
\<close>

definition yields :: "(fault \<Rightarrow> bool) \<Rightarrow> 'a res \<Rightarrow> ('a \<Rightarrow> bool) \<Rightarrow> bool" where
  "yields E m Q \<longleftrightarrow> (case m of Inl e \<Rightarrow> E e | Inr x \<Rightarrow> Q x)"

lemma yields_Inr [simp]: "yields E (Inr x) Q = Q x"
  by (simp add: yields_def)

lemma yields_Inl [simp]: "yields E (Inl e) Q = E e"
  by (simp add: yields_def)

lemma yields_total: "\<exists>x. m = Inr x \<and> Q x \<Longrightarrow> yields E m Q"
  by auto

lemma yields_bindE: "yields E m P \<Longrightarrow> (\<And>x. P x \<Longrightarrow> yields E (f x) Q) \<Longrightarrow> yields E (bindE m f) Q"
  by (cases m) simp_all

lemma yields_noneD: "yields (\<lambda>_. False) m Q \<Longrightarrow> \<exists>x. m = Inr x \<and> Q x"
  by (cases m) simp_all

section \<open>Counting loops\<close>

primrec foldE :: "('a \<Rightarrow> 's \<Rightarrow> 's res) \<Rightarrow> 'a list \<Rightarrow> 's \<Rightarrow> 's res" where
  "foldE f [] s = Inr s"
| "foldE f (x # xs) s = bindE (f x s) (foldE f xs)"

lemma foldE_Nil_fun [simp]: "foldE f [] = Inr"
  by (rule ext) simp

lemma yields_foldE:
  "P s \<Longrightarrow> (\<And>x s. x \<in> set xs \<Longrightarrow> P s \<Longrightarrow> yields E (f x s) P) \<Longrightarrow> yields E (foldE f xs s) P"
  by (induction xs arbitrary: s) (auto intro!: yields_bindE)

lemma foldE_Inl:
  "foldE f xs s = Inl e \<Longrightarrow> \<exists>pre x post t. xs = pre @ x # post \<and> foldE f pre s = Inr t \<and> f x t = Inl e"
proof (induction xs arbitrary: s)
  case (Cons x xs)
  show ?case
  proof (cases "f x s")
    case (Inl e')
    with Cons.prems show ?thesis by (intro exI [of _ "[]"]) simp
  next
    case (Inr s1)
    with Cons.prems have "foldE f xs s1 = Inl e" by simp
    from Cons.IH [OF this] obtain pre y post t where
      "xs = pre @ y # post" "foldE f pre s1 = Inr t" "f y t = Inl e" by blast
    with Inr show ?thesis by (intro exI [of _ "x # pre"]) auto
  qed
qed simp

lemma foldE_append: "foldE f (xs @ ys) s = bindE (foldE f xs s) (foldE f ys)"
proof (induction xs arbitrary: s)
  case Nil
  show ?case by simp
next
  case (Cons x xs)
  show ?case by (cases "f x s") (simp_all add: Cons.IH)
qed

lemma foldE_cong:
  assumes "\<And>x s. x \<in> set xs \<Longrightarrow> f x s = g x s"
  shows "foldE f xs s = foldE g xs s"
  using assms
proof (induction xs arbitrary: s)
  case Nil
  show ?case by simp
next
  case (Cons x xs)
  from Cons.prems have "f x s = g x s" by simp
  moreover have "foldE f xs t = foldE g xs t" for t
    using Cons.prems by (intro Cons.IH) simp
  ultimately show ?case by (cases "g x s") simp_all
qed

text \<open>
  Total correctness of a loop: an invariant \<open>P\<close> of the elements already visited and the
  state, which the body keeps without a fault.
\<close>

lemma foldE_total:
  assumes start: "P [] s"
    and step: "\<And>pre x rest s. xs = pre @ x # rest \<Longrightarrow> P pre s \<Longrightarrow>
                 \<exists>s'. f x s = Inr s' \<and> P (pre @ [x]) s'"
  shows "\<exists>s'. foldE f xs s = Inr s' \<and> P xs s'"
proof -
  have "\<exists>s'. foldE f ys s = Inr s' \<and> P (pre @ ys) s'"
    if "xs = pre @ ys" "P pre s" for ys pre s
    using that
  proof (induction ys arbitrary: pre s)
    case Nil
    then show ?case by simp
  next
    case (Cons y ys)
    from step [OF Cons.prems] obtain t where t: "f y s = Inr t" "P (pre @ [y]) t" by blast
    from Cons.prems(1) have "xs = (pre @ [y]) @ ys" by simp
    from Cons.IH [OF this t(2)] show ?case by (simp add: t(1))
  qed
  from this [of "[]" xs s] start show ?thesis by simp
qed

text \<open>Partial correctness of a loop.\<close>

lemma foldE_inv:
  assumes "foldE f xs s = Inr s'" and "P s"
    and "\<And>x s s'. x \<in> set xs \<Longrightarrow> P s \<Longrightarrow> f x s = Inr s' \<Longrightarrow> P s'"
  shows "P s'"
  using assms
proof (induction xs arbitrary: s)
  case Nil
  then show ?case by simp
next
  case (Cons x xs)
  from Cons.prems(1) obtain t where t: "f x s = Inr t" "foldE f xs t = Inr s'"
    by (auto simp: bindE_eq_Inr)
  from Cons.prems(2,3) t(1) have "P t" by (meson list.set_intros(1))
  with Cons.IH [OF t(2)] Cons.prems(3) show ?case by (meson list.set_intros(2))
qed

text \<open>Partial correctness with the elements already visited.\<close>

lemma foldE_inv_pre:
  assumes run: "foldE f xs s = Inr s'" and start: "P [] s"
    and step: "\<And>pre x rest s s'. xs = pre @ x # rest \<Longrightarrow> P pre s \<Longrightarrow> f x s = Inr s' \<Longrightarrow> P (pre @ [x]) s'"
  shows "P xs s'"
proof -
  have "P (pre @ ys) s'" if "xs = pre @ ys" "P pre s" "foldE f ys s = Inr s'" for ys pre s
    using that
  proof (induction ys arbitrary: pre s)
    case Nil
    then show ?case by simp
  next
    case (Cons y ys)
    from Cons.prems(3) obtain t where t: "f y s = Inr t" "foldE f ys t = Inr s'"
      by (auto simp: bindE_eq_Inr)
    from Cons.prems(1) have "xs = (pre @ [y]) @ ys" by simp
    from Cons.IH [OF this step [OF Cons.prems(1,2) t(1)] t(2)] show ?case by simp
  qed
  from this [of "[]" xs s] run start show ?thesis by simp
qed

section \<open>C integers\<close>

definition INT_MAX :: int where "INT_MAX = 2147483647"
definition INT_MIN :: int where "INT_MIN = -2147483648"

definition in_int :: "int \<Rightarrow> bool" where
  "in_int x \<longleftrightarrow> INT_MIN \<le> x \<and> x \<le> INT_MAX"

definition ck :: "int \<Rightarrow> int res" where
  "ck x = (if in_int x then Inr x else Inl SignedOverflow)"

definition c_add :: "int \<Rightarrow> int \<Rightarrow> int res" where "c_add a b = ck (a + b)"
definition c_sub :: "int \<Rightarrow> int \<Rightarrow> int res" where "c_sub a b = ck (a - b)"
definition c_mul :: "int \<Rightarrow> int \<Rightarrow> int res" where "c_mul a b = ck (a * b)"

text \<open>C division truncates towards zero; the remainder takes the sign of the dividend.\<close>

definition quot :: "int \<Rightarrow> int \<Rightarrow> int" where
  "quot a b = sgn a * sgn b * (\<bar>a\<bar> div \<bar>b\<bar>)"

definition c_div :: "int \<Rightarrow> int \<Rightarrow> int res" where
  "c_div a b = (if b = 0 then Inl DivByZero else ck (quot a b))"

definition c_mod :: "int \<Rightarrow> int \<Rightarrow> int res" where
  "c_mod a b = (if b = 0 then Inl DivByZero
                else bindE (ck (quot a b)) (\<lambda>q. Inr (a - b * q)))"

lemma ck_eq_Inr [res_simps]: "(ck x = Inr y) = (in_int x \<and> y = x)"
  by (auto simp: ck_def)

lemma ck_in_int [simp]: "in_int x \<Longrightarrow> ck x = Inr x"
  by (simp add: ck_def)

lemma in_int_nonneg: "0 \<le> x \<Longrightarrow> x \<le> INT_MAX \<Longrightarrow> in_int x"
  by (simp add: in_int_def INT_MIN_def)

lemma in_int_between: "in_int a \<Longrightarrow> in_int b \<Longrightarrow> a \<le> x \<Longrightarrow> x \<le> b \<Longrightarrow> in_int x"
  by (simp add: in_int_def)

lemma quot_nonneg: "0 \<le> a \<Longrightarrow> 0 < b \<Longrightarrow> quot a b = a div b"
  by (cases "a = 0") (simp_all add: quot_def)

lemma div_in_int: "0 \<le> a \<Longrightarrow> a \<le> INT_MAX \<Longrightarrow> 0 < (b::int) \<Longrightarrow> in_int (a div b)"
proof -
  assume a: "0 \<le> a" "a \<le> INT_MAX" and b: "0 < b"
  have "a div b \<le> a div 1" using a b by (intro zdiv_mono2) auto
  moreover have "0 \<le> a div b" using a b by (simp add: pos_imp_zdiv_nonneg_iff)
  ultimately show ?thesis using a by (intro in_int_nonneg) auto
qed

lemma c_div_nonneg [arith_simps]:
  "0 \<le> a \<Longrightarrow> a \<le> INT_MAX \<Longrightarrow> 0 < b \<Longrightarrow> c_div a b = Inr (a div b)"
  by (simp add: c_div_def quot_nonneg div_in_int)

lemma c_mod_nonneg [arith_simps]:
  "0 \<le> a \<Longrightarrow> a \<le> INT_MAX \<Longrightarrow> 0 < b \<Longrightarrow> c_mod a b = Inr (a mod b)"
  by (simp add: c_mod_def quot_nonneg div_in_int minus_mult_div_eq_mod)

lemma c_div_zero [simp]: "c_div a 0 = Inl DivByZero"
  by (simp add: c_div_def)

lemma c_mod_zero [simp]: "c_mod a 0 = Inl DivByZero"
  by (simp add: c_mod_def)

lemmas c_arith_defs = c_add_def c_sub_def c_mul_def

section \<open>Arrays\<close>

type_synonym 'a arr = "int \<Rightarrow> 'a"

definition arr_get :: "int \<Rightarrow> 'a arr \<Rightarrow> int \<Rightarrow> 'a res" where
  "arr_get n a i = (if 0 \<le> i \<and> i < n then Inr (a i) else Inl OutOfBounds)"

definition arr_set :: "int \<Rightarrow> 'a arr \<Rightarrow> int \<Rightarrow> 'a \<Rightarrow> 'a arr res" where
  "arr_set n a i x = (if 0 \<le> i \<and> i < n then Inr (a(i := x)) else Inl OutOfBounds)"

lemma arr_get_in [simp]: "0 \<le> i \<Longrightarrow> i < n \<Longrightarrow> arr_get n a i = Inr (a i)"
  by (simp add: arr_get_def)

lemma arr_set_in [simp]: "0 \<le> i \<Longrightarrow> i < n \<Longrightarrow> arr_set n a i x = Inr (a(i := x))"
  by (simp add: arr_set_def)

lemma arr_get_eq_Inr [res_simps]: "(arr_get n a i = Inr x) = (0 \<le> i \<and> i < n \<and> x = a i)"
  by (auto simp: arr_get_def)

lemma arr_set_eq_Inr [res_simps]:
  "(arr_set n a i x = Inr b) = (0 \<le> i \<and> i < n \<and> b = a(i := x))"
  by (auto simp: arr_set_def)

section \<open>Generic facts\<close>

lemma upto_split:
  fixes n :: int
  assumes split: "[0..n - 1] = pre @ x # rest"
  shows "pre = [0..x - 1] \<and> 0 \<le> x \<and> x < n"
proof -
  from split have len: "length [0..n - 1] = length pre + Suc (length rest)" by simp
  then have lt: "length pre < nat n" by simp
  from split have "[0..n - 1] ! length pre = x" by (metis nth_append_length)
  with lt have x: "x = int (length pre)" by (simp add: nth_upto)
  have "pre = take (length pre) [0..n - 1]" using split by (metis append_eq_conv_conj)
  also have "\<dots> = [0..x - 1]"
    using x lt by (intro nth_equalityI) (simp_all add: nth_upto)
  finally show ?thesis using x lt by simp
qed

text \<open>How many of the indices \<open>0, ..., n - 1\<close> satisfy a predicate.\<close>

definition count_upto :: "(int \<Rightarrow> bool) \<Rightarrow> int \<Rightarrow> int" where
  "count_upto P n = int (length (filter P [0..n - 1]))"

lemma count_upto_card: "count_upto P n = int (card {j \<in> {0..<n}. P j})"
proof -
  have "{x. P x} \<inter> set [0..n - 1] = {j \<in> {0..<n}. P j}" by auto
  then show ?thesis by (simp add: count_upto_def distinct_length_filter)
qed

lemma count_upto_change:
  assumes j: "0 \<le> j" "j < n" and same: "\<And>k. k \<noteq> j \<Longrightarrow> Q k = P k"
  shows "count_upto Q n = count_upto P n - of_bool (P j) + of_bool (Q j)"
proof -
  define A where "A = {k \<in> {0..<n}. P k}"
  have fin: "finite A" unfolding A_def by (rule finite_subset [of _ "{0..<n}"]) auto
  have eq: "{k \<in> {0..<n}. Q k} = (if Q j then insert j A else A - {j})"
  proof (rule set_eqI)
    fix k show "k \<in> {k \<in> {0..<n}. Q k} \<longleftrightarrow> k \<in> (if Q j then insert j A else A - {j})"
      using j same [of k] by (cases "k = j") (simp_all add: A_def)
  qed
  have mem: "j \<in> A \<longleftrightarrow> P j" using j by (simp add: A_def)
  have ins: "int (card (insert j A)) = int (card A) + 1 - of_bool (j \<in> A)"
    using fin by (simp add: card_insert_if)
  have "j \<in> A \<Longrightarrow> 0 < card A" using fin by (metis card_gt_0_iff empty_iff)
  then have del: "int (card (A - {j})) = int (card A) - of_bool (j \<in> A)"
    using fin by (cases "j \<in> A") (simp_all add: card_Diff_singleton of_nat_diff)
  have "count_upto Q n = int (card (if Q j then insert j A else A - {j}))"
    unfolding count_upto_card eq ..
  moreover have "count_upto P n = int (card A)" unfolding count_upto_card A_def ..
  ultimately show ?thesis using ins del mem by (cases "Q j") simp_all
qed

lemma count_upto_nonneg: "0 \<le> count_upto P n"
  by (simp add: count_upto_def)

lemma count_upto_le: "0 \<le> n \<Longrightarrow> count_upto P n \<le> n"
  using length_filter_le [of P "[0..n - 1]"] by (simp add: count_upto_def)

lemma count_upto_none: "(\<And>j. 0 \<le> j \<Longrightarrow> j < n \<Longrightarrow> \<not> P j) \<Longrightarrow> count_upto P n = 0"
  by (auto simp: count_upto_def filter_empty_conv)

lemma count_upto_pos: "0 \<le> j \<Longrightarrow> j < n \<Longrightarrow> P j \<Longrightarrow> 1 \<le> count_upto P n"
  using count_upto_change [of j n "\<lambda>k. k \<noteq> j \<and> P k" P] count_upto_nonneg [of "\<lambda>k. k \<noteq> j \<and> P k" n]
  by simp

lemma count_upto_full: "0 \<le> j \<Longrightarrow> j < n \<Longrightarrow> \<not> P j \<Longrightarrow> count_upto P n < n"
  using count_upto_change [of j n "\<lambda>k. k = j \<or> P k" P] count_upto_le [of n "\<lambda>k. k = j \<or> P k"]
  by simp

lemma find_append:
  "find P (xs @ ys) = (case find P xs of None \<Rightarrow> find P ys | Some x \<Rightarrow> Some x)"
  by (induction xs) auto

text \<open>\<open>snprintf(buf, n, ...)\<close>: the text cut to \<open>n - 1\<close> characters is stored, its whole
  length is returned.\<close>

definition snprintf :: "int \<Rightarrow> string \<Rightarrow> string \<times> int" where
  "snprintf n txt = (take (nat (n - 1)) txt, int (length txt))"

end
