(* ===== verification/MemoryPool.thy ===== *)
theory MemoryPool
  imports Prelude
begin

text \<open>
  The segment pool of \<open>src/memory_pool.c\<close>: DAX devices cut into segments of a fixed size,
  first-fit allocation of runs of segments to VMs, release by run and by VM.

  \<^item> \<open>g_mem_devs\<close> and \<open>g_num_devs\<close> are one list (the array entries from \<open>g_num_devs\<close> on are
    never read); a device's \<open>segments\<close> array is a function on indices whose every access is
    checked against \<open>MAX_SEGMENTS\<close>, not against \<open>total_segments\<close>.
  \<^item> An operation of the source that returns -1 or 0 and fills an out parameter returns
    \<open>None\<close> or \<open>Some\<close> the value written; log output is not modelled, but the reads its
    arguments make are.
\<close>

section \<open>Data\<close>

definition MAX_DEVICES :: int where "MAX_DEVICES = 10"
definition MAX_SEGMENTS :: int where "MAX_SEGMENTS = 4096"
definition DEV_PATH_LEN :: int where "DEV_PATH_LEN = 64"

record memory_segment =
  allocated :: bool
  used_vm_id :: int

record memory_dax_dev =
  dax_dev_path :: string
  dax_node_id :: int
  dax_tier_id :: int
  dax_dax_id :: int
  dax_total_size_mb :: int
  dax_total_segments :: int
  dax_used_segments :: int
  dax_segments :: "memory_segment arr"

record memory_pool =
  g_mem_devs :: "memory_dax_dev list"
  g_segment_size_mb :: int

record memory_request =
  req_node_id :: int
  req_dev_path :: string
  req_offset_mb :: int
  req_size_mb :: int
  req_align_mb :: int

record memory_node_info =
  info_tier_id :: int
  info_dax_id :: int

definition free_segment :: memory_segment where
  "free_segment = \<lparr>allocated = False, used_vm_id = -1\<rparr>"

definition owned_segment :: "int \<Rightarrow> memory_segment" where
  "owned_segment vm_id = \<lparr>allocated = True, used_vm_id = vm_id\<rparr>"

lemma segment_sels [simp]:
  "\<not> allocated free_segment" "allocated (owned_segment v)" "used_vm_id (owned_segment v) = v"
  by (simp_all add: free_segment_def owned_segment_def)

section \<open>Operations\<close>

definition is_aligned :: "int \<Rightarrow> int \<Rightarrow> bool res" where
  "is_aligned val alignment =
     (if 0 \<le> val then bindE (c_mod val alignment) (\<lambda>r. Inr (r = 0)) else Inr False)"

subsection \<open>\<open>find_free_segments\<close>\<close>

text \<open>
  The inner loop counts free segments from \<open>i\<close> on and stops at the first allocated one.
  The index sum cannot overflow before the array bound is hit.
\<close>

function scan_free :: "memory_segment arr \<Rightarrow> int \<Rightarrow> int \<Rightarrow> int \<Rightarrow> int res" where
  "scan_free segs i num_segments j =
     (if j < num_segments then
        bindE (arr_get MAX_SEGMENTS segs (i + j)) (\<lambda>s.
          if allocated s then Inr j else scan_free segs i num_segments (j + 1))
      else Inr j)"
  by pat_completeness auto
termination
  by (relation "measure (\<lambda>(segs, i, n, j). nat (n - j))") auto

declare scan_free.simps [simp del]

lemma scan_free_ge: "scan_free segs i n j = Inr k \<Longrightarrow> j \<le> k"
proof (induction segs i n j rule: scan_free.induct)
  case (1 segs i n j)
  then show ?case
    by (subst (asm) scan_free.simps) (fastforce simp: bindE_eq_Inr split: if_splits)
qed

text \<open>The outer loop; \<open>lim\<close> is \<open>total_segments - num_segments\<close>.\<close>

function find_free_loop :: "memory_segment arr \<Rightarrow> int \<Rightarrow> int \<Rightarrow> int \<Rightarrow> int res" where
  "find_free_loop segs lim num_segments i =
     (if i \<le> lim then
        bindE (scan_free segs i num_segments 0) (\<lambda>j.
          if j = num_segments then Inr i
          else find_free_loop segs lim num_segments (i + j + 1))
      else Inr (-1))"
  by pat_completeness auto
termination
  by (relation "measure (\<lambda>(segs, lim, n, i). nat (lim - i + 1))") (auto dest: scan_free_ge)

declare find_free_loop.simps [simp del]

definition find_free_segments :: "memory_dax_dev \<Rightarrow> int \<Rightarrow> int res" where
  "find_free_segments mem_dev num_segments =
     bindE (c_sub (dax_total_segments mem_dev) num_segments) (\<lambda>lim.
       find_free_loop (dax_segments mem_dev) lim num_segments 0)"

subsection \<open>\<open>allocate_segments\<close>\<close>

definition mark_segments :: "int \<Rightarrow> int \<Rightarrow> int \<Rightarrow> memory_segment arr \<Rightarrow> memory_segment arr res" where
  "mark_segments start_index num_segments vm_id =
     foldE (\<lambda>i segs. bindE (c_add start_index i) (\<lambda>idx.
              arr_set MAX_SEGMENTS segs idx (owned_segment vm_id))) [0..num_segments - 1]"

text \<open>
  The comparison with the free count only logs; the search decides.  The result is the start
  index (-1 for none) and the device.
\<close>

definition allocate_segments ::
    "memory_dax_dev \<Rightarrow> int \<Rightarrow> int \<Rightarrow> (int \<times> memory_dax_dev) res" where
  "allocate_segments mem_dev num_segments vm_id =
     bindE (BUG_ON (\<not> 0 < num_segments)) (\<lambda>_.
     bindE (c_sub (dax_total_segments mem_dev) (dax_used_segments mem_dev)) (\<lambda>free_segments.
     bindE (find_free_segments mem_dev num_segments) (\<lambda>start_index.
     if start_index = -1 then Inr (-1, mem_dev)
     else
       bindE (mark_segments start_index num_segments vm_id (dax_segments mem_dev)) (\<lambda>segs.
       bindE (c_add (dax_used_segments mem_dev) num_segments) (\<lambda>used.
       Inr (start_index, mem_dev\<lparr>dax_segments := segs, dax_used_segments := used\<rparr>))))))"

text \<open>The loop that looks a device up by its node id: the index of the first match.\<close>

fun find_dev :: "int \<Rightarrow> memory_dax_dev list \<Rightarrow> nat option" where
  "find_dev node_id [] = None"
| "find_dev node_id (d # ds) =
     (if dax_node_id d = node_id then Some 0 else map_option Suc (find_dev node_id ds))"

definition memory_pool_allocate_segments ::
    "int \<Rightarrow> int \<Rightarrow> int \<Rightarrow> memory_pool \<Rightarrow> (memory_request option \<times> memory_pool) res" where
  "memory_pool_allocate_segments node_id vm_id size_mb p =
     (let seg = g_segment_size_mb p in
      bindE (is_aligned size_mb seg) (\<lambda>ok.
      if \<not> ok then Inr (None, p)
      else case find_dev node_id (g_mem_devs p) of
        None \<Rightarrow> Inr (None, p)
      | Some k \<Rightarrow>
          let mem_dev = g_mem_devs p ! k in
          bindE (c_div size_mb seg) (\<lambda>num_segments.
          bindE (allocate_segments mem_dev num_segments vm_id) (\<lambda>(start_index, mem_dev').
          let p' = p\<lparr>g_mem_devs := (g_mem_devs p)[k := mem_dev']\<rparr> in
          if start_index < 0 then Inr (None, p')
          else
            bindE (c_mul start_index seg) (\<lambda>offset_mb.
            bindE (c_mul num_segments seg) (\<lambda>req_size.
            Inr (Some \<lparr>req_node_id = node_id,
                       req_dev_path = fst (snprintf DEV_PATH_LEN (dax_dev_path mem_dev')),
                       req_offset_mb = offset_mb,
                       req_size_mb = req_size,
                       req_align_mb = seg\<rparr>, p')))))))"

subsection \<open>\<open>release_segments\<close>\<close>

text \<open>The three assignments that free one segment, shared by both release paths.\<close>

definition clear_segment :: "memory_dax_dev \<Rightarrow> int \<Rightarrow> memory_dax_dev res" where
  "clear_segment mem_dev idx =
     bindE (arr_set MAX_SEGMENTS (dax_segments mem_dev) idx free_segment) (\<lambda>segs.
     bindE (c_sub (dax_used_segments mem_dev) 1) (\<lambda>used.
     Inr (mem_dev\<lparr>dax_segments := segs, dax_used_segments := used\<rparr>)))"

text \<open>
  The condition of the loop body, with C's short-circuit order.  When it fails, the log call
  reads \<open>segments[idx]\<close> again, whatever \<open>idx\<close> is.
\<close>

definition releasable :: "memory_dax_dev \<Rightarrow> int \<Rightarrow> int \<Rightarrow> bool res" where
  "releasable mem_dev vm_id idx =
     (if 0 \<le> idx \<and> idx < dax_total_segments mem_dev then
        bindE (arr_get MAX_SEGMENTS (dax_segments mem_dev) idx) (\<lambda>s.
          Inr (allocated s \<and> used_vm_id s = vm_id))
      else Inr False)"

function release_loop ::
    "int \<Rightarrow> int \<Rightarrow> int \<Rightarrow> int \<Rightarrow> memory_dax_dev \<Rightarrow> (int \<times> memory_dax_dev) res" where
  "release_loop vm_id start_index segment_count i mem_dev =
     (if i < segment_count then
        bindE (c_add start_index i) (\<lambda>idx.
        bindE (releasable mem_dev vm_id idx) (\<lambda>ok.
        if ok then
          bindE (clear_segment mem_dev idx) (\<lambda>mem_dev'.
            release_loop vm_id start_index segment_count (i + 1) mem_dev')
        else
          bindE (arr_get MAX_SEGMENTS (dax_segments mem_dev) idx) (\<lambda>_. Inr (-1, mem_dev))))
      else Inr (0, mem_dev))"
  by pat_completeness auto
termination
  by (relation "measure (\<lambda>(v, s, n, i, d). nat (n - i))") auto

declare release_loop.simps [simp del]

definition release_segments ::
    "memory_dax_dev \<Rightarrow> int \<Rightarrow> int \<Rightarrow> int \<Rightarrow> (int \<times> memory_dax_dev) res" where
  "release_segments mem_dev vm_id start_index segment_count =
     release_loop vm_id start_index segment_count 0 mem_dev"

definition memory_pool_release_segments ::
    "int \<Rightarrow> int \<Rightarrow> int \<Rightarrow> int \<Rightarrow> memory_pool \<Rightarrow> (int \<times> memory_pool) res" where
  "memory_pool_release_segments node_id vm_id offset_mb size_mb p =
     (let seg = g_segment_size_mb p in
      bindE (is_aligned size_mb seg) (\<lambda>ok1.
      bindE (if \<not> ok1 then Inr False else is_aligned offset_mb seg) (\<lambda>ok.
      if \<not> ok then Inr (-1, p)
      else case find_dev node_id (g_mem_devs p) of
        None \<Rightarrow> Inr (-1, p)
      | Some k \<Rightarrow>
          bindE (c_div offset_mb seg) (\<lambda>start_index.
          bindE (c_div size_mb seg) (\<lambda>segment_count.
          bindE (release_segments (g_mem_devs p ! k) vm_id start_index segment_count)
            (\<lambda>(ret, mem_dev').
          let p' = p\<lparr>g_mem_devs := (g_mem_devs p)[k := mem_dev']\<rparr> in
          Inr (if ret < 0 then -1 else 0, p')))))))"

subsection \<open>\<open>memory_pool_release_vm_memory\<close> and the queries\<close>

definition release_vm_segment :: "int \<Rightarrow> int \<Rightarrow> memory_dax_dev \<Rightarrow> memory_dax_dev res" where
  "release_vm_segment vm_id j mem_dev =
     bindE (arr_get MAX_SEGMENTS (dax_segments mem_dev) j) (\<lambda>s.
       if allocated s \<and> used_vm_id s = vm_id then clear_segment mem_dev j else Inr mem_dev)"

definition release_vm_dev :: "int \<Rightarrow> memory_dax_dev \<Rightarrow> memory_dax_dev res" where
  "release_vm_dev vm_id mem_dev =
     foldE (release_vm_segment vm_id) [0..dax_total_segments mem_dev - 1] mem_dev"

fun release_vm_devs :: "int \<Rightarrow> memory_dax_dev list \<Rightarrow> memory_dax_dev list res" where
  "release_vm_devs vm_id [] = Inr []"
| "release_vm_devs vm_id (d # ds) =
     bindE (release_vm_dev vm_id d) (\<lambda>d'.
     bindE (release_vm_devs vm_id ds) (\<lambda>ds'. Inr (d' # ds')))"

definition memory_pool_release_vm_memory :: "int \<Rightarrow> memory_pool \<Rightarrow> memory_pool res" where
  "memory_pool_release_vm_memory vm_id p =
     bindE (release_vm_devs vm_id (g_mem_devs p)) (\<lambda>ds. Inr (p\<lparr>g_mem_devs := ds\<rparr>))"

definition memory_pool_get_num_devs :: "memory_pool \<Rightarrow> int" where
  "memory_pool_get_num_devs p = int (length (g_mem_devs p))"

definition memory_pool_get_node_info :: "int \<Rightarrow> memory_pool \<Rightarrow> memory_node_info option" where
  "memory_pool_get_node_info node_id p =
     (case find_dev node_id (g_mem_devs p) of
        None \<Rightarrow> None
      | Some k \<Rightarrow> Some \<lparr>info_tier_id = dax_tier_id (g_mem_devs p ! k),
                       info_dax_id = dax_dax_id (g_mem_devs p ! k)\<rparr>)"

end
