(* ===== verification/CString.thy ===== *)
theory CString
  imports Prelude
begin

text \<open>
  What the sources use of the C string library: decimal output, \<open>sscanf\<close>, \<open>atoi\<close>,
  \<open>strtok\<close>, \<open>strchr\<close>, \<open>fgets\<close> and the idiom of appending formatted lines to a bounded
  buffer.

  A format string is the list of its directives; a conversion that stores into a character
  array carries the size of that array, and storing more than fits (with the NUL) is a fault.
  \<open>sscanf\<close> returns the values it assigned; its return value in C is their number, except
  that C returns -1 when the input ends before the first conversion, which no caller tells
  from 0.  A decimal that does not fit an \<open>int\<close> is undefined in C and a fault here.
\<close>

section \<open>Decimal output\<close>

definition digit_char :: "nat \<Rightarrow> char" where
  "digit_char d = char_of (48 + d)"

fun show_nat :: "nat \<Rightarrow> string" where
  "show_nat n = (if n < 10 then [digit_char n] else show_nat (n div 10) @ [digit_char (n mod 10)])"

declare show_nat.simps [simp del]

definition show_int :: "int \<Rightarrow> string" where
  "show_int i = (if i < 0 then CHR ''-'' # show_nat (nat (- i)) else show_nat (nat i))"

definition pad_left :: "nat \<Rightarrow> string \<Rightarrow> string" where
  "pad_left w s = replicate (w - length s) CHR '' '' @ s"

definition newline :: char where "newline = CHR 0x0A"

section \<open>Scanning\<close>

definition is_space :: "char \<Rightarrow> bool" where
  "is_space c \<longleftrightarrow> c = CHR '' '' \<or> (9 \<le> (of_char c :: nat) \<and> (of_char c :: nat) \<le> 13)"

lemma is_space_simps [simp]:
  "is_space CHR '' ''" "is_space CHR 0x0A" "\<not> is_space CHR ''-''"
  by (simp_all add: is_space_def)

definition is_digit :: "char \<Rightarrow> bool" where
  "is_digit c \<longleftrightarrow> 48 \<le> (of_char c :: nat) \<and> (of_char c :: nat) \<le> 57"

definition digit_val :: "char \<Rightarrow> nat" where
  "digit_val c = of_char c - 48"

definition digits_val :: "string \<Rightarrow> nat" where
  "digits_val ds = foldl (\<lambda>n c. 10 * n + digit_val c) 0 ds"

definition scan_nat :: "string \<Rightarrow> (nat \<times> string) option" where
  "scan_nat s = (let ds = takeWhile is_digit s in
     if ds = [] then None else Some (digits_val ds, dropWhile is_digit s))"

text \<open>The subject sequence of \<open>%d\<close> and of \<open>strtol\<close>: white space, a sign, digits.\<close>

definition scan_int :: "string \<Rightarrow> (int \<times> string) option" where
  "scan_int s = (case dropWhile is_space s of
      [] \<Rightarrow> None
    | c # cs \<Rightarrow>
        if c = CHR ''-'' then map_option (\<lambda>(n, r). (- int n, r)) (scan_nat cs)
        else if c = CHR ''+'' then map_option (\<lambda>(n, r). (int n, r)) (scan_nat cs)
        else map_option (\<lambda>(n, r). (int n, r)) (scan_nat (c # cs)))"

definition atoi :: "string \<Rightarrow> int res" where
  "atoi s = (case scan_int s of None \<Rightarrow> Inr 0
             | Some (i, _) \<Rightarrow> if in_int i then Inr i else Inl ConvOverflow)"

datatype directive =
    Lit char                      \<comment> \<open>an ordinary character\<close>
  | Ws                            \<comment> \<open>white space: skips any amount of it\<close>
  | Dec                           \<comment> \<open>\<open>%d\<close>\<close>
  | Str "nat option" nat          \<comment> \<open>\<open>%s\<close> with its width and the size of the destination\<close>
  | Rest nat                      \<comment> \<open>\<open>%[^\\n]\<close> and the size of the destination\<close>

datatype scanned = SInt int | SStr string

definition lits :: "string \<Rightarrow> directive list" where
  "lits = map Lit"

definition scan_token :: "nat option \<Rightarrow> string \<Rightarrow> string" where
  "scan_token w s = (let t = takeWhile (\<lambda>c. \<not> is_space c) s in
     case w of None \<Rightarrow> t | Some n \<Rightarrow> take n t)"

fun sscanf :: "string \<Rightarrow> directive list \<Rightarrow> scanned list res" where
  "sscanf s [] = Inr []"
| "sscanf s (Lit c # fs) =
     (case s of [] \<Rightarrow> Inr [] | x # xs \<Rightarrow> if x = c then sscanf xs fs else Inr [])"
| "sscanf s (Ws # fs) = sscanf (dropWhile is_space s) fs"
| "sscanf s (Dec # fs) =
     (case scan_int s of None \<Rightarrow> Inr []
      | Some (i, r) \<Rightarrow>
          if in_int i then bindE (sscanf r fs) (\<lambda>vs. Inr (SInt i # vs)) else Inl ConvOverflow)"
| "sscanf s (Str w cap # fs) =
     (let t = dropWhile is_space s; tok = scan_token w t in
      if tok = [] then Inr []
      else if cap \<le> length tok then Inl OutOfBounds
      else bindE (sscanf (drop (length tok) t) fs) (\<lambda>vs. Inr (SStr tok # vs)))"
| "sscanf s (Rest cap # fs) =
     (let tok = takeWhile (\<lambda>c. c \<noteq> CHR 0x0A) s in
      if tok = [] then Inr []
      else if cap \<le> length tok then Inl OutOfBounds
      else bindE (sscanf (drop (length tok) s) fs) (\<lambda>vs. Inr (SStr tok # vs)))"

text \<open>The result of a format with one conversion: its value, if it was assigned.\<close>

fun the_int :: "scanned list \<Rightarrow> int option" where
  "the_int [SInt i] = Some i"
| "the_int _ = None"

fun the_str :: "scanned list \<Rightarrow> string option" where
  "the_str [SStr t] = Some t"
| "the_str _ = None"

lemma the_int_Some: "the_int vs = Some i \<longleftrightarrow> vs = [SInt i]"
  by (induction vs rule: the_int.induct) auto

lemma the_str_Some: "the_str vs = Some t \<longleftrightarrow> vs = [SStr t]"
  by (induction vs rule: the_str.induct) auto

text \<open>The characters of a received buffer before the first NUL.\<close>

definition c_str :: "string \<Rightarrow> string" where
  "c_str buf = takeWhile (\<lambda>c. c \<noteq> CHR 0x00) buf"

definition starts_with :: "string \<Rightarrow> string \<Rightarrow> bool" where
  "starts_with pre s \<longleftrightarrow> take (length pre) s = pre"

text \<open>\<open>strtok\<close> over a whole string: the non-empty pieces between delimiters.\<close>

fun split_at :: "char \<Rightarrow> string \<Rightarrow> string list" where
  "split_at d [] = [[]]"
| "split_at d (c # cs) =
     (if c = d then [] # split_at d cs
      else case split_at d cs of [] \<Rightarrow> [[c]] | t # ts \<Rightarrow> (c # t) # ts)"

definition strtok_all :: "char \<Rightarrow> string \<Rightarrow> string list" where
  "strtok_all d s = filter (\<lambda>t. t \<noteq> []) (split_at d s)"

fun strchr :: "string \<Rightarrow> char \<Rightarrow> nat option" where
  "strchr [] c = None"
| "strchr (x # xs) c = (if x = c then Some 0 else map_option Suc (strchr xs c))"

text \<open>\<open>fgets(line, n, file)\<close> on the rest of a file: a line, cut to \<open>n - 1\<close> characters.\<close>

definition fgets :: "nat \<Rightarrow> string \<Rightarrow> (string \<times> string) option" where
  "fgets n s =
     (if s = [] then None
      else let l = takeWhile (\<lambda>c. c \<noteq> CHR 0x0A) s;
               line = take (n - 1) (if length l < length s then l @ [CHR 0x0A] else l)
           in Some (line, drop (length line) s))"

lemma fgets_shorter:
  assumes "fgets n s = Some (line, rest)" "2 \<le> n"
  shows "length rest < length s"
proof -
  from assms have s: "s \<noteq> []" by (auto simp: fgets_def)
  define l where "l = takeWhile (\<lambda>c. c \<noteq> CHR 0x0A) s"
  have "(if length l < length s then l @ [CHR 0x0A] else l) \<noteq> []" using s by auto
  with assms(2) have "take (n - 1) (if length l < length s then l @ [CHR 0x0A] else l) \<noteq> []"
    by (metis One_nat_def diff_is_0_eq not_less_eq_eq numeral_2_eq_2 take_eq_Nil)
  moreover from assms(1) s have
    "line = take (n - 1) (if length l < length s then l @ [CHR 0x0A] else l)"
    "rest = drop (length line) s" by (auto simp: fgets_def l_def Let_def)
  ultimately show ?thesis using s by auto
qed

section \<open>Appending to a bounded buffer\<close>

text \<open>
  \<open>offset += snprintf(buf + offset, size - offset, ...)\<close> with \<open>offset < size\<close>: the buffer's
  text and the offset, which counts also what did not fit.
\<close>

definition append_fmt :: "int \<Rightarrow> string \<Rightarrow> string \<times> int \<Rightarrow> string \<times> int" where
  "append_fmt n txt st =
     (let (buf, offset) = st; (kept, len) = snprintf (n - offset) txt in (buf @ kept, offset + len))"

text \<open>The state after writing a text that may have been cut.\<close>

definition holds_text :: "int \<Rightarrow> string \<Rightarrow> string \<times> int \<Rightarrow> bool" where
  "holds_text n txt st \<longleftrightarrow> fst st = take (nat (n - 1)) txt \<and> snd st = int (length txt)"

lemma holds_text_Nil: "holds_text n [] ([], 0)"
  by (simp add: holds_text_def)

lemma holds_text_append:
  assumes "holds_text n t st" "snd st < n"
  shows "holds_text n (t @ u) (append_fmt n u st)"
  using assms by (auto simp: holds_text_def append_fmt_def snprintf_def case_prod_beta nat_diff_distrib')

lemma holds_text_full:
  assumes "holds_text n t st" "n - 1 \<le> snd st"
  shows "fst st = take (nat (n - 1)) (t @ u)"
  using assms by (auto simp: holds_text_def)

lemma holds_text_bound: "holds_text n t st \<Longrightarrow> 0 < n \<Longrightarrow> int (length (fst st)) < n"
  by (auto simp: holds_text_def)

section \<open>Printing and scanning decimals\<close>

lemma of_char_digit: "d < 10 \<Longrightarrow> (of_char (digit_char d) :: nat) = 48 + d"
  by (simp add: digit_char_def)

lemma digit_char_simps [simp]:
  assumes "d < 10"
  shows "is_digit (digit_char d)" "digit_val (digit_char d) = d" "\<not> is_space (digit_char d)"
    "digit_char d \<noteq> CHR ''-''" "digit_char d \<noteq> CHR ''+''" "digit_char d \<noteq> CHR 0x0A"
    "digit_char d \<noteq> CHR 0x00"
proof -
  note oc = of_char_digit [OF assms]
  show "is_digit (digit_char d)" "digit_val (digit_char d) = d"
    using assms by (simp_all add: is_digit_def digit_val_def oc)
  have neq: "digit_char d \<noteq> c" if "(of_char c :: nat) < 48" for c
    using that oc by auto
  show "digit_char d \<noteq> CHR ''-''" "digit_char d \<noteq> CHR ''+''" "digit_char d \<noteq> CHR 0x0A"
    "digit_char d \<noteq> CHR 0x00" by (rule neq, simp)+
  have "digit_char d \<noteq> CHR '' ''" by (rule neq) simp
  then show "\<not> is_space (digit_char d)" using oc by (simp add: is_space_def)
qed

lemma show_nat_nonempty [simp]: "show_nat n \<noteq> []"
  by (subst show_nat.simps) simp

lemma show_nat_digits: "c \<in> set (show_nat n) \<Longrightarrow> \<exists>d < 10. c = digit_char d"
proof (induction n rule: show_nat.induct)
  case (1 n)
  then show ?case
    by (subst (asm) (2) show_nat.simps) (auto split: if_splits intro: exI [of _ n] exI [of _ "n mod 10"])
qed

lemma show_nat_is_digit: "c \<in> set (show_nat n) \<Longrightarrow> is_digit c"
  using show_nat_digits by fastforce

lemma digits_val_show_nat: "digits_val (show_nat n) = n"
proof (induction n rule: show_nat.induct)
  case (1 n)
  show ?case
  proof (cases "n < 10")
    case True
    then show ?thesis by (subst show_nat.simps) (simp add: digits_val_def)
  next
    case False
    with 1 have "foldl (\<lambda>n c. 10 * n + digit_val c) 0 (show_nat (n div 10)) = n div 10"
      by (simp add: digits_val_def)
    with False show ?thesis by (subst show_nat.simps) (simp add: digits_val_def)
  qed
qed

text \<open>\<open>rest\<close> does not continue the number.\<close>

definition no_digit_first :: "string \<Rightarrow> bool" where
  "no_digit_first s \<longleftrightarrow> (case s of [] \<Rightarrow> True | c # _ \<Rightarrow> \<not> is_digit c)"

lemma scan_nat_show: "no_digit_first r \<Longrightarrow> scan_nat (show_nat n @ r) = Some (n, r)"
proof -
  assume r: "no_digit_first r"
  have "takeWhile is_digit (show_nat n @ r) = show_nat n @ takeWhile is_digit r"
    "dropWhile is_digit (show_nat n @ r) = dropWhile is_digit r"
    using show_nat_is_digit by (simp_all add: takeWhile_append2 dropWhile_append2)
  moreover have "takeWhile is_digit r = []" "dropWhile is_digit r = r"
    using r by (auto simp: no_digit_first_def split: list.splits)
  ultimately show ?thesis by (simp add: scan_nat_def digits_val_show_nat)
qed

lemma show_nat_Cons: "\<exists>d ds. show_nat n = digit_char d # ds \<and> d < 10"
  using show_nat_digits [of _ n] by (cases "show_nat n") auto

lemma scan_int_show:
  assumes "no_digit_first r"
  shows "scan_int (show_int i @ r) = Some (i, r)"
proof (cases "i < 0")
  case True
  have "\<not> is_space CHR ''-''" by (simp add: is_space_def)
  with True scan_nat_show [OF assms, of "nat (- i)"] show ?thesis
    by (simp add: scan_int_def show_int_def)
next
  case False
  obtain d ds where ds: "show_nat (nat i) = digit_char d # ds" "d < 10" using show_nat_Cons by blast
  with False scan_nat_show [OF assms, of "nat i"] show ?thesis
    by (simp add: scan_int_def show_int_def)
qed

lemma sscanf_Dec_show [simp]:
  "in_int i \<Longrightarrow> no_digit_first r \<Longrightarrow>
     sscanf (show_int i @ r) (Dec # fs) = bindE (sscanf r fs) (\<lambda>vs. Inr (SInt i # vs))"
  by (simp add: scan_int_show)

lemma no_digit_first_simps [simp]:
  "no_digit_first []" "no_digit_first (c # s) = (\<not> is_digit c)"
  by (simp_all add: no_digit_first_def)

lemma sscanf_lits [simp]: "sscanf (t @ r) (lits t @ fs) = sscanf r fs"
  by (induction t) (simp_all add: lits_def)


lemma sscanf_in_int: "sscanf s fs = Inr vs \<Longrightarrow> SInt i \<in> set vs \<Longrightarrow> in_int i"
  by (induction s fs arbitrary: vs rule: sscanf.induct)
    (auto simp: Let_def bindE_eq_Inr split: list.splits if_splits option.splits)

text \<open>Words: non-empty, without white space.\<close>

definition is_word :: "string \<Rightarrow> bool" where
  "is_word w \<longleftrightarrow> w \<noteq> [] \<and> list_all (\<lambda>c. \<not> is_space c) w"

lemma drop_spaces_word [simp]: "is_word w \<Longrightarrow> dropWhile is_space (w @ r) = w @ r"
  by (cases w) (auto simp: is_word_def)

lemma scan_token_word:
  assumes "is_word w" "r = [] \<or> is_space (hd r)" "case n of None \<Rightarrow> True | Some k \<Rightarrow> length w \<le> k"
  shows "scan_token n (w @ r) = w"
proof -
  have "takeWhile (\<lambda>c. \<not> is_space c) (w @ r) = w @ takeWhile (\<lambda>c. \<not> is_space c) r"
    using assms(1) by (simp add: is_word_def list_all_iff)
  moreover have "takeWhile (\<lambda>c. \<not> is_space c) r = []" using assms(2) by (cases r) auto
  ultimately show ?thesis using assms(3) by (auto simp: scan_token_def split: option.splits)
qed

lemma sscanf_word:
  assumes "is_word w" "r = [] \<or> is_space (hd r)" "case n of None \<Rightarrow> True | Some k \<Rightarrow> length w \<le> k"
    "length w < cap"
  shows "sscanf (w @ r) (Str n cap # fs) = bindE (sscanf r fs) (\<lambda>vs. Inr (SStr w # vs))"
  using assms scan_token_word [OF assms(1-3)] by (simp add: is_word_def [of w])

lemma sscanf_Str_Nil: "sscanf [] (Str n cap # fs) = Inr []"
  by (simp add: scan_token_def split: option.splits)

lemma show_nat_length: "n < 10 ^ k \<Longrightarrow> 0 < k \<Longrightarrow> length (show_nat n) \<le> k"
proof (induction k arbitrary: n)
  case 0
  then show ?case by simp
next
  case (Suc k)
  show ?case
  proof (cases "n < 10")
    case True
    then show ?thesis by (subst show_nat.simps) simp
  next
    case False
    then have "0 < k" using Suc.prems(1) by (cases k) auto
    with Suc have "length (show_nat (n div 10)) \<le> k" by (simp add: less_mult_imp_div_less mult.commute)
    with False show ?thesis by (subst show_nat.simps) simp
  qed
qed

lemma show_int_length: "in_int i \<Longrightarrow> length (show_int i) \<le> 11"
proof (cases "i < 0")
  case True
  moreover assume "in_int i"
  ultimately have "length (show_nat (nat (- i))) \<le> 10"
    by (intro show_nat_length) (simp_all add: in_int_def INT_MIN_def INT_MAX_def nat_less_iff)
  with True show ?thesis by (simp add: show_int_def)
next
  case False
  moreover assume "in_int i"
  ultimately have "length (show_nat (nat i)) \<le> 10"
    by (intro show_nat_length) (simp_all add: in_int_def INT_MAX_def nat_less_iff)
  with False show ?thesis by (simp add: show_int_def)
qed

lemma show_int_chars: "c \<in> set (show_int i) \<Longrightarrow> is_digit c \<or> c = CHR ''-''"
  using show_nat_is_digit by (auto simp: show_int_def split: if_splits)

lemma digit_not_space: "is_digit c \<Longrightarrow> \<not> is_space c"
  by (auto simp: is_digit_def is_space_def)

lemma show_int_word [simp]: "is_word (show_int i)"
proof -
  have "show_int i \<noteq> []" by (simp add: show_int_def)
  moreover have "\<not> is_space c" if "c \<in> set (show_int i)" for c
    using show_int_chars [OF that] digit_not_space by auto
  ultimately show ?thesis by (simp add: is_word_def list_all_iff)
qed

lemma is_word_append: "is_word u \<Longrightarrow> is_word w \<Longrightarrow> is_word (u @ w)"
  by (simp add: is_word_def)

lemma word_no_newline: "is_word w \<Longrightarrow> CHR 0x0A \<notin> set w"
  by (metis is_space_simps(2) is_word_def list_all_iff)

lemma fgets_line:
  assumes "CHR 0x0A \<notin> set l" "length l + 1 < n"
  shows "fgets n (l @ CHR 0x0A # r) = Some (l @ [CHR 0x0A], r)"
proof -
  have "takeWhile (\<lambda>c. c \<noteq> CHR 0x0A) (l @ CHR 0x0A # r) = l"
    using assms(1) by (induction l) auto
  with assms(2) show ?thesis by (simp add: fgets_def Let_def)
qed

end
