(* ===== verification/UtilCommon.thy ===== *)
theory UtilCommon
  imports Prelude
begin

text \<open>
  The macros of \<open>src/util_common.h\<close> beside \<open>BUG_ON\<close>, which is in the prelude, and \<open>MAX\<close> and \<open>MIN\<close>, which
  are used on doubles.  The conversions are functions of the type their uses have: \<open>size_t\<close> is a
  64-bit word, the monitor's interval is a 32-bit one.
\<close>

section \<open>Branch hints\<close>

text \<open>The compiler's \<open>__builtin_expect\<close> returns its first argument, which \<open>!!\<close> made 0 or 1.\<close>

definition likely :: "int \<Rightarrow> int" where "likely x = (if x \<noteq> 0 then 1 else 0)"
definition unlikely :: "int \<Rightarrow> int" where "unlikely x = (if x \<noteq> 0 then 1 else 0)"

lemma hints_keep_truth: "(likely x \<noteq> 0) = (x \<noteq> 0)" "(unlikely x \<noteq> 0) = (x \<noteq> 0)"
  by (simp_all add: likely_def unlikely_def)

section \<open>Times\<close>

definition US_PER_SECOND :: int where "US_PER_SECOND = 1000000"
definition US_PER_MS :: int where "US_PER_MS = 1000"

text \<open>\<open>SECOND_TO_US\<close> of a \<open>uint32_t\<close>: the product wraps at 32 bits.\<close>

definition SECOND_TO_US :: "32 word \<Rightarrow> 32 word" where
  "SECOND_TO_US x = x * word_of_int US_PER_SECOND"

definition US_TO_SECOND :: "32 word \<Rightarrow> 32 word" where
  "US_TO_SECOND x = x div word_of_int US_PER_SECOND"

lemma second_to_us: "uint (SECOND_TO_US x) = uint x * 1000000 mod 2 ^ 32"
  by (simp add: SECOND_TO_US_def US_PER_SECOND_def uint_word_ariths)

text \<open>There and back again: up to 4294 seconds, and not for longer ones.\<close>

lemma us_roundtrip: "US_TO_SECOND (SECOND_TO_US x) = x \<longleftrightarrow> uint x \<le> 4294"
proof -
  have div: "uint (US_TO_SECOND y) = uint y div 1000000" for y
    by (simp add: US_TO_SECOND_def US_PER_SECOND_def uint_div)
  have "uint (US_TO_SECOND (SECOND_TO_US x)) = (uint x * 1000000 mod 2 ^ 32) div 1000000"
    unfolding div second_to_us ..
  moreover have "(uint x * 1000000 mod 2 ^ 32) div 1000000 = uint x \<longleftrightarrow> uint x \<le> 4294"
    using uint_ge_0 [of x] by (auto simp: mod_pos_pos_trivial)
  ultimately show ?thesis by (metis word_uint_eq_iff)
qed

section \<open>Sizes\<close>

definition BYTES_PER_KB :: "64 word" where "BYTES_PER_KB = 1024"
definition BYTES_PER_MB :: "64 word" where "BYTES_PER_MB = 1024 * 1024"
definition BYTES_PER_GB :: "64 word" where "BYTES_PER_GB = 1024 * 1024 * 1024"
definition MBYTES_PER_GB :: "64 word" where "MBYTES_PER_GB = 1024"

text \<open>The conversion of an \<open>int\<close> to \<open>size_t\<close> and the product wrap at 64 bits.\<close>

definition KB_TO_BYTES :: "int \<Rightarrow> 64 word" where
  "KB_TO_BYTES x = word_of_int x * BYTES_PER_KB"

definition MB_TO_BYTES :: "int \<Rightarrow> 64 word" where
  "MB_TO_BYTES x = word_of_int x * BYTES_PER_MB"

definition GB_TO_BYTES :: "int \<Rightarrow> 64 word" where
  "GB_TO_BYTES x = word_of_int x * BYTES_PER_GB"

definition MB_TO_GB :: "64 word \<Rightarrow> 64 word" where
  "MB_TO_GB x = x div MBYTES_PER_GB"

lemma mb_to_bytes: "MB_TO_BYTES x = word_of_int x * 1048576"
  by (simp add: MB_TO_BYTES_def BYTES_PER_MB_def)

lemma mb_to_gb: "MB_TO_GB x = x div 1024"
  by (simp add: MB_TO_GB_def MBYTES_PER_GB_def)

text \<open>No \<open>int\<close> that is not negative wraps; a negative one does.\<close>

lemma to_bytes_exact:
  assumes "0 \<le> x" "x \<le> INT_MAX"
  shows "uint (KB_TO_BYTES x) = x * 1024" "uint (MB_TO_BYTES x) = x * 1048576" "uint (GB_TO_BYTES x) = x * 1073741824"
  using assms
  by (simp_all add: KB_TO_BYTES_def MB_TO_BYTES_def GB_TO_BYTES_def BYTES_PER_KB_def BYTES_PER_MB_def
      BYTES_PER_GB_def uint_word_ariths uint_word_of_int INT_MAX_def take_bit_eq_mod)

lemma to_bytes_negative: "uint (MB_TO_BYTES (-1)) = 2 ^ 64 - 1048576"
  by (simp add: mb_to_bytes uint_word_ariths)

end
