(* ===== verification/Os.thy ===== *)
theory Os
  imports CString UtilCommon
begin

text \<open>
  The operating system as the sources call it, and the socket helpers of
  \<open>src/util_socket.c\<close>.

  The kernel is not part of the repository: it is the parameter \<open>os\<close>, one function per
  system call the sources make, each of which may return anything and change an unknown
  \<open>world\<close>.  \<open>os_recv\<close> answers \<open>None\<close> for a negative return value and otherwise the bytes, of
  which never more than the length asked for are stored.  \<open>os_epoll_wait\<close> answers the descriptors
  that are ready (none for an error), \<open>os_fopen\<close> the text of a file that can be opened, and
  \<open>os_printf\<close> writes to standard error when its first argument is true, else to standard output;
  what \<open>perror\<close> appends to its text is up to the kernel.
\<close>

record perf_event_attr =
  attr_type :: nat
  attr_config :: "64 word"
  attr_config1 :: "64 word"
  attr_disabled :: bool
  attr_read_format :: nat
  attr_pinned :: bool
  attr_exclude_user :: bool
  attr_exclude_kernel :: bool
  attr_exclude_hv :: bool
  attr_exclude_idle :: bool
  attr_exclude_host :: bool
  attr_exclude_guest :: bool

record perf_read_format =
  prf_value :: "64 word"
  prf_time_enabled :: "64 word"
  prf_time_running :: "64 word"

record 'w os =
  os_socket :: "'w \<Rightarrow> int \<times> 'w"
  os_accept :: "int \<Rightarrow> 'w \<Rightarrow> int \<times> 'w"
  os_connect :: "int \<Rightarrow> string \<Rightarrow> 'w \<Rightarrow> int \<times> 'w"
  os_close :: "int \<Rightarrow> 'w \<Rightarrow> int \<times> 'w"
  os_send :: "int \<Rightarrow> string \<Rightarrow> 'w \<Rightarrow> int \<times> 'w"
  os_recv :: "int \<Rightarrow> nat \<Rightarrow> 'w \<Rightarrow> string option \<times> 'w"
  os_usleep :: "nat \<Rightarrow> 'w \<Rightarrow> 'w"
  os_malloc :: "nat \<Rightarrow> 'w \<Rightarrow> bool \<times> 'w"
  os_perf_event_open :: "perf_event_attr \<Rightarrow> int \<Rightarrow> int \<Rightarrow> int \<Rightarrow> nat \<Rightarrow> 'w \<Rightarrow> int \<times> 'w"
  os_read_counter :: "int \<Rightarrow> 'w \<Rightarrow> (int \<times> perf_read_format) \<times> 'w"
  os_ioctl :: "int \<Rightarrow> nat \<Rightarrow> nat \<Rightarrow> 'w \<Rightarrow> int \<times> 'w"
  os_bind :: "int \<Rightarrow> string \<Rightarrow> 'w \<Rightarrow> int \<times> 'w"
  os_listen :: "int \<Rightarrow> nat \<Rightarrow> 'w \<Rightarrow> int \<times> 'w"
  os_unlink :: "string \<Rightarrow> 'w \<Rightarrow> 'w"
  os_epoll_create1 :: "'w \<Rightarrow> int \<times> 'w"
  os_epoll_add :: "int \<Rightarrow> int \<Rightarrow> 'w \<Rightarrow> int \<times> 'w"
  os_epoll_wait :: "int \<Rightarrow> nat \<Rightarrow> 'w \<Rightarrow> int list \<times> 'w"
  os_clock :: "'w \<Rightarrow> 64 word \<times> 'w"
  os_pthread_create :: "'w \<Rightarrow> int \<times> 'w"
  os_pthread_join :: "'w \<Rightarrow> 'w"
  os_fopen :: "string \<Rightarrow> 'w \<Rightarrow> string option"
  os_printf :: "bool \<Rightarrow> string \<Rightarrow> 'w \<Rightarrow> 'w"
  os_perror :: "string \<Rightarrow> 'w \<Rightarrow> 'w"

definition BUFFER_SIZE :: int where "BUFFER_SIZE = 1024"
definition MAX_SOCKET_PATH :: int where "MAX_SOCKET_PATH = 256"

text \<open>\<open>recv(fd, buf, n, 0)\<close>: at most \<open>n\<close> bytes.\<close>

definition sys_recv :: "'w os \<Rightarrow> int \<Rightarrow> nat \<Rightarrow> 'w \<Rightarrow> string option \<times> 'w" where
  "sys_recv os fd n w = (let (r, w') = os_recv os fd n w in (map_option (take n) r, w'))"

lemma sys_recv_length: "sys_recv os fd n w = (Some bs, w') \<Longrightarrow> length bs \<le> n"
  by (auto simp: sys_recv_def split: prod.splits)

text \<open>\<open>sun_path\<close> has 108 bytes; \<open>strncpy\<close> copies at most 107.\<close>

definition connect_to_socket :: "'w os \<Rightarrow> string \<Rightarrow> 'w \<Rightarrow> int \<times> 'w" where
  "connect_to_socket os socket_path w =
     (let (sockfd, w) = os_socket os w in
      if sockfd < 0 then (-1, w)
      else
        let (r, w) = os_connect os sockfd (take 107 socket_path) w in
        if r < 0 then (-1, snd (os_close os sockfd w)) else (sockfd, w))"

definition close_sockect :: "'w os \<Rightarrow> int \<Rightarrow> 'w \<Rightarrow> int \<times> 'w" where
  "close_sockect os socket_fd w = os_close os socket_fd w"

end
