(* ===== verification/CDouble.thy ===== *)
theory CDouble
  imports Prelude Complex_Main "HOL-Library.Log_Nat"
begin

text \<open>
  C's \<open>double\<close> (IEEE 754 binary64) as far as the sources use it: conversion from 64-bit
  counters, product, quotient, sum, comparison and conversion back to \<open>uint64_t\<close>, with rounding
  to nearest even, overflow to infinity, gradual underflow and NaN.  A finite double is a
  rational; the sign of zero is not kept (no source expression divides by a zero of known sign
  other than a converted counter, which is +0).
\<close>

datatype cdouble = DNaN | DInf bool | DFin rat

definition pow2 :: "int \<Rightarrow> rat" where
  "pow2 e = (if 0 \<le> e then 2 ^ nat e else 1 / 2 ^ nat (- e))"

text \<open>The binary exponent of a positive rational and the exponent of its last place.\<close>

definition bexp :: "rat \<Rightarrow> int" where
  "bexp q = (let (n, d) = quotient_of q;
                 e = int (floorlog 2 (nat n)) - int (floorlog 2 (nat d))
             in if pow2 e \<le> q then e else e - 1)"

definition ulp_exp :: "rat \<Rightarrow> int" where
  "ulp_exp q = max (bexp q - 52) (-1074)"

definition round_half_even :: "rat \<Rightarrow> int" where
  "round_half_even m =
     (let f = floor m; r = m - of_int f in
      if r < 1 / 2 then f else if 1 / 2 < r then f + 1 else if even f then f else f + 1)"

definition round_pos :: "rat \<Rightarrow> rat" where
  "round_pos q = of_int (round_half_even (q / pow2 (ulp_exp q))) * pow2 (ulp_exp q)"

definition dround :: "rat \<Rightarrow> cdouble" where
  "dround q =
     (if q = 0 then DFin 0
      else let r = round_pos \<bar>q\<bar> in
        if 2 ^ 1024 \<le> r then DInf (q < 0) else DFin (if q < 0 then - r else r))"

definition d_of_u64 :: "64 word \<Rightarrow> cdouble" where
  "d_of_u64 x = dround (of_int (uint x))"

fun d_neg :: "cdouble \<Rightarrow> bool" where
  "d_neg DNaN = False" | "d_neg (DInf s) = s" | "d_neg (DFin q) = (q < 0)"

fun d_mul :: "cdouble \<Rightarrow> cdouble \<Rightarrow> cdouble" where
  "d_mul (DFin a) (DFin b) = dround (a * b)"
| "d_mul DNaN y = DNaN"
| "d_mul x DNaN = DNaN"
| "d_mul (DInf s) y = (if y = DFin 0 then DNaN else DInf (s \<noteq> d_neg y))"
| "d_mul x (DInf s) = (if x = DFin 0 then DNaN else DInf (s \<noteq> d_neg x))"

text \<open>Division; a zero divisor counts as +0.\<close>

fun d_div :: "cdouble \<Rightarrow> cdouble \<Rightarrow> cdouble" where
  "d_div (DFin a) (DFin b) =
     (if b = 0 then (if a = 0 then DNaN else DInf (a < 0)) else dround (a / b))"
| "d_div DNaN y = DNaN"
| "d_div x DNaN = DNaN"
| "d_div (DInf s) (DInf t) = DNaN"
| "d_div (DInf s) (DFin b) = DInf (s \<noteq> (b < 0))"
| "d_div (DFin a) (DInf s) = DFin 0"

fun d_add :: "cdouble \<Rightarrow> cdouble \<Rightarrow> cdouble" where
  "d_add (DFin a) (DFin b) = dround (a + b)"
| "d_add DNaN y = DNaN"
| "d_add x DNaN = DNaN"
| "d_add (DInf s) (DInf t) = (if s = t then DInf s else DNaN)"
| "d_add (DInf s) (DFin b) = DInf s"
| "d_add (DFin a) (DInf s) = DInf s"

text \<open>Comparison with NaN is false.\<close>

fun d_less :: "cdouble \<Rightarrow> cdouble \<Rightarrow> bool" where
  "d_less (DFin a) (DFin b) = (a < b)"
| "d_less DNaN y = False"
| "d_less x DNaN = False"
| "d_less (DInf s) (DInf t) = (s \<and> \<not> t)"
| "d_less (DInf s) (DFin b) = s"
| "d_less (DFin a) (DInf s) = (\<not> s)"

text \<open>The macros \<open>MIN\<close> and \<open>MAX\<close> of \<open>util_common.h\<close> at \<open>double\<close>.\<close>

definition MAX_d :: "cdouble \<Rightarrow> cdouble \<Rightarrow> cdouble" where
  "MAX_d a b = (if d_less b a then a else b)"

definition MIN_d :: "cdouble \<Rightarrow> cdouble \<Rightarrow> cdouble" where
  "MIN_d a b = (if d_less a b then a else b)"

text \<open>\<open>(uint64_t) x\<close>: truncation; undefined when the value does not fit.\<close>

definition u64_of_d :: "cdouble \<Rightarrow> 64 word res" where
  "u64_of_d x =
     (case x of
        DFin q \<Rightarrow> if -1 < q \<and> q < 2 ^ 64 then Inr (word_of_int (if q < 0 then 0 else floor q))
                  else Inl ConvOverflow
      | _ \<Rightarrow> Inl ConvOverflow)"

section \<open>Small integers are exact\<close>

lemma pow2_pos [simp]: "0 < pow2 e"
  by (simp add: pow2_def)

lemma round_half_even_of_int [simp]: "round_half_even (of_int n) = n"
  by (simp add: round_half_even_def)

lemma round_pos_exact:
  assumes "q / pow2 (ulp_exp q) = of_int n"
  shows "round_pos q = q"
proof -
  have "q = of_int n * pow2 (ulp_exp q)"
    using assms pow2_pos [of "ulp_exp q"] by (simp add: field_simps)
  then show ?thesis using assms by (simp add: round_pos_def)
qed

lemma floorlog_le_53: "n < 2 ^ 53 \<Longrightarrow> floorlog 2 n \<le> 53"
  by (rule floorlog_leI) simp_all

lemma ulp_exp_int:
  assumes "0 < n" "n < 2 ^ 53"
  shows "ulp_exp (of_int n) \<le> 0"
proof -
  have q: "quotient_of (of_int n) = (n, 1)" by simp
  have "nat n < 2 ^ 53" using assms by (simp add: nat_less_iff)
  then have "floorlog 2 (nat n) \<le> 53" by (rule floorlog_le_53)
  moreover have "floorlog 2 (nat 1) = 1" by (simp add: floorlog_def)
  ultimately show ?thesis by (auto simp: ulp_exp_def bexp_def q Let_def)
qed

lemma dround_int:
  assumes "0 \<le> n" "n < 2 ^ 53"
  shows "dround (of_int n) = DFin (of_int n)"
proof (cases "n = 0")
  case True
  then show ?thesis by (simp add: dround_def)
next
  case False
  with assms have n: "0 < n" by simp
  let ?e = "ulp_exp (of_int n)"
  have "?e \<le> 0" by (rule ulp_exp_int [OF n assms(2)])
  then have "of_int n / pow2 ?e = (of_int (n * 2 ^ nat (- ?e)) :: rat)"
    by (cases "?e = 0") (simp_all add: pow2_def)
  then have "round_pos (of_int n) = of_int n" by (rule round_pos_exact)
  moreover have "(of_int n :: rat) < 2 ^ 1024"
  proof -
    have "n < 2 ^ 1024" using assms(2) by (rule order.strict_trans2) simp
    then show ?thesis by (metis of_int_less_iff of_int_numeral of_int_power)
  qed
  ultimately show ?thesis using n by (simp add: dround_def)
qed

lemma d_of_u64_small: "uint x < 2 ^ 53 \<Longrightarrow> d_of_u64 x = DFin (of_int (uint x))"
  unfolding d_of_u64_def by (rule dround_int) simp_all

lemma u64_of_d_int:
  assumes "0 \<le> n" "n < 2 ^ 64"
  shows "u64_of_d (DFin (of_int n)) = Inr (word_of_int n)"
proof -
  have "(of_int n :: rat) < 2 ^ 64" using assms(2) by (metis of_int_less_iff of_int_numeral of_int_power)
  moreover have "-1 < (of_int n :: rat)" "\<not> (of_int n :: rat) < 0" using assms(1) by simp_all
  ultimately show ?thesis by (simp add: u64_of_d_def)
qed

lemma u64_of_d_uint: "u64_of_d (DFin (of_int (uint x))) = Inr (x :: 64 word)"
  using u64_of_d_int [of "uint x"] uint_lt2p [of x] by simp

lemma MAX_d_nan [simp]: "MAX_d x DNaN = DNaN"
  by (cases x) (simp_all add: MAX_d_def)

lemma MIN_d_nan [simp]: "MIN_d x DNaN = DNaN"
  by (cases x) (simp_all add: MIN_d_def)

lemma d_mul_nan [simp]: "d_mul x DNaN = DNaN"
  by (cases x) simp_all

lemma d_add_nan [simp]: "d_add x DNaN = DNaN"
  by (cases x) simp_all

end
