(* ===== verification/PerfCounter.thy ===== *)
theory PerfCounter
  imports Os CDouble
begin

text \<open>
  The perf event wrappers and event tables of \<open>src/perf_counter.c\<close>.  The tables are lists
  indexed by the enumeration \<open>PerfEventType\<close> of \<open>src/perf_counter.h\<close>.
\<close>

section \<open>Event types and tables\<close>

datatype PerfEventType =
    INST_RETIRED
  | CPU_CLK_UNHALTED_THREAD
  | CPU_CLK_UNHALTED_REF_TSC
  | OCR_OUTSTANDING_L3_MISS_DEMAND_DATA_RD
  | OCR_L3_MISS_DEMAND_DATA_RD

text \<open>The value of an enumerator; the types are ordered by it.\<close>

fun enum_of :: "PerfEventType \<Rightarrow> nat" where
  "enum_of INST_RETIRED = 0"
| "enum_of CPU_CLK_UNHALTED_THREAD = 1"
| "enum_of CPU_CLK_UNHALTED_REF_TSC = 2"
| "enum_of OCR_OUTSTANDING_L3_MISS_DEMAND_DATA_RD = 3"
| "enum_of OCR_L3_MISS_DEMAND_DATA_RD = 4"

lemma enum_of_inject: "enum_of a = enum_of b \<Longrightarrow> a = b"
  by (cases a; cases b) simp_all

instantiation PerfEventType :: linorder
begin

definition less_eq_PerfEventType :: "PerfEventType \<Rightarrow> PerfEventType \<Rightarrow> bool" where
  "a \<le> b \<longleftrightarrow> enum_of a \<le> enum_of b"

definition less_PerfEventType :: "PerfEventType \<Rightarrow> PerfEventType \<Rightarrow> bool" where
  "a < b \<longleftrightarrow> enum_of a < enum_of b"

instance
  by standard (auto simp: less_eq_PerfEventType_def less_PerfEventType_def enum_of_inject)

end

definition PERF_EVENT_TYPE_MAX :: nat where "PERF_EVENT_TYPE_MAX = 5"
definition METRIC_TYPE_MAX :: nat where "METRIC_TYPE_MAX = 1"

definition perf_event_config_arr :: "64 word list" where
  "perf_event_config_arr = [0xC0, 0x3C, 0x300, 0x1060, 0x10b0]"

definition perf_event_config1_arr :: "64 word list" where
  "perf_event_config1_arr = [0, 0, 0, 0, 0]"

definition perf_event_is_leader_arr :: "bool list" where
  "perf_event_is_leader_arr = [True, True, True, True, True]"

definition perf_event_pin_arr :: "bool list" where
  "perf_event_pin_arr = [True, True, True, True, False]"

definition perf_event_name_arr :: "string list" where
  "perf_event_name_arr =
     [''INST_RETIRED.ANY_P'', ''CPU_CLK_UNHALTED.THREAD_P'', ''CPU_CLK_UNHALTED.REF_TSC'',
      ''OFFCORE_REQUESTS_OUTSTANDING.L3_MISS_DEMAND_DATA_RD'', ''OFFCORE_REQUESTS.L3_MISS_DEMAND_DATA_RD'']"

definition metric_name_arr :: "string list" where
  "metric_name_arr = [''metric_Load_L3_Miss_Latency_using_ORO_events(ns)'']"

definition metric_max_arr :: "cdouble list" where
  "metric_max_arr = [DFin 350]"

lemmas perf_tables = perf_event_config_arr_def perf_event_config1_arr_def
  perf_event_is_leader_arr_def perf_event_pin_arr_def

text \<open>The static assertions of the source: no event and no metric is out of a table's range.\<close>

lemma tables_complete:
  "length perf_event_config_arr = PERF_EVENT_TYPE_MAX" "length perf_event_config1_arr = PERF_EVENT_TYPE_MAX"
  "length perf_event_is_leader_arr = PERF_EVENT_TYPE_MAX" "length perf_event_pin_arr = PERF_EVENT_TYPE_MAX"
  "length perf_event_name_arr = PERF_EVENT_TYPE_MAX"
  "length metric_name_arr = METRIC_TYPE_MAX" "length metric_max_arr = METRIC_TYPE_MAX"
  by (simp_all add: perf_tables perf_event_name_arr_def metric_name_arr_def metric_max_arr_def
      PERF_EVENT_TYPE_MAX_def METRIC_TYPE_MAX_def)

lemma events_in_range: "enum_of j < PERF_EVENT_TYPE_MAX"
  by (cases j) (simp_all add: PERF_EVENT_TYPE_MAX_def)

section \<open>Wrappers\<close>

definition PERF_TYPE_RAW :: nat where "PERF_TYPE_RAW = 4"
definition PERF_READ_FORMAT :: nat where "PERF_READ_FORMAT = 3"

text \<open>The system call, which the C library has no wrapper for.\<close>

definition perf_event_open ::
    "'w os \<Rightarrow> perf_event_attr \<Rightarrow> int \<Rightarrow> int \<Rightarrow> int \<Rightarrow> nat \<Rightarrow> 'w \<Rightarrow> int \<times> 'w" where
  "perf_event_open os attr pid core group_fd flags w = os_perf_event_open os attr pid core group_fd flags w"

definition perf_event_setup ::
    "'w os \<Rightarrow> int \<Rightarrow> 64 word \<Rightarrow> 64 word \<Rightarrow> bool \<Rightarrow> bool \<Rightarrow> bool \<Rightarrow> bool \<Rightarrow> bool \<Rightarrow> bool \<Rightarrow> bool \<Rightarrow>
       int \<Rightarrow> 'w \<Rightarrow> int \<times> 'w" where
  "perf_event_setup os core config config1 pin_event exclude_user exclude_kernel exclude_hv
      exclude_idle exclude_host exclude_guest group_fd w =
     perf_event_open os
       \<lparr>attr_type = PERF_TYPE_RAW, attr_config = config, attr_config1 = config1,
        attr_disabled = False, attr_read_format = PERF_READ_FORMAT, attr_pinned = pin_event,
        attr_exclude_user = exclude_user, attr_exclude_kernel = exclude_kernel,
        attr_exclude_hv = exclude_hv, attr_exclude_idle = exclude_idle,
        attr_exclude_host = exclude_host, attr_exclude_guest = exclude_guest\<rparr>
       (-1) core group_fd 0 w"

definition perf_event_teardown :: "'w os \<Rightarrow> int \<Rightarrow> 'w \<Rightarrow> 'w res" where
  "perf_event_teardown os fd w =
     (let (ret, w) = os_close os fd w in bindE (BUG_ON (ret \<noteq> 0)) (\<lambda>_. Inr w))"

text \<open>The count scaled for multiplexing, in doubles.\<close>

definition perf_scale :: "perf_read_format \<Rightarrow> 64 word res" where
  "perf_scale d =
     u64_of_d (d_div (d_mul (d_of_u64 (prf_value d)) (d_of_u64 (prf_time_enabled d)))
                     (d_of_u64 (prf_time_running d)))"

definition sizeof_perf_read_format :: int where "sizeof_perf_read_format = 24"

definition perf_event_read :: "'w os \<Rightarrow> int \<Rightarrow> 'w \<Rightarrow> (64 word \<times> 'w) res" where
  "perf_event_read os event_fd w =
     (let ((ret, data), w) = os_read_counter os event_fd w in
      bindE (BUG_ON (ret \<noteq> sizeof_perf_read_format)) (\<lambda>_.
      bindE (perf_scale data) (\<lambda>v. Inr (v, w))))"

section \<open>Scaling\<close>

text \<open>
  A counter that was scheduled all the time is reported exactly, as long as the product fits
  the 53-bit mantissa; one that never ran has no value, and the conversion is undefined.
\<close>

text \<open>The three requests to a counter; nothing in the sources calls them.\<close>

definition PERF_EVENT_IOC_ENABLE :: nat where "PERF_EVENT_IOC_ENABLE = 0x2400"
definition PERF_EVENT_IOC_DISABLE :: nat where "PERF_EVENT_IOC_DISABLE = 0x2401"
definition PERF_EVENT_IOC_RESET :: nat where "PERF_EVENT_IOC_RESET = 0x2403"

definition perf_ioctl :: "'w os \<Rightarrow> nat \<Rightarrow> int \<Rightarrow> 'w \<Rightarrow> 'w res" where
  "perf_ioctl os request event_fd w =
     (let (ret, w) = os_ioctl os event_fd request 0 w in bindE (BUG_ON (ret < 0)) (\<lambda>_. Inr w))"

definition perf_event_reset :: "'w os \<Rightarrow> int \<Rightarrow> 'w \<Rightarrow> 'w res" where
  "perf_event_reset os = perf_ioctl os PERF_EVENT_IOC_RESET"

definition perf_event_enable :: "'w os \<Rightarrow> int \<Rightarrow> 'w \<Rightarrow> 'w res" where
  "perf_event_enable os = perf_ioctl os PERF_EVENT_IOC_ENABLE"

definition perf_event_disable :: "'w os \<Rightarrow> int \<Rightarrow> 'w \<Rightarrow> 'w res" where
  "perf_event_disable os = perf_ioctl os PERF_EVENT_IOC_DISABLE"

section \<open>System-wide counters\<close>

text \<open>
  The PCM library is the parameter \<open>pcm_lib\<close>.  Of what it measures the sources use the bandwidth
  per core: two arrays of \<open>MAX_CORES\<close> entries.
\<close>

definition MAX_CORES :: int where "MAX_CORES = 4096"

record core_metrics =
  core_local_bw :: "64 word arr"
  core_remote_bw :: "64 word arr"

record 'w pcm_lib =
  pcm_c_init :: "'w \<Rightarrow> int \<times> 'w"
  pcm_c_start :: "'w \<Rightarrow> 'w"
  pcm_c_cleanup :: "'w \<Rightarrow> 'w"
  pcm_c_get_metrics :: "bool \<Rightarrow> 'w \<Rightarrow> core_metrics \<times> 'w"
  pcm_c_get_num_cores :: "'w \<Rightarrow> 32 word"

definition perf_agent_init :: "'w pcm_lib \<Rightarrow> 'w \<Rightarrow> int \<times> 'w" where
  "perf_agent_init pcm w =
     (let (ret, w) = pcm_c_init pcm w in if ret \<noteq> 0 then (-1, w) else (0, pcm_c_start pcm w))"

definition perf_agent_cleanup :: "'w pcm_lib \<Rightarrow> 'w \<Rightarrow> 'w" where
  "perf_agent_cleanup pcm w = pcm_c_cleanup pcm w"

definition perf_agent_get_metrics :: "'w pcm_lib \<Rightarrow> bool \<Rightarrow> 'w \<Rightarrow> core_metrics \<times> 'w" where
  "perf_agent_get_metrics pcm output w = pcm_c_get_metrics pcm output w"

definition perf_agent_get_num_cores :: "'w pcm_lib \<Rightarrow> 'w \<Rightarrow> 32 word" where
  "perf_agent_get_num_cores pcm w = pcm_c_get_num_cores pcm w"

section \<open>Scaling\<close>

lemma perf_scale_exact:
  assumes "prf_time_running d = prf_time_enabled d" "prf_time_enabled d \<noteq> 0"
    "uint (prf_time_enabled d) < 2 ^ 53"
    "uint (prf_value d) * uint (prf_time_enabled d) < 2 ^ 53"
  shows "perf_scale d = Inr (prf_value d)"
proof -
  define v e where "v = uint (prf_value d)" and "e = uint (prf_time_enabled d)"
  have "e \<noteq> 0" "0 \<le> e" using assms(2) by (simp_all add: e_def uint_0_iff)
  then have "0 < e" by linarith
  moreover have "e < 2 ^ 53" using assms(3) by (simp add: e_def)
  ultimately have e: "0 < e" "e < 2 ^ 53" .
  have v: "0 \<le> v" "v * e < 2 ^ 53" using assms(4) by (simp_all add: v_def e_def)
  have "v * 1 \<le> v * e" using e v by (intro mult_left_mono) auto
  then have v53: "v < 2 ^ 53" using v by linarith
  have "d_mul (DFin (of_int v)) (DFin (of_int e)) = DFin (of_int (v * e))"
    using dround_int [of "v * e"] v e by simp
  moreover have "d_div (DFin (of_int (v * e))) (DFin (of_int e)) = DFin (of_int v)"
    using e dround_int [OF v(1) v53] by simp
  moreover have "d_of_u64 (prf_value d) = DFin (of_int v)" "d_of_u64 (prf_time_enabled d) = DFin (of_int e)"
    using v53 e unfolding v_def e_def by (simp_all only: d_of_u64_small)
  ultimately show ?thesis
    using assms(1) u64_of_d_uint [of "prf_value d"] by (simp only: perf_scale_def v_def)
qed

lemma perf_scale_unscheduled:
  assumes "prf_time_running d = 0"
  shows "perf_scale d = Inl ConvOverflow"
proof -
  have "d_of_u64 0 = DFin 0" by (simp add: d_of_u64_def dround_def)
  moreover have "u64_of_d (d_div x (DFin 0)) = Inl ConvOverflow" for x
    by (cases x) (simp_all add: u64_of_d_def)
  ultimately show ?thesis using assms by (simp add: perf_scale_def)
qed

end
