(* ===== verification/Vm.thy ===== *)
theory Vm
  imports MemoryPool PerfCounter
begin

text \<open>
  One VM instance: \<open>struct vm_instance\<close> of \<open>src/vm_manager.h\<close>, the walk over its core set and
  its perf counters (\<open>src/vm_manager.c\<close>).

  \<^item> The perf event arrays are indexed by \<open>PerfEventType\<close>; an array of descriptors is \<open>None\<close>
    when it is not allocated, and an entry is \<open>None\<close> until it is written.
  \<^item> \<open>attached_devs\<close> is the list of the queue's elements in order; the theory \<open>Tailq\<close> shows that
    the macros implement the list operations used here.
  \<^item> \<open>strdup\<close> of a core set is taken to succeed.
\<close>

section \<open>Data\<close>

datatype MetricType = LOAD_L3_MISS_LAT

definition all_events :: "PerfEventType list" where
  "all_events = [INST_RETIRED, CPU_CLK_UNHALTED_THREAD, CPU_CLK_UNHALTED_REF_TSC,
     OCR_OUTSTANDING_L3_MISS_DEMAND_DATA_RD, OCR_L3_MISS_DEMAND_DATA_RD]"

lemma all_events: "j \<in> set all_events" "distinct all_events" "sorted all_events"
  by (cases j) (simp_all add: all_events_def less_eq_PerfEventType_def)

record vm_mem_req =
  vmr_dev_path :: string
  vmr_offset_mb :: int
  vmr_size_mb :: int
  vmr_align_mb :: int
  vmr_memdev_idx :: int

record memory_dev =
  memdev_idx :: int
  memory_req :: memory_request

record vm_instance =
  VM_id :: int
  VM_num_cores :: int
  VM_core_set :: string
  VM_core_index :: int
  VM_initialized :: bool
  VM_running :: bool
  VM_mem_bw_local :: "64 word"
  VM_mem_bw_remote :: "64 word"
  VM_mem_bw :: "64 word"
  VM_mem_bw_util :: cdouble
  VM_mem_cp :: "64 word"
  VM_mem_cp_util :: cdouble
  VM_perf_event_fds :: "PerfEventType \<Rightarrow> int option list option"
  VM_cum_counts :: "PerfEventType \<Rightarrow> 64 word"
  VM_delta_counts :: "PerfEventType \<Rightarrow> 64 word"
  VM_cur_metrics :: "MetricType \<Rightarrow> cdouble"
  VM_ewma_metrics :: "MetricType \<Rightarrow> cdouble"
  VM_ewma_initialized :: bool
  VM_memdev_counter :: int
  VM_attached_devs :: "memory_dev list"

definition zero_vm :: vm_instance where
  "zero_vm = \<lparr>VM_id = 0, VM_num_cores = 0, VM_core_set = [], VM_core_index = 0,
     VM_initialized = False, VM_running = False, VM_mem_bw_local = 0, VM_mem_bw_remote = 0,
     VM_mem_bw = 0, VM_mem_bw_util = DFin 0, VM_mem_cp = 0, VM_mem_cp_util = DFin 0,
     VM_perf_event_fds = (\<lambda>_. None), VM_cum_counts = (\<lambda>_. 0), VM_delta_counts = (\<lambda>_. 0),
     VM_cur_metrics = (\<lambda>_. DFin 0), VM_ewma_metrics = (\<lambda>_. DFin 0),
     VM_ewma_initialized = False, VM_memdev_counter = 0, VM_attached_devs = []\<rparr>"

section \<open>The cores of a VM\<close>

text \<open>
  One piece of the core set: a range \<open>a-b\<close>, or a number, or nothing.  The loop variable of a
  range that ends at \<open>INT_MAX\<close> overflows after its last round.
\<close>

fun the_range :: "scanned list \<Rightarrow> (int \<times> int) option" where
  "the_range [SInt first, SInt last_core] = Some (first, last_core)"
| "the_range _ = None"

definition visit_token :: "(int \<Rightarrow> 's \<Rightarrow> 's res) \<Rightarrow> string \<Rightarrow> 's \<Rightarrow> 's res" where
  "visit_token core_handler token st =
     bindE (sscanf token [Dec, Lit CHR ''-'', Dec]) (\<lambda>vs.
     case the_range vs of
       Some (first, last_core) \<Rightarrow>
         if first \<le> last_core then
           bindE (foldE core_handler [first..last_core] st) (\<lambda>st.
             if last_core = INT_MAX then Inl SignedOverflow else Inr st)
         else Inr st
     | None \<Rightarrow>
         bindE (sscanf token [Dec]) (\<lambda>vs.
         case the_int vs of Some first \<Rightarrow> core_handler first st | None \<Rightarrow> Inr st))"

definition vm_mngr_for_each_core :: "string \<Rightarrow> (int \<Rightarrow> 's \<Rightarrow> 's res) \<Rightarrow> 's \<Rightarrow> 's res" where
  "vm_mngr_for_each_core core_set core_handler st =
     bindE (BUG_ON (core_set = [])) (\<lambda>_.
       foldE (visit_token core_handler) (strtok_all CHR '','' core_set) st)"

text \<open>\<open>__vm_num_core_update\<close> on the field it counts.\<close>

definition vm_num_core_update :: "int \<Rightarrow> int \<Rightarrow> int res" where
  "vm_num_core_update core_id num_cores = c_add num_cores 1"

text \<open>The cores a core set names, in the order of the walk; the walk is a loop over them.\<close>

definition token_ids :: "string \<Rightarrow> int list res" where
  "token_ids token =
     bindE (sscanf token [Dec, Lit CHR ''-'', Dec]) (\<lambda>vs.
     case the_range vs of
       Some (first, last_core) \<Rightarrow>
         if first \<le> last_core then
           if last_core = INT_MAX then Inl SignedOverflow else Inr [first..last_core]
         else Inr []
     | None \<Rightarrow> bindE (sscanf token [Dec]) (\<lambda>vs. Inr (case the_int vs of Some c \<Rightarrow> [c] | None \<Rightarrow> [])))"

fun tokens_ids :: "string list \<Rightarrow> int list res" where
  "tokens_ids [] = Inr []"
| "tokens_ids (t # ts) =
     bindE (token_ids t) (\<lambda>ids. bindE (tokens_ids ts) (\<lambda>rest. Inr (ids @ rest)))"

definition core_ids :: "string \<Rightarrow> int list res" where
  "core_ids core_set =
     bindE (BUG_ON (core_set = [])) (\<lambda>_. tokens_ids (strtok_all CHR '','' core_set))"

lemma token_cases:
  obtains (fault) e where "sscanf t [Dec, Lit CHR ''-'', Dec] = Inl e"
  | (range) vs a b where "sscanf t [Dec, Lit CHR ''-'', Dec] = Inr vs" "the_range vs = Some (a, b)"
  | (single) vs where "sscanf t [Dec, Lit CHR ''-'', Dec] = Inr vs" "the_range vs = None"
  by (metis old.prod.exhaust old.sum.exhaust option.exhaust)

lemma visit_token_ids: "token_ids t = Inr ids \<Longrightarrow> visit_token h t s = foldE h ids s"
proof (cases t rule: token_cases)
  case single
  moreover assume "token_ids t = Inr ids"
  ultimately show ?thesis
    by (auto simp del: sscanf.simps simp: token_ids_def visit_token_def bindE_eq_Inr split: option.splits)
qed (auto simp del: sscanf.simps simp: token_ids_def visit_token_def split: if_splits)

lemma visit_token_Inr: "visit_token h t s = Inr s' \<Longrightarrow> \<exists>ids. token_ids t = Inr ids"
proof (cases t rule: token_cases)
  case single
  moreover assume "visit_token h t s = Inr s'"
  ultimately show ?thesis
    by (auto simp del: sscanf.simps simp: token_ids_def visit_token_def bindE_eq_Inr)
qed (auto simp del: sscanf.simps simp: token_ids_def visit_token_def bindE_eq_Inr split: if_splits)

lemma tokens_fold: "tokens_ids ts = Inr ids \<Longrightarrow> foldE (visit_token h) ts s = foldE h ids s"
proof (induction ts arbitrary: ids s)
  case (Cons t ts)
  then obtain xs ys where xs: "token_ids t = Inr xs" "tokens_ids ts = Inr ys" "ids = xs @ ys"
    by (auto simp: bindE_eq_Inr)
  have "foldE (visit_token h) ts = foldE h ys" using Cons.IH [OF xs(2)] by blast
  with xs(3) show ?case by (simp add: foldE_append visit_token_ids [OF xs(1)])
qed simp

lemma tokens_fold_Inr: "foldE (visit_token h) ts s = Inr s' \<Longrightarrow> \<exists>ids. tokens_ids ts = Inr ids"
proof (induction ts arbitrary: s)
  case (Cons t ts)
  then obtain s1 where s1: "visit_token h t s = Inr s1" "foldE (visit_token h) ts s1 = Inr s'"
    by (auto simp: bindE_eq_Inr)
  with visit_token_Inr [OF s1(1)] Cons.IH [OF s1(2)] show ?case by auto
qed simp

text \<open>The walk is a loop over \<open>core_ids\<close>; it has no fault of its own exactly when they exist.\<close>

lemma for_each_core_ids:
  "core_ids cs = Inr ids \<Longrightarrow> vm_mngr_for_each_core cs h s = foldE h ids s"
  by (auto simp: core_ids_def vm_mngr_for_each_core_def bindE_eq_Inr BUG_ON_eq_Inr tokens_fold)

lemma for_each_core_Inr:
  "vm_mngr_for_each_core cs h s = Inr s' \<Longrightarrow> \<exists>ids. core_ids cs = Inr ids"
  by (auto simp: core_ids_def vm_mngr_for_each_core_def bindE_eq_Inr BUG_ON_eq_Inr tokens_fold_Inr)

lemma foldE_count:
  "foldE vm_num_core_update ids n = Inr m \<Longrightarrow>
     m = n + int (length ids) \<and> (n \<le> INT_MAX \<longrightarrow> m \<le> INT_MAX)"
proof (induction ids arbitrary: n)
  case (Cons c ids)
  then have "foldE vm_num_core_update ids (n + 1) = Inr m" "n + 1 \<le> INT_MAX"
    by (auto simp: vm_num_core_update_def [of c] c_add_def bindE_eq_Inr ck_eq_Inr in_int_def)
  from Cons.IH [OF this(1)] this(2) show ?case by simp
qed simp

lemma foldE_count_total:
  "0 \<le> n \<Longrightarrow> n + int (length ids) \<le> INT_MAX \<Longrightarrow>
     foldE vm_num_core_update ids n = Inr (n + int (length ids))"
proof (induction ids arbitrary: n)
  case (Cons c ids)
  then have "vm_num_core_update c n = Inr (n + 1)"
    by (simp add: vm_num_core_update_def c_add_def in_int_def INT_MIN_def)
  with Cons.IH [of "n + 1"] Cons.prems show ?case by (simp add: algebra_simps)
qed simp

section \<open>Perf counters of a VM\<close>

definition fd_get :: "PerfEventType \<Rightarrow> int \<Rightarrow> vm_instance \<Rightarrow> int res" where
  "fd_get j k VM =
     (case VM_perf_event_fds VM j of
        None \<Rightarrow> Inl BadPointer
      | Some fds \<Rightarrow>
          if 0 \<le> k \<and> k < int (length fds) then
            (case fds ! nat k of None \<Rightarrow> Inl UninitRead | Some fd \<Rightarrow> Inr fd)
          else Inl OutOfBounds)"

definition fd_set :: "PerfEventType \<Rightarrow> int \<Rightarrow> int \<Rightarrow> vm_instance \<Rightarrow> vm_instance res" where
  "fd_set j k fd VM =
     (case VM_perf_event_fds VM j of
        None \<Rightarrow> Inl BadPointer
      | Some fds \<Rightarrow>
          if 0 \<le> k \<and> k < int (length fds) then
            Inr (VM\<lparr>VM_perf_event_fds := (VM_perf_event_fds VM)(j \<mapsto> fds[nat k := Some fd])\<rparr>)
          else Inl OutOfBounds)"

definition vm_perf_setup_event ::
    "'w os \<Rightarrow> int \<Rightarrow> PerfEventType \<Rightarrow> vm_instance \<times> int \<times> 'w \<Rightarrow> (vm_instance \<times> int \<times> 'w) res" where
  "vm_perf_setup_event os core_id j st =
     (let (VM, leader_fd, w) = st;
          leader_fd = (if perf_event_is_leader_arr ! enum_of j then -1 else leader_fd);
          (fd, w) = perf_event_setup os core_id (perf_event_config_arr ! enum_of j)
             (perf_event_config1_arr ! enum_of j) (perf_event_pin_arr ! enum_of j)
             False False False False False False leader_fd w
      in bindE (fd_set j (VM_core_index VM) fd VM) (\<lambda>VM.
         bindE (BUG_ON (fd < 0)) (\<lambda>_.
         Inr (VM, if leader_fd = -1 then fd else leader_fd, w))))"

definition vm_perf_counter_setup_core ::
    "'w os \<Rightarrow> int \<Rightarrow> vm_instance \<times> 'w \<Rightarrow> (vm_instance \<times> 'w) res" where
  "vm_perf_counter_setup_core os core_id st =
     (let (VM, w) = st in
      bindE (BUG_ON (core_id < 0)) (\<lambda>_.
      bindE (foldE (vm_perf_setup_event os core_id) all_events (VM, -1, w)) (\<lambda>(VM, _, w).
      bindE (c_add (VM_core_index VM) 1) (\<lambda>n. Inr (VM\<lparr>VM_core_index := n\<rparr>, w)))))"

text \<open>Allocation of the descriptor array of one event; \<open>sizeof(int)\<close> is 4.\<close>

definition vm_perf_alloc_event ::
    "'w os \<Rightarrow> PerfEventType \<Rightarrow> vm_instance \<times> 'w \<Rightarrow> (vm_instance \<times> 'w) res" where
  "vm_perf_alloc_event os j st =
     (let (VM, w) = st; (ok, w) = os_malloc os (nat (VM_num_cores VM) * 4) w in
      bindE (BUG_ON (\<not> ok)) (\<lambda>_.
      Inr (VM\<lparr>VM_perf_event_fds := (VM_perf_event_fds VM)(j \<mapsto> replicate (nat (VM_num_cores VM)) None),
              VM_cum_counts := (VM_cum_counts VM)(j := 0),
              VM_delta_counts := (VM_delta_counts VM)(j := 0)\<rparr>, w)))"

definition vm_perf_counter_setup :: "'w os \<Rightarrow> vm_instance \<times> 'w \<Rightarrow> (vm_instance \<times> 'w) res" where
  "vm_perf_counter_setup os st =
     bindE (BUG_ON (VM_num_cores (fst st) \<le> 0)) (\<lambda>_.
     bindE (foldE (vm_perf_alloc_event os) all_events st) (\<lambda>(VM, w).
     let VM = VM\<lparr>VM_cur_metrics := (\<lambda>_. DFin 0), VM_ewma_metrics := (\<lambda>_. DFin 0),
                 VM_ewma_initialized := False, VM_core_index := 0\<rparr> in
     vm_mngr_for_each_core (VM_core_set VM) (vm_perf_counter_setup_core os) (VM, w)))"

text \<open>
  The bookkeeping shared by the teardown and the periodic update: a sum that went back counts
  as no progress.
\<close>

definition record_count :: "PerfEventType \<Rightarrow> 64 word \<Rightarrow> vm_instance \<Rightarrow> vm_instance" where
  "record_count j new_cum_count VM =
     (let cum = VM_cum_counts VM j;
          new_cum_count = (if new_cum_count < cum then cum else new_cum_count)
      in VM\<lparr>VM_delta_counts := (VM_delta_counts VM)(j := new_cum_count - cum),
            VM_cum_counts := (VM_cum_counts VM)(j := new_cum_count)\<rparr>)"

definition vm_perf_close_core ::
    "'w os \<Rightarrow> vm_instance \<Rightarrow> PerfEventType \<Rightarrow> int \<Rightarrow> 64 word \<times> 'w \<Rightarrow> (64 word \<times> 'w) res" where
  "vm_perf_close_core os VM j k st =
     (let (new_cum_count, w) = st in
      bindE (fd_get j k VM) (\<lambda>fd.
      bindE (perf_event_read os fd w) (\<lambda>(count, w).
      bindE (perf_event_teardown os fd w) (\<lambda>w. Inr (new_cum_count + count, w)))))"

text \<open>
  The teardown of one event.  The array is freed and the field keeps the address: a freed array is
  \<open>None\<close> here, so that whatever goes through the field afterwards is a \<open>BadPointer\<close>.
\<close>

definition vm_perf_teardown_event ::
    "'w os \<Rightarrow> PerfEventType \<Rightarrow> vm_instance \<times> 'w \<Rightarrow> (vm_instance \<times> 'w) res" where
  "vm_perf_teardown_event os j st =
     (let (VM, w) = st in
      bindE (foldE (vm_perf_close_core os VM j) [0..VM_num_cores VM - 1] (0, w))
        (\<lambda>(new_cum_count, w).
      let VM = record_count j new_cum_count VM in
      case VM_perf_event_fds VM j of
        None \<Rightarrow> Inl BadPointer
      | Some _ \<Rightarrow> Inr (VM\<lparr>VM_perf_event_fds := (VM_perf_event_fds VM)(j := None)\<rparr>, w)))"

definition vm_perf_counter_teardown :: "'w os \<Rightarrow> vm_instance \<times> 'w \<Rightarrow> (vm_instance \<times> 'w) res" where
  "vm_perf_counter_teardown os = foldE (vm_perf_teardown_event os) all_events"

definition vm_perf_read_core ::
    "'w os \<Rightarrow> vm_instance \<Rightarrow> PerfEventType \<Rightarrow> int \<Rightarrow> 64 word \<times> 'w \<Rightarrow> (64 word \<times> 'w) res" where
  "vm_perf_read_core os VM j k st =
     (let (new_cum_count, w) = st in
      bindE (fd_get j k VM) (\<lambda>fd.
      bindE (perf_event_read os fd w) (\<lambda>(count, w). Inr (new_cum_count + count, w))))"

definition vm_perf_update_event ::
    "'w os \<Rightarrow> PerfEventType \<Rightarrow> vm_instance \<times> 'w \<Rightarrow> (vm_instance \<times> 'w) res" where
  "vm_perf_update_event os j st =
     (let (VM, w) = st in
      bindE (foldE (vm_perf_read_core os VM j) [0..VM_num_cores VM - 1] (0, w))
        (\<lambda>(new_cum_count, w). Inr (record_count j new_cum_count VM, w)))"

text \<open>The body of \<open>vm_mngr_update_perf_counters\<close> for one running VM.\<close>

definition vm_perf_update :: "'w os \<Rightarrow> vm_instance \<times> 'w \<Rightarrow> (vm_instance \<times> 'w) res" where
  "vm_perf_update os = foldE (vm_perf_update_event os) all_events"

section \<open>Metrics\<close>

definition d_sub :: "cdouble \<Rightarrow> cdouble \<Rightarrow> cdouble" where
  "d_sub a b = (case b of DNaN \<Rightarrow> DNaN | DInf s \<Rightarrow> d_add a (DInf (\<not> s)) | DFin q \<Rightarrow> d_add a (DFin (- q)))"

definition TSC_FREQ :: cdouble where "TSC_FREQ = DFin 2100000000"

definition ewma_constant :: cdouble where "ewma_constant = dround (1 / 5)"

definition l3_miss_latency :: "(PerfEventType \<Rightarrow> 64 word) \<Rightarrow> cdouble" where
  "l3_miss_latency delta =
     d_div (d_mul (DFin 1000000000)
                  (d_div (d_of_u64 (delta OCR_OUTSTANDING_L3_MISS_DEMAND_DATA_RD))
                         (d_of_u64 (delta OCR_L3_MISS_DEMAND_DATA_RD))))
           (d_mul (d_div (d_of_u64 (delta CPU_CLK_UNHALTED_THREAD))
                         (d_of_u64 (delta CPU_CLK_UNHALTED_REF_TSC)))
                  TSC_FREQ)"

text \<open>The body of \<open>vm_mngr_update_metrics\<close> for one running VM; there is one metric.\<close>

definition vm_update_metrics :: "vm_instance \<Rightarrow> vm_instance" where
  "vm_update_metrics VM =
     (let lat = l3_miss_latency (VM_delta_counts VM);
          cur = (VM_cur_metrics VM)(LOAD_L3_MISS_LAT := lat);
          cur = (\<lambda>j. MIN_d (metric_max_arr ! 0) (MAX_d (DFin 0) (cur j)));
          ewma = (\<lambda>j. if VM_ewma_initialized VM
                      then d_add (d_mul ewma_constant (cur j))
                                 (d_mul (d_sub (DFin 1) ewma_constant) (VM_ewma_metrics VM j))
                      else cur j)
      in VM\<lparr>VM_cur_metrics := cur, VM_ewma_metrics := ewma, VM_ewma_initialized := True\<rparr>)"

end
