(* ===== verification/VmPerf.thy ===== *)
theory VmPerf
  imports Vm
begin

text \<open>
  The perf counters of one VM: setting them up fills an array of one descriptor per core for
  every event, the teardown and the periodic update then read only descriptors that were
  opened, cumulative counts never go back, and what the metrics may be.
\<close>

section \<open>What the perf code leaves alone\<close>

definition perf_frame :: "vm_instance \<Rightarrow> vm_instance \<Rightarrow> bool" where
  "perf_frame VM VM' \<longleftrightarrow>
     VM_id VM' = VM_id VM \<and> VM_num_cores VM' = VM_num_cores VM \<and> VM_core_set VM' = VM_core_set VM \<and>
     VM_initialized VM' = VM_initialized VM \<and> VM_running VM' = VM_running VM \<and>
     VM_memdev_counter VM' = VM_memdev_counter VM \<and> VM_attached_devs VM' = VM_attached_devs VM"

lemma perf_frame_refl [simp]: "perf_frame VM VM"
  by (simp add: perf_frame_def)

lemma perf_frame_trans: "perf_frame a b \<Longrightarrow> perf_frame b c \<Longrightarrow> perf_frame a c"
  by (simp add: perf_frame_def)

lemma perf_frame_upd [simp]:
  "perf_frame VM (VM'\<lparr>VM_perf_event_fds := f\<rparr>) = perf_frame VM VM'"
  "perf_frame VM (VM'\<lparr>VM_cum_counts := c\<rparr>) = perf_frame VM VM'"
  "perf_frame VM (VM'\<lparr>VM_delta_counts := c\<rparr>) = perf_frame VM VM'"
  "perf_frame VM (VM'\<lparr>VM_cur_metrics := m\<rparr>) = perf_frame VM VM'"
  "perf_frame VM (VM'\<lparr>VM_ewma_metrics := m\<rparr>) = perf_frame VM VM'"
  "perf_frame VM (VM'\<lparr>VM_ewma_initialized := b\<rparr>) = perf_frame VM VM'"
  "perf_frame VM (VM'\<lparr>VM_core_index := k\<rparr>) = perf_frame VM VM'"
  by (simp_all add: perf_frame_def)

lemma record_count_frame [simp]:
  "perf_frame VM (record_count j n VM') = perf_frame VM VM'"
  "VM_perf_event_fds (record_count j n VM) = VM_perf_event_fds VM"
  by (simp_all add: record_count_def Let_def)

section \<open>Setup\<close>

text \<open>The array of event \<open>j\<close> has an entry per core, and the first \<open>n\<close> of them are descriptors.\<close>

definition fds_upto :: "vm_instance \<Rightarrow> PerfEventType \<Rightarrow> int \<Rightarrow> bool" where
  "fds_upto VM j n \<longleftrightarrow>
     (\<exists>fds. VM_perf_event_fds VM j = Some fds \<and> int (length fds) = VM_num_cores VM \<and>
        (\<forall>k. 0 \<le> k \<and> k < n \<and> k < VM_num_cores VM \<longrightarrow> fds ! nat k \<noteq> None))"

definition perf_live :: "vm_instance \<Rightarrow> bool" where
  "perf_live VM \<longleftrightarrow> (\<forall>j. fds_upto VM j (VM_num_cores VM))"

lemma fd_get_live:
  "fds_upto VM j n \<Longrightarrow> 0 \<le> k \<Longrightarrow> k < n \<Longrightarrow> k < VM_num_cores VM \<Longrightarrow> \<exists>fd. fd_get j k VM = Inr fd"
  by (auto simp: fds_upto_def fd_get_def split: option.splits)

lemma fd_set_fds:
  assumes "fd_set j k fd VM = Inr VM'" "fds_upto VM i n"
  shows "perf_frame VM VM'" "VM_core_index VM' = VM_core_index VM" "fds_upto VM' i n"
    "i = j \<Longrightarrow> n = k \<Longrightarrow> fds_upto VM' i (n + 1)"
proof -
  from assms(1) obtain fds where fds: "VM_perf_event_fds VM j = Some fds" "0 \<le> k" "k < int (length fds)"
    "VM' = VM\<lparr>VM_perf_event_fds := (VM_perf_event_fds VM)(j \<mapsto> fds[nat k := Some fd])\<rparr>"
    by (auto simp: fd_set_def split: option.splits if_splits)
  then show "perf_frame VM VM'" "VM_core_index VM' = VM_core_index VM" by simp_all
  show "fds_upto VM' i n" using assms(2) fds by (auto simp: fds_upto_def nth_list_update)
  show "fds_upto VM' i (n + 1)" if "i = j" "n = k"
  proof -
    have "x < k \<or> nat x = nat k" if "x < k + 1" for x using that by auto
    with assms(2) fds that show ?thesis
      by (auto simp: fds_upto_def nth_list_update)
  qed
qed

lemma setup_event_fds:
  assumes "vm_perf_setup_event os c j (VM, l, w) = Inr (VM', l', w')" "fds_upto VM i n"
  shows "perf_frame VM VM'" "VM_core_index VM' = VM_core_index VM" "fds_upto VM' i n"
    "i = j \<Longrightarrow> n = VM_core_index VM \<Longrightarrow> fds_upto VM' i (n + 1)"
proof -
  from assms(1) obtain fd where "fd_set j (VM_core_index VM) fd VM = Inr VM'"
    by (auto simp: vm_perf_setup_event_def bindE_eq_Inr Let_def split: prod.splits)
  note fd_set_fds [OF this assms(2)]
  then show "perf_frame VM VM'" "VM_core_index VM' = VM_core_index VM" "fds_upto VM' i n"
    "i = j \<Longrightarrow> n = VM_core_index VM \<Longrightarrow> fds_upto VM' i (n + 1)" by blast+
qed

lemma setup_core_fds:
  assumes run: "vm_perf_counter_setup_core os c (VM, w) = Inr (VM', w')"
    and live: "\<And>j. fds_upto VM j (VM_core_index VM)"
  shows "perf_frame VM VM' \<and> VM_core_index VM' = VM_core_index VM + 1 \<and>
         (\<forall>j. fds_upto VM' j (VM_core_index VM'))"
proof -
  let ?n = "VM_core_index VM"
  from run obtain VM1 l1 w1 where
    loop: "foldE (vm_perf_setup_event os c) all_events (VM, -1, w) = Inr (VM1, l1, w1)"
    and fin: "VM' = VM1\<lparr>VM_core_index := VM_core_index VM1 + 1\<rparr>"
    by (auto simp: vm_perf_counter_setup_core_def bindE_eq_Inr c_add_def ck_eq_Inr)
  let ?P = "\<lambda>pre (VM1, l, w). perf_frame VM VM1 \<and> VM_core_index VM1 = ?n \<and>
      (\<forall>j. fds_upto VM1 j ?n \<and> (j \<in> set pre \<longrightarrow> fds_upto VM1 j (?n + 1)))"
  have "?P all_events (VM1, l1, w1)"
  proof (rule foldE_inv_pre [where P = ?P, OF loop])
    show "?P [] (VM, -1, w)" using live by simp
  next
    fix pre x rest and s s' :: "vm_instance \<times> int \<times> 'a"
    assume P: "?P pre s" and step: "vm_perf_setup_event os c x s = Inr s'"
    obtain V l u V' l' u' where s: "s = (V, l, u)" "s' = (V', l', u')" by (cases s; cases s') auto
    from P s have V: "perf_frame VM V" "VM_core_index V = ?n" "\<And>j. fds_upto V j ?n"
      "\<And>j. j \<in> set pre \<Longrightarrow> fds_upto V j (?n + 1)" by auto
    note ev = setup_event_fds [OF step [unfolded s]]
    have "fds_upto V' x (?n + 1)" using ev(4) [OF V(3)] V(2) by simp
    moreover have "perf_frame VM V'" "VM_core_index V' = ?n"
      using ev(1,2) [OF V(3)] V(1,2) by (auto intro: perf_frame_trans)
    ultimately show "?P (pre @ [x]) s'" using ev(3) V(3,4) s by auto
  qed
  then show ?thesis using fin by (auto simp: all_events fds_upto_def)
qed

lemma perf_setup_live:
  assumes run: "vm_perf_counter_setup os (VM, w) = Inr (VM', w')"
    and cores: "core_ids (VM_core_set VM) = Inr ids" "VM_num_cores VM = int (length ids)"
  shows "perf_frame VM VM' \<and> perf_live VM'"
proof -
  from run obtain VM1 w1 where
    alloc: "foldE (vm_perf_alloc_event os) all_events (VM, w) = Inr (VM1, w1)" and
    walk: "vm_mngr_for_each_core (VM_core_set VM1) (vm_perf_counter_setup_core os)
       (VM1\<lparr>VM_cur_metrics := (\<lambda>_. DFin 0), VM_ewma_metrics := (\<lambda>_. DFin 0),
            VM_ewma_initialized := False, VM_core_index := 0\<rparr>, w1) = Inr (VM', w')"
    by (auto simp: vm_perf_counter_setup_def bindE_eq_Inr Let_def)
  let ?A = "\<lambda>pre (V, w). perf_frame VM V \<and> (\<forall>j \<in> set pre. fds_upto V j 0)"
  have "?A all_events (VM1, w1)"
  proof (rule foldE_inv_pre [where P = ?A, OF alloc])
    fix pre x rest and s s' :: "vm_instance \<times> 'a"
    assume "?A pre s" "vm_perf_alloc_event os x s = Inr s'"
    then show "?A (pre @ [x]) s'"
      using cores(2) by (auto simp: vm_perf_alloc_event_def fds_upto_def perf_frame_def bindE_eq_Inr
          split: prod.splits)
  qed simp
  then have VM1: "perf_frame VM VM1" "\<And>j. fds_upto VM1 j 0" by (auto simp: all_events)
  define VM2 where "VM2 = VM1\<lparr>VM_cur_metrics := (\<lambda>_. DFin 0), VM_ewma_metrics := (\<lambda>_. DFin 0),
            VM_ewma_initialized := False, VM_core_index := 0\<rparr>"
  have "core_ids (VM_core_set VM1) = Inr ids" using VM1(1) cores(1) by (simp add: perf_frame_def)
  from walk [unfolded for_each_core_ids [OF this]]
  have walk': "foldE (vm_perf_counter_setup_core os) ids (VM2, w1) = Inr (VM', w')"
    by (simp add: VM2_def)
  let ?P = "\<lambda>(pre :: int list) (V, w). perf_frame VM V \<and> VM_core_index V = int (length pre) \<and>
              (\<forall>j. fds_upto V j (VM_core_index V))"
  have "?P ids (VM', w')"
  proof (rule foldE_inv_pre [where P = ?P, OF walk'])
    show "?P [] (VM2, w1)" using VM1 by (simp add: VM2_def fds_upto_def)
  next
    fix pre x rest and s s' :: "vm_instance \<times> 'a"
    assume P: "?P pre s" and step: "vm_perf_counter_setup_core os x s = Inr s'"
    obtain V u V' u' where s: "s = (V, u)" "s' = (V', u')" by (cases s; cases s') auto
    from P s have V: "perf_frame VM V" "VM_core_index V = int (length pre)"
      "\<And>j. fds_upto V j (VM_core_index V)" by auto
    from setup_core_fds [OF step [unfolded s] V(3)] V(1,2) s
    show "?P (pre @ [x]) s'" by (auto intro: perf_frame_trans)
  qed
  then show ?thesis using cores(2) by (auto simp: perf_live_def perf_frame_def)
qed

text \<open>
  What the setup does, said without its loops: one \<open>perf_event_open\<close> for every core and every event, core
  by core, each for its raw event in all modes on that core and in a group of its own.
\<close>

definition open_event :: "'w os \<Rightarrow> int \<Rightarrow> PerfEventType \<Rightarrow> 'w \<Rightarrow> int \<times> 'w" where
  "open_event os c j =
     os_perf_event_open os
       \<lparr>attr_type = 4, attr_config = [0xC0, 0x3C, 0x300, 0x1060, 0x10b0] ! enum_of j, attr_config1 = 0,
        attr_disabled = False, attr_read_format = 3, attr_pinned = (j \<noteq> OCR_L3_MISS_DEMAND_DATA_RD),
        attr_exclude_user = False, attr_exclude_kernel = False, attr_exclude_hv = False,
        attr_exclude_idle = False, attr_exclude_host = False, attr_exclude_guest = False\<rparr>
       (-1) c (-1) 0"

fun thread :: "('a \<Rightarrow> 'w \<Rightarrow> 'b \<times> 'w) \<Rightarrow> 'a list \<Rightarrow> 'w \<Rightarrow> 'b list \<times> 'w" where
  "thread f [] w = ([], w)"
| "thread f (x # xs) w = (let (y, w) = f x w; (ys, w) = thread f xs w in (y # ys, w))"

definition open_cores :: "'w os \<Rightarrow> int list \<Rightarrow> 'w \<Rightarrow> int list list \<times> 'w" where
  "open_cores os = thread (\<lambda>c. thread (open_event os c) all_events)"

lemma thread_snoc: "thread f (xs @ [x]) w =
    (fst (thread f xs w) @ [fst (f x (snd (thread f xs w)))], snd (f x (snd (thread f xs w))))"
  by (induction xs arbitrary: w) (simp_all add: case_prod_beta)

lemma thread_length [simp]: "length (fst (thread f xs w)) = length xs"
  by (induction xs arbitrary: w) (simp_all add: case_prod_beta)

definition same_counts :: "vm_instance \<Rightarrow> vm_instance \<Rightarrow> bool" where
  "same_counts VM VM' \<longleftrightarrow> VM_cum_counts VM' = VM_cum_counts VM \<and> VM_delta_counts VM' = VM_delta_counts VM"

lemma fd_set_get:
  "fd_set j k fd VM = Inr VM' \<Longrightarrow> fd_get i n VM' = (if i = j \<and> n = k then Inr fd else fd_get i n VM)"
  by (auto simp: fd_set_def fd_get_def nth_list_update split: option.splits if_splits)

lemma fd_set_same: "fd_set j k fd VM = Inr VM' \<Longrightarrow> same_counts VM VM' \<and> VM_core_index VM' = VM_core_index VM"
  by (auto simp: fd_set_def same_counts_def split: option.splits if_splits)

lemma all_events_split: "all_events = pre @ j # rest \<Longrightarrow> j \<notin> set pre"
proof -
  assume "all_events = pre @ j # rest"
  with all_events(2) have "distinct (pre @ j # rest)" by simp
  then show ?thesis by simp
qed

lemma setup_event_opened:
  assumes "vm_perf_setup_event os c j (VM, l, w) = Inr (VM', l', w')"
  shows "fd_set j (VM_core_index VM) (fst (open_event os c j w)) VM = Inr VM' \<and>
    0 \<le> fst (open_event os c j w) \<and> w' = snd (open_event os c j w)"
proof -
  have lead: "perf_event_is_leader_arr ! enum_of j" "perf_event_config1_arr ! enum_of j = 0"
    "perf_event_pin_arr ! enum_of j = (j \<noteq> OCR_L3_MISS_DEMAND_DATA_RD)"
    by (cases j; simp add: perf_tables)+
  have ev: "perf_event_setup os c (perf_event_config_arr ! enum_of j) 0
      (j \<noteq> OCR_L3_MISS_DEMAND_DATA_RD) False False False False False False (-1) w = open_event os c j w"
    by (simp add: open_event_def perf_event_setup_def perf_event_open_def PERF_TYPE_RAW_def PERF_READ_FORMAT_def
        perf_event_config_arr_def)
  obtain fd u where o: "open_event os c j w = (fd, u)" by fastforce
  from assms lead ev show ?thesis
    unfolding o by (auto simp: vm_perf_setup_event_def bindE_eq_Inr BUG_ON_eq_Inr)
qed

lemma setup_core_opened:
  assumes run: "vm_perf_counter_setup_core os c (VM, w) = Inr (VM', w')"
  shows "w' = snd (thread (open_event os c) all_events w) \<and>
    fd_get j (VM_core_index VM) VM' = Inr (fst (thread (open_event os c) all_events w) ! enum_of j) \<and>
    0 \<le> fst (thread (open_event os c) all_events w) ! enum_of j \<and>
    (k \<noteq> VM_core_index VM \<longrightarrow> fd_get j k VM' = fd_get j k VM) \<and> same_counts VM VM' \<and>
    VM_core_index VM' = VM_core_index VM + 1"
proof -
  let ?n = "VM_core_index VM"
  from run obtain VM1 l1 w1 where
    loop: "foldE (vm_perf_setup_event os c) all_events (VM, -1, w) = Inr (VM1, l1, w1)"
    and fin: "VM' = VM1\<lparr>VM_core_index := VM_core_index VM1 + 1\<rparr>" "w' = w1"
    by (auto simp: vm_perf_counter_setup_core_def bindE_eq_Inr c_add_def ck_eq_Inr)
  let ?T = "\<lambda>pre. thread (open_event os c) pre w"
  let ?P = "\<lambda>pre (V, l, u). u = snd (?T pre) \<and> VM_core_index V = ?n \<and> same_counts VM V \<and>
      (\<forall>j k. k \<noteq> ?n \<longrightarrow> fd_get j k V = fd_get j k VM) \<and>
      (\<forall>i < length pre. fd_get (pre ! i) ?n V = Inr (fst (?T pre) ! i) \<and> 0 \<le> fst (?T pre) ! i)"
  have "?P all_events (VM1, l1, w1)"
  proof (rule foldE_inv_pre [where P = ?P, OF loop])
    show "?P [] (VM, -1, w)" by (simp add: same_counts_def)
  next
    fix pre x rest and s s' :: "vm_instance \<times> int \<times> 'a"
    assume split: "all_events = pre @ x # rest" and P: "?P pre s" and step: "vm_perf_setup_event os c x s = Inr s'"
    obtain V l u V' l' u' where s: "s = (V, l, u)" "s' = (V', l', u')" by (cases s; cases s') auto
    from setup_event_opened [OF step [unfolded s]] P s have
      set: "fd_set x ?n (fst (open_event os c x u)) V = Inr V'" and op: "0 \<le> fst (open_event os c x u)"
      "u' = snd (open_event os c x u)" "u = snd (?T pre)" by auto
    have "pre ! i \<noteq> x" if "i < length pre" for i using all_events_split [OF split] that by (metis nth_mem)
    with P s op fd_set_get [OF set] fd_set_same [OF set] show "?P (pre @ [x]) s'"
      by (auto simp: same_counts_def thread_snoc nth_append less_Suc_eq)
  qed
  moreover have "all_events ! enum_of j = j" "enum_of j < length all_events"
    by (cases j; simp add: all_events_def)+
  ultimately show ?thesis
    by (auto simp: fin fd_get_def same_counts_def dest!: spec [where x = "enum_of j"])
qed

lemma alloc_events_effect:
  assumes "foldE (vm_perf_alloc_event os) all_events (VM, w) = Inr (VM', w')"
  shows "VM_core_set VM' = VM_core_set VM" "VM_cum_counts VM' = (\<lambda>_. 0)" "VM_delta_counts VM' = (\<lambda>_. 0)"
    "w' = fold (\<lambda>_ u. snd (os_malloc os (nat (VM_num_cores VM) * 4) u)) all_events w"
proof -
  let ?A = "\<lambda>pre (V, u). VM_core_set V = VM_core_set VM \<and> VM_num_cores V = VM_num_cores VM \<and>
      (\<forall>j \<in> set pre. VM_cum_counts V j = 0 \<and> VM_delta_counts V j = 0) \<and>
      u = fold (\<lambda>_ u. snd (os_malloc os (nat (VM_num_cores VM) * 4) u)) pre w"
  have A: "?A all_events (VM', w')"
  proof (rule foldE_inv_pre [where P = ?A, OF assms])
    fix pre x rest and s s' :: "vm_instance \<times> 'a"
    assume "?A pre s" "vm_perf_alloc_event os x s = Inr s'"
    then show "?A (pre @ [x]) s'"
      by (auto simp: vm_perf_alloc_event_def bindE_eq_Inr Let_def split: prod.splits)
  qed simp
  then show "VM_core_set VM' = VM_core_set VM"
    "w' = fold (\<lambda>_ u. snd (os_malloc os (nat (VM_num_cores VM) * 4) u)) all_events w" by simp_all
  from A show "VM_cum_counts VM' = (\<lambda>_. 0)" "VM_delta_counts VM' = (\<lambda>_. 0)" by (auto simp: all_events)
qed

lemma perf_setup_opened:
  assumes run: "vm_perf_counter_setup os (VM, w) = Inr (VM', w')" and cores: "core_ids (VM_core_set VM) = Inr ids"
  defines "T \<equiv> open_cores os ids (fold (\<lambda>_ u. snd (os_malloc os (nat (VM_num_cores VM) * 4) u)) all_events w)"
  shows "w' = snd T \<and> (\<forall>k j. k < length ids \<longrightarrow> fd_get j (int k) VM' = Inr (fst T ! k ! enum_of j) \<and> 0 \<le> fst T ! k ! enum_of j) \<and>
    VM_cum_counts VM' = (\<lambda>_. 0) \<and> VM_delta_counts VM' = (\<lambda>_. 0)"
proof -
  from run obtain VM1 w1 where
    alloc: "foldE (vm_perf_alloc_event os) all_events (VM, w) = Inr (VM1, w1)" and
    walk: "vm_mngr_for_each_core (VM_core_set VM1) (vm_perf_counter_setup_core os)
       (VM1\<lparr>VM_cur_metrics := (\<lambda>_. DFin 0), VM_ewma_metrics := (\<lambda>_. DFin 0),
            VM_ewma_initialized := False, VM_core_index := 0\<rparr>, w1) = Inr (VM', w')"
    by (auto simp: vm_perf_counter_setup_def bindE_eq_Inr Let_def)
  note VM1 = alloc_events_effect [OF alloc]
  define VM2 where "VM2 = VM1\<lparr>VM_cur_metrics := (\<lambda>_. DFin 0), VM_ewma_metrics := (\<lambda>_. DFin 0),
            VM_ewma_initialized := False, VM_core_index := 0\<rparr>"
  from walk [unfolded VM1(1) for_each_core_ids [OF cores]]
  have walk': "foldE (vm_perf_counter_setup_core os) ids (VM2, w1) = Inr (VM', w')" by (simp add: VM2_def)
  let ?T = "\<lambda>pre. thread (\<lambda>c. thread (open_event os c) all_events) pre w1"
  let ?P = "\<lambda>(pre :: int list) (V, u). u = snd (?T pre) \<and> VM_core_index V = int (length pre) \<and> same_counts VM2 V \<and>
      (\<forall>k j. k < length pre \<longrightarrow> fd_get j (int k) V = Inr (fst (?T pre) ! k ! enum_of j) \<and> 0 \<le> fst (?T pre) ! k ! enum_of j)"
  have "?P ids (VM', w')"
  proof (rule foldE_inv_pre [where P = ?P, OF walk'])
    show "?P [] (VM2, w1)" by (simp add: VM2_def same_counts_def)
  next
    fix pre x rest and s s' :: "vm_instance \<times> 'a"
    assume P: "?P pre s" and step: "vm_perf_counter_setup_core os x s = Inr s'"
    obtain V u V' u' where s: "s = (V, u)" "s' = (V', u')" by (cases s; cases s') auto
    note opened = setup_core_opened [OF step [unfolded s]]
    have "fd_get j (int k) V' = Inr (fst (?T (pre @ [x])) ! k ! enum_of j) \<and> 0 \<le> fst (?T (pre @ [x])) ! k ! enum_of j"
      if "k < length (pre @ [x])" for j k
      using P s opened [of j "int k"] that by (cases "k = length pre") (auto simp: nth_append thread_snoc)
    with P s opened show "?P (pre @ [x]) s'" by (auto simp: same_counts_def thread_snoc)
  qed
  with VM1 show ?thesis by (simp add: T_def open_cores_def same_counts_def VM2_def)
qed

text \<open>With a kernel that grants memory and events, setting up valid cores does not fault.\<close>

definition perf_opens_ok :: "'w os \<Rightarrow> bool" where
  "perf_opens_ok os \<longleftrightarrow>
     (\<forall>n w. fst (os_malloc os n w)) \<and> (\<forall>a pid c g flags w. 0 \<le> fst (os_perf_event_open os a pid c g flags w))"

lemma fd_set_ok:
  "fds_upto VM j n \<Longrightarrow> 0 \<le> k \<Longrightarrow> k < VM_num_cores VM \<Longrightarrow> \<exists>VM'. fd_set j k fd VM = Inr VM'"
  by (auto simp: fds_upto_def fd_set_def)

lemma setup_event_ok:
  assumes os: "perf_opens_ok os" and live: "fds_upto VM j n"
    and idx: "0 \<le> VM_core_index VM" "VM_core_index VM < VM_num_cores VM"
  shows "\<exists>VM' l' w'. vm_perf_setup_event os c j (VM, l, w) = Inr (VM', l', w')"
proof -
  let ?l = "if perf_event_is_leader_arr ! enum_of j then -1 else l"
  obtain fd w1 where ev: "perf_event_setup os c (perf_event_config_arr ! enum_of j)
      (perf_event_config1_arr ! enum_of j) (perf_event_pin_arr ! enum_of j)
      False False False False False False ?l w = (fd, w1)" by (metis surj_pair)
  then have "0 \<le> fd" using os by (metis perf_event_setup_def perf_event_open_def perf_opens_ok_def fst_conv)
  moreover obtain VM' where "fd_set j (VM_core_index VM) fd VM = Inr VM'"
    using fd_set_ok [OF live idx] by blast
  ultimately show ?thesis using ev by (simp add: vm_perf_setup_event_def Let_def)
qed

lemma setup_core_ok:
  assumes os: "perf_opens_ok os" and c: "0 \<le> c" and live: "\<And>j. fds_upto VM j (VM_core_index VM)"
    and idx: "0 \<le> VM_core_index VM" "VM_core_index VM < VM_num_cores VM" "VM_num_cores VM \<le> INT_MAX"
  shows "\<exists>VM' w'. vm_perf_counter_setup_core os c (VM, w) = Inr (VM', w')"
proof -
  let ?n = "VM_core_index VM"
  let ?P = "\<lambda>(pre :: PerfEventType list) (V, l, w).
      perf_frame VM V \<and> VM_core_index V = ?n \<and> (\<forall>j. fds_upto V j ?n)"
  have "\<exists>s'. foldE (vm_perf_setup_event os c) all_events (VM, -1, w) = Inr s' \<and> ?P all_events s'"
  proof (rule foldE_total [where P = ?P])
    show "?P [] (VM, -1, w)" using live by simp
  next
    fix pre x rest and s :: "vm_instance \<times> int \<times> 'a"
    assume P: "?P pre s"
    obtain V l u where s: "s = (V, l, u)" by (cases s) auto
    from P s have V: "perf_frame VM V" "VM_core_index V = ?n" "\<And>j. fds_upto V j ?n" by auto
    then have "0 \<le> VM_core_index V" "VM_core_index V < VM_num_cores V"
      using idx by (simp_all add: perf_frame_def)
    from setup_event_ok [OF os V(3) [of x] this] obtain V' l' u' where
      step: "vm_perf_setup_event os c x (V, l, u) = Inr (V', l', u')" by blast
    note ev = setup_event_fds [OF step]
    have "perf_frame VM V'" "VM_core_index V' = ?n"
      using ev(1,2) [OF V(3)] V(1,2) by (auto intro: perf_frame_trans)
    with step s ev(3) V(3) show "\<exists>s'. vm_perf_setup_event os c x s = Inr s' \<and> ?P (pre @ [x]) s'" by auto
  qed
  then obtain V l w1 where "foldE (vm_perf_setup_event os c) all_events (VM, -1, w) = Inr (V, l, w1)"
    "VM_core_index V = ?n" by auto
  moreover have "in_int (?n + 1)" using idx by (intro in_int_nonneg) auto
  ultimately show ?thesis using c by (simp add: vm_perf_counter_setup_core_def c_add_def)
qed

lemma perf_setup_ok:
  assumes os: "perf_opens_ok os" and cores: "core_ids (VM_core_set VM) = Inr ids"
    "VM_num_cores VM = int (length ids)" "VM_num_cores VM \<le> INT_MAX"
    and ids: "ids \<noteq> []" "\<And>c. c \<in> set ids \<Longrightarrow> 0 \<le> c"
  shows "\<exists>VM' w'. vm_perf_counter_setup os (VM, w) = Inr (VM', w')"
proof -
  let ?A = "\<lambda>pre (V, w). perf_frame VM V \<and> (\<forall>j \<in> set pre. fds_upto V j 0)"
  have "\<exists>s'. foldE (vm_perf_alloc_event os) all_events (VM, w) = Inr s' \<and> ?A all_events s'"
  proof (rule foldE_total [where P = ?A])
    fix pre x rest and s :: "vm_instance \<times> 'a"
    assume "?A pre s"
    moreover obtain V u where "s = (V, u)" by (cases s)
    moreover have "fst (os_malloc os n w)" for n w using os by (simp add: perf_opens_ok_def)
    ultimately show "\<exists>s'. vm_perf_alloc_event os x s = Inr s' \<and> ?A (pre @ [x]) s'"
      using cores(2) by (auto simp: vm_perf_alloc_event_def fds_upto_def perf_frame_def case_prod_beta)
  qed simp
  then obtain VM1 w1 where alloc: "foldE (vm_perf_alloc_event os) all_events (VM, w) = Inr (VM1, w1)"
    and VM1: "perf_frame VM VM1" "\<And>j. fds_upto VM1 j 0" by (auto simp: all_events)
  define VM2 where "VM2 = VM1\<lparr>VM_cur_metrics := (\<lambda>_. DFin 0), VM_ewma_metrics := (\<lambda>_. DFin 0),
            VM_ewma_initialized := False, VM_core_index := 0\<rparr>"
  let ?P = "\<lambda>(pre :: int list) (V, w). perf_frame VM V \<and> VM_core_index V = int (length pre) \<and>
              (\<forall>j. fds_upto V j (VM_core_index V))"
  have "\<exists>s'. foldE (vm_perf_counter_setup_core os) ids (VM2, w1) = Inr s' \<and> ?P ids s'"
  proof (rule foldE_total [where P = ?P])
    show "?P [] (VM2, w1)" using VM1 by (simp add: VM2_def fds_upto_def)
  next
    fix pre c rest and s :: "vm_instance \<times> 'a"
    assume split: "ids = pre @ c # rest" and P: "?P pre s"
    obtain V u where s: "s = (V, u)" by (cases s)
    from P s have V: "perf_frame VM V" "VM_core_index V = int (length pre)"
      "\<And>j. fds_upto V j (VM_core_index V)" by auto
    have num: "VM_num_cores V = VM_num_cores VM" using V(1) by (simp add: perf_frame_def)
    have idx: "0 \<le> VM_core_index V" "VM_core_index V < VM_num_cores V" "VM_num_cores V \<le> INT_MAX"
      using split cores(2,3) V(2) num by auto
    have "0 \<le> c" using ids(2) split by auto
    from setup_core_ok [OF os this V(3) idx] obtain V' u' where
      step: "vm_perf_counter_setup_core os c (V, u) = Inr (V', u')" by blast
    from setup_core_fds [OF step V(3)] V(1,2) s step
    show "\<exists>s'. vm_perf_counter_setup_core os c s = Inr s' \<and> ?P (pre @ [c]) s'"
      by (auto intro: perf_frame_trans)
  qed
  moreover have "core_ids (VM_core_set VM1) = Inr ids" using VM1(1) cores(1) by (simp add: perf_frame_def)
  moreover have "\<not> VM_num_cores VM \<le> 0" using cores(2) ids(1) by simp
  ultimately show ?thesis
    using alloc by (auto simp: vm_perf_counter_setup_def for_each_core_ids VM2_def [symmetric] Let_def)
qed

section \<open>Teardown and update\<close>

text \<open>What is asked of the kernel: a read fills the buffer with a scalable value, a close
  succeeds.\<close>

definition perf_reads_ok :: "'w os \<Rightarrow> bool" where
  "perf_reads_ok os \<longleftrightarrow>
     (\<forall>fd w. fst (fst (os_read_counter os fd w)) = sizeof_perf_read_format \<and>
             (\<exists>v. perf_scale (snd (fst (os_read_counter os fd w))) = Inr v))"

definition perf_closes_ok :: "'w os \<Rightarrow> bool" where
  "perf_closes_ok os \<longleftrightarrow> (\<forall>fd w. fst (os_close os fd w) = 0)"

lemma perf_event_read_ok: "perf_reads_ok os \<Longrightarrow> \<exists>v w'. perf_event_read os fd w = Inr (v, w')"
proof -
  assume "perf_reads_ok os"
  moreover obtain ret d w' where rd: "os_read_counter os fd w = ((ret, d), w')" by (metis surj_pair)
  ultimately have "ret = sizeof_perf_read_format" "\<exists>v. perf_scale d = Inr v"
    unfolding perf_reads_ok_def by (metis fst_conv snd_conv)+
  with rd show ?thesis by (auto simp: perf_event_read_def)
qed

lemma perf_event_teardown_ok: "perf_closes_ok os \<Longrightarrow> \<exists>w'. perf_event_teardown os fd w = Inr w'"
  by (auto simp: perf_closes_ok_def perf_event_teardown_def case_prod_beta)

lemma record_count_exact:
  "uint (VM_cum_counts (record_count j n VM) j) =
     uint (VM_cum_counts VM j) + uint (VM_delta_counts (record_count j n VM) j)"
  by (simp add: record_count_def Let_def not_less word_le_def uint_sub_if')

lemma record_count_other:
  "i \<noteq> j \<Longrightarrow> VM_cum_counts (record_count j n VM) i = VM_cum_counts VM i"
  "i \<noteq> j \<Longrightarrow> VM_delta_counts (record_count j n VM) i = VM_delta_counts VM i"
  by (simp_all add: record_count_def Let_def)

lemma read_cores_ok:
  assumes "fds_upto VM j (VM_num_cores VM)" "perf_reads_ok os"
  shows "\<exists>n w'. foldE (vm_perf_read_core os VM j) [0..VM_num_cores VM - 1] (0, w) = Inr (n, w')"
proof -
  have "\<exists>s'. foldE (vm_perf_read_core os VM j) [0..VM_num_cores VM - 1] (0, w) = Inr s' \<and> True"
  proof (rule foldE_total [where P = "\<lambda>_ _. True"])
    fix pre k rest and s :: "64 word \<times> 'a"
    assume "[0..VM_num_cores VM - 1] = pre @ k # rest"
    then have "0 \<le> k" "k < VM_num_cores VM" using upto_split by blast+
    with fd_get_live [OF assms(1)] obtain fd where "fd_get j k VM = Inr fd" by blast
    moreover obtain n u where "s = (n, u)" by (cases s)
    moreover obtain v w' where "perf_event_read os fd u = Inr (v, w')"
      using perf_event_read_ok [OF assms(2)] by blast
    ultimately show "\<exists>s'. vm_perf_read_core os VM j k s = Inr s' \<and> True"
      by (simp add: vm_perf_read_core_def)
  qed simp
  then show ?thesis by auto
qed

lemma close_cores_ok:
  assumes "fds_upto VM j (VM_num_cores VM)" "perf_reads_ok os" "perf_closes_ok os"
  shows "\<exists>n w'. foldE (vm_perf_close_core os VM j) [0..VM_num_cores VM - 1] (0, w) = Inr (n, w')"
proof -
  have "\<exists>s'. foldE (vm_perf_close_core os VM j) [0..VM_num_cores VM - 1] (0, w) = Inr s' \<and> True"
  proof (rule foldE_total [where P = "\<lambda>_ _. True"])
    fix pre k rest and s :: "64 word \<times> 'a"
    assume "[0..VM_num_cores VM - 1] = pre @ k # rest"
    then have "0 \<le> k" "k < VM_num_cores VM" using upto_split by blast+
    with fd_get_live [OF assms(1)] obtain fd where "fd_get j k VM = Inr fd" by blast
    moreover obtain n u where "s = (n, u)" by (cases s)
    moreover obtain v w' where "perf_event_read os fd u = Inr (v, w')"
      using perf_event_read_ok [OF assms(2)] by blast
    moreover obtain w'' where "perf_event_teardown os fd w' = Inr w''"
      using perf_event_teardown_ok [OF assms(3)] by blast
    ultimately show "\<exists>s'. vm_perf_close_core os VM j k s = Inr s' \<and> True"
      by (simp add: vm_perf_close_core_def)
  qed simp
  then show ?thesis by auto
qed

lemma perf_teardown_frame:
  assumes "vm_perf_counter_teardown os (VM, w) = Inr (VM', w')"
  shows "perf_frame VM VM'"
proof -
  have "(\<lambda>(V, w). perf_frame VM V) (VM', w')"
    using assms unfolding vm_perf_counter_teardown_def
  proof (rule foldE_inv)
    fix x and s s' :: "vm_instance \<times> 'a"
    assume "case s of (V, w) \<Rightarrow> perf_frame VM V" "vm_perf_teardown_event os x s = Inr s'"
    then show "case s' of (V, w) \<Rightarrow> perf_frame VM V"
      by (auto simp: vm_perf_teardown_event_def bindE_eq_Inr Let_def split: option.splits prod.splits)
  qed simp
  then show ?thesis by simp
qed

lemma fds_upto_cong:
  "VM_perf_event_fds V j = VM_perf_event_fds VM j \<Longrightarrow> VM_num_cores V = VM_num_cores VM \<Longrightarrow>
     fds_upto V j n = fds_upto VM j n"
  by (simp add: fds_upto_def)

lemma perf_teardown_ok:
  assumes "perf_live VM" "perf_reads_ok os" "perf_closes_ok os"
  shows "\<exists>VM' w'. vm_perf_counter_teardown os (VM, w) = Inr (VM', w')"
proof -
  let ?P = "\<lambda>pre (V, w). VM_num_cores V = VM_num_cores VM \<and>
      (\<forall>j. j \<notin> set pre \<longrightarrow> VM_perf_event_fds V j = VM_perf_event_fds VM j)"
  have "\<exists>s'. foldE (vm_perf_teardown_event os) all_events (VM, w) = Inr s' \<and> ?P all_events s'"
  proof (rule foldE_total [where P = ?P])
    fix pre j rest and s :: "vm_instance \<times> 'a"
    assume split: "all_events = pre @ j # rest" and P: "?P pre s"
    obtain V u where s: "s = (V, u)" by (cases s)
    have "j \<notin> set pre" by (rule all_events_split [OF split])
    with P s have V: "VM_num_cores V = VM_num_cores VM" "VM_perf_event_fds V j = VM_perf_event_fds VM j"
      by auto
    then have live: "fds_upto V j (VM_num_cores V)"
      using assms(1) by (simp add: perf_live_def fds_upto_cong [of V j VM])
    from close_cores_ok [OF this assms(2,3)] obtain n u' where
      "foldE (vm_perf_close_core os V j) [0..VM_num_cores V - 1] (0, u) = Inr (n, u')" by blast
    moreover obtain fds where "VM_perf_event_fds V j = Some fds" using live by (auto simp: fds_upto_def)
    ultimately show "\<exists>s'. vm_perf_teardown_event os j s = Inr s' \<and> ?P (pre @ [j]) s'"
      using P s record_count_frame(1) [of V j n V]
      by (auto simp: vm_perf_teardown_event_def Let_def perf_frame_def)
  qed simp
  then show ?thesis by (auto simp: vm_perf_counter_teardown_def)
qed

text \<open>
  An update: no descriptor changes, and every cumulative count grows by exactly its delta, with
  no wrap-around.
\<close>

definition counts_grow :: "vm_instance \<Rightarrow> vm_instance \<Rightarrow> bool" where
  "counts_grow VM VM' \<longleftrightarrow>
     (\<forall>j. uint (VM_cum_counts VM' j) = uint (VM_cum_counts VM j) + uint (VM_delta_counts VM' j))"

lemma perf_update_counts:
  assumes "vm_perf_update os (VM, w) = Inr (VM', w')"
  shows "perf_frame VM VM' \<and> VM_perf_event_fds VM' = VM_perf_event_fds VM \<and> counts_grow VM VM'"
proof -
  let ?P = "\<lambda>pre (V, w). perf_frame VM V \<and> VM_perf_event_fds V = VM_perf_event_fds VM \<and>
      (\<forall>j. if j \<in> set pre
           then uint (VM_cum_counts V j) = uint (VM_cum_counts VM j) + uint (VM_delta_counts V j)
           else VM_cum_counts V j = VM_cum_counts VM j)"
  have "?P all_events (VM', w')"
  proof (rule foldE_inv_pre [where P = ?P, OF assms [unfolded vm_perf_update_def]])
    fix pre j rest and s s' :: "vm_instance \<times> 'a"
    assume split: "all_events = pre @ j # rest" and P: "?P pre s"
      and step: "vm_perf_update_event os j s = Inr s'"
    obtain V u V' u' where s: "s = (V, u)" "s' = (V', u')" by (cases s; cases s') auto
    with step obtain n where V': "V' = record_count j n V"
      by (auto simp: vm_perf_update_event_def bindE_eq_Inr split: prod.splits)
    have "j \<notin> set pre" by (rule all_events_split [OF split])
    with P s have cum: "VM_cum_counts V j = VM_cum_counts VM j" by auto
    have "if i \<in> set (pre @ [j])
          then uint (VM_cum_counts V' i) = uint (VM_cum_counts VM i) + uint (VM_delta_counts V' i)
          else VM_cum_counts V' i = VM_cum_counts VM i" for i
      using P s record_count_exact [of j n V] cum record_count_other [of i j n V]
      by (cases "i = j") (auto simp: V')
    with P s V' show "?P (pre @ [j]) s'" by auto
  qed simp
  then show ?thesis by (auto simp: counts_grow_def all_events)
qed

text \<open>The teardown frees the arrays, counts once more, and touches nothing else.\<close>

lemma perf_teardown_effect:
  assumes "vm_perf_counter_teardown os (VM, w) = Inr (VM', w')"
  shows "VM' = VM\<lparr>VM_perf_event_fds := (\<lambda>_. None), VM_cum_counts := VM_cum_counts VM',
                 VM_delta_counts := VM_delta_counts VM'\<rparr>" and "counts_grow VM VM'"
proof -
  let ?P = "\<lambda>pre (V, w). V = VM\<lparr>VM_perf_event_fds := VM_perf_event_fds V, VM_cum_counts := VM_cum_counts V,
        VM_delta_counts := VM_delta_counts V\<rparr> \<and>
      (\<forall>j. if j \<in> set pre
           then VM_perf_event_fds V j = None \<and>
                uint (VM_cum_counts V j) = uint (VM_cum_counts VM j) + uint (VM_delta_counts V j)
           else VM_cum_counts V j = VM_cum_counts VM j)"
  have "?P all_events (VM', w')"
  proof (rule foldE_inv_pre [where P = ?P, OF assms [unfolded vm_perf_counter_teardown_def]])
    fix pre j rest and s s' :: "vm_instance \<times> 'a"
    assume split: "all_events = pre @ j # rest" and P: "?P pre s"
      and step: "vm_perf_teardown_event os j s = Inr s'"
    obtain V u V' u' where s: "s = (V, u)" "s' = (V', u')" by (cases s; cases s') auto
    with step obtain n where V': "V' = (record_count j n V)\<lparr>VM_perf_event_fds := (VM_perf_event_fds V)(j := None)\<rparr>"
      by (auto simp: vm_perf_teardown_event_def bindE_eq_Inr Let_def split: prod.splits option.splits)
    have "j \<notin> set pre" by (rule all_events_split [OF split])
    with P s have cum: "VM_cum_counts V j = VM_cum_counts VM j" by auto
    have "if i \<in> set (pre @ [j])
          then VM_perf_event_fds V' i = None \<and>
               uint (VM_cum_counts V' i) = uint (VM_cum_counts VM i) + uint (VM_delta_counts V' i)
          else VM_cum_counts V' i = VM_cum_counts VM i" for i
      using P s record_count_exact [of j n V] cum record_count_other [of i j n V]
      by (cases "i = j") (auto simp: V')
    moreover have "V' = VM\<lparr>VM_perf_event_fds := VM_perf_event_fds V', VM_cum_counts := VM_cum_counts V',
        VM_delta_counts := VM_delta_counts V'\<rparr>"
      using P unfolding V' s by (cases VM; cases V) (simp add: record_count_def Let_def)
    ultimately show "?P (pre @ [j]) s'" using s(2) by auto
  qed simp
  then have V: "VM' = VM\<lparr>VM_perf_event_fds := VM_perf_event_fds VM', VM_cum_counts := VM_cum_counts VM',
        VM_delta_counts := VM_delta_counts VM'\<rparr>"
    and j: "VM_perf_event_fds VM' j = None"
      "uint (VM_cum_counts VM' j) = uint (VM_cum_counts VM j) + uint (VM_delta_counts VM' j)" for j
    by (auto simp: all_events)
  from j(1) have "VM_perf_event_fds VM' = (\<lambda>_. None)" by (rule ext)
  with V show "VM' = VM\<lparr>VM_perf_event_fds := (\<lambda>_. None), VM_cum_counts := VM_cum_counts VM',
                 VM_delta_counts := VM_delta_counts VM'\<rparr>" by simp
  show "counts_grow VM VM'" using j(2) by (simp add: counts_grow_def)
qed

lemma perf_update_ok:
  assumes "perf_live VM" "perf_reads_ok os"
  shows "\<exists>VM' w'. vm_perf_update os (VM, w) = Inr (VM', w')"
proof -
  let ?P = "\<lambda>pre (V, w). VM_num_cores V = VM_num_cores VM \<and> VM_perf_event_fds V = VM_perf_event_fds VM"
  have "\<exists>s'. foldE (vm_perf_update_event os) all_events (VM, w) = Inr s' \<and> ?P all_events s'"
  proof (rule foldE_total [where P = ?P])
    fix pre j rest and s :: "vm_instance \<times> 'a"
    assume P: "?P pre s"
    obtain V u where s: "s = (V, u)" by (cases s)
    have "fds_upto V j (VM_num_cores V)"
      using assms(1) P s by (simp add: perf_live_def fds_upto_cong [of V j VM])
    from read_cores_ok [OF this assms(2)] obtain n u' where
      "foldE (vm_perf_read_core os V j) [0..VM_num_cores V - 1] (0, u) = Inr (n, u')" by blast
    then show "\<exists>s'. vm_perf_update_event os j s = Inr s' \<and> ?P (pre @ [j]) s'"
      using P s record_count_frame(1) [of V j n V]
      by (auto simp: vm_perf_update_event_def perf_frame_def)
  qed simp
  then show ?thesis by (auto simp: vm_perf_update_def)
qed

section \<open>Metrics\<close>

text \<open>After an update a metric is a number in \<open>[0, 350]\<close> or NaN.\<close>

definition metric_sane :: "cdouble \<Rightarrow> bool" where
  "metric_sane x \<longleftrightarrow> x = DNaN \<or> (\<exists>q. x = DFin q \<and> 0 \<le> q \<and> q \<le> 350)"

lemma clamp_sane: "metric_sane (MIN_d (DFin 350) (MAX_d (DFin 0) x))"
  by (cases x) (auto simp: metric_sane_def MIN_d_def MAX_d_def)

lemma cur_metrics_sane: "metric_sane (VM_cur_metrics (vm_update_metrics VM) j)"
  by (cases j) (simp add: vm_update_metrics_def Let_def metric_max_arr_def clamp_sane)

lemma d_of_u64_0 [simp]: "d_of_u64 0 = DFin 0"
  by (simp add: d_of_u64_def dround_def)

text \<open>Two zero deltas make the metric NaN, and once the average is NaN it stays NaN.\<close>

lemma metrics_no_misses:
  assumes "VM_delta_counts VM OCR_OUTSTANDING_L3_MISS_DEMAND_DATA_RD = 0"
    "VM_delta_counts VM OCR_L3_MISS_DEMAND_DATA_RD = 0"
  shows "VM_cur_metrics (vm_update_metrics VM) j = DNaN"
proof -
  have "l3_miss_latency (VM_delta_counts VM) = DNaN"
    using assms by (simp add: l3_miss_latency_def)
  then show ?thesis by (cases j) (simp add: vm_update_metrics_def Let_def)
qed

lemma ewma_nan:
  assumes "VM_ewma_initialized VM" "VM_ewma_metrics VM j = DNaN \<or> VM_cur_metrics (vm_update_metrics VM) j = DNaN"
  shows "VM_ewma_metrics (vm_update_metrics VM) j = DNaN"
  using assms by (auto simp: vm_update_metrics_def Let_def)

lemma metrics_frame [simp]:
  "perf_frame VM (vm_update_metrics VM') = perf_frame VM VM'"
  "VM_perf_event_fds (vm_update_metrics VM) = VM_perf_event_fds VM"
  by (simp_all add: vm_update_metrics_def Let_def)

end
