(* ===== verification/Json.thy ===== *)
theory Json
  imports Prelude
begin

text \<open>
  The JSON library json-c as the sources call it.  It is not part of the repository: a value is
  of the unknown type \<open>'j\<close>, and the functions the sources call are the parameter \<open>json_lib\<close>.
  \<open>json_object_new_object\<close> may fail; \<open>json_object_object_add\<close> is given the object and answers
  the object it became.  \<open>None\<close> is the null pointer, also where the sources pass one on.
  Reference counts are left out.
\<close>

record 'j json_lib =
  json_object_new_object :: "'j option"
  json_object_new_string :: "string \<Rightarrow> 'j"
  json_object_new_int :: "int \<Rightarrow> 'j"
  json_object_new_int64 :: "int \<Rightarrow> 'j"
  json_object_new_boolean :: "bool \<Rightarrow> 'j"
  json_object_object_add :: "'j \<Rightarrow> string \<Rightarrow> 'j \<Rightarrow> 'j"
  json_object_object_get_ex :: "'j \<Rightarrow> string \<Rightarrow> 'j option"
  json_object_is_object :: "'j \<Rightarrow> bool"
  json_object_object_length :: "'j \<Rightarrow> int"
  json_object_to_json_string :: "'j \<Rightarrow> string"
  json_tokener_parse :: "string \<Rightarrow> 'j option"
  json_object_to_json_string_pretty :: "'j \<Rightarrow> string"
  json_object_array_length :: "'j \<Rightarrow> nat"
  json_object_array_get_idx :: "'j \<Rightarrow> nat \<Rightarrow> 'j option"
  json_object_object_get :: "'j option \<Rightarrow> string \<Rightarrow> 'j option"
  json_object_get_int :: "'j option \<Rightarrow> int"

text \<open>A fresh object with the given members; the sources add to it without looking at the
  pointer first.\<close>

definition json_members :: "'j json_lib \<Rightarrow> (string \<times> 'j) list \<Rightarrow> 'j res" where
  "json_members js kvs =
     (case json_object_new_object js of
        None \<Rightarrow> Inl BadPointer
      | Some j \<Rightarrow> Inr (fold (\<lambda>(k, v) j. json_object_object_add js j k v) kvs j))"

end
