(* ===== verification/GuestAgent.thy ===== *)
theory GuestAgent
  imports Os Json
begin

text \<open>
  The guest agents of \<open>src/guest_agent.c\<close>: one long-lived socket per VM, kept in an array of
  \<open>MAX_NUM_VM\<close> entries that is indexed by the VM id itself.  An id outside \<open>[0, MAX_NUM_VM)\<close> is
  an access outside the array.
\<close>

definition MAX_NUM_VM :: int where "MAX_NUM_VM = 16"

record guest_agent =
  ga_socket_path :: string
  ga_agent_fd :: int
  ga_initialized :: bool

record guest_agent_manager =
  guest_agents :: "guest_agent arr"
  ga_count :: int

definition zero_agent :: guest_agent where
  "zero_agent = \<lparr>ga_socket_path = [], ga_agent_fd = 0, ga_initialized = False\<rparr>"

definition zero_agents :: guest_agent_manager where
  "zero_agents = \<lparr>guest_agents = (\<lambda>_. zero_agent), ga_count = 0\<rparr>"

definition agent_get :: "guest_agent_manager \<Rightarrow> int \<Rightarrow> guest_agent res" where
  "agent_get m vm_id = arr_get MAX_NUM_VM (guest_agents m) vm_id"

definition agent_set :: "guest_agent_manager \<Rightarrow> int \<Rightarrow> guest_agent \<Rightarrow> guest_agent_manager res" where
  "agent_set m vm_id a =
     bindE (arr_set MAX_NUM_VM (guest_agents m) vm_id a) (\<lambda>as. Inr (m\<lparr>guest_agents := as\<rparr>))"

definition QGA_SOCKET_PREFIX :: string where
  "QGA_SOCKET_PREFIX = ''/var/run/qga-sock-''"

definition guest_agent_init ::
    "'w os \<Rightarrow> int \<Rightarrow> guest_agent_manager \<times> 'w \<Rightarrow> (int \<times> guest_agent_manager \<times> 'w) res" where
  "guest_agent_init os vm_id st =
     (let (m, w) = st in
      bindE (agent_get m vm_id) (\<lambda>a.
      if ga_initialized a then Inr (0, m, w)
      else if MAX_NUM_VM \<le> ga_count m then Inr (-1, m, w)
      else
        let path = fst (snprintf MAX_SOCKET_PATH (QGA_SOCKET_PREFIX @ show_int vm_id));
            a = a\<lparr>ga_socket_path := path\<rparr> in
        bindE (agent_set m vm_id a) (\<lambda>m.
        let (agent_fd, w) = connect_to_socket os path w in
        if agent_fd < 0 then Inr (-1, m, w)
        else
          bindE (agent_set m vm_id (a\<lparr>ga_agent_fd := agent_fd, ga_initialized := True\<rparr>)) (\<lambda>m.
          bindE (c_add (ga_count m) 1) (\<lambda>n. Inr (0, m\<lparr>ga_count := n\<rparr>, w))))))"

definition guest_agent_cleanup ::
    "'w os \<Rightarrow> int \<Rightarrow> guest_agent_manager \<times> 'w \<Rightarrow> (guest_agent_manager \<times> 'w) res" where
  "guest_agent_cleanup os vm_id st =
     (let (m, w) = st in
      bindE (agent_get m vm_id) (\<lambda>a.
      if ga_initialized a then
        let (_, w) = close_sockect os (ga_agent_fd a) w in
        bindE (agent_set m vm_id (a\<lparr>ga_initialized := False\<rparr>)) (\<lambda>m.
        bindE (c_sub (ga_count m) 1) (\<lambda>n. Inr (m\<lparr>ga_count := n\<rparr>, w)))
      else Inr (m, w)))"

text \<open>
  A command to the agent.  The result is the bytes received into a fresh buffer of
  \<open>BUFFER_SIZE\<close> bytes: no NUL is appended and the rest of the buffer is indeterminate.
\<close>

definition send_guest_cmd ::
    "'w os \<Rightarrow> int \<Rightarrow> string \<Rightarrow> guest_agent_manager \<times> 'w \<Rightarrow> (string option \<times> 'w) res" where
  "send_guest_cmd os vm_id command st =
     (let (m, w) = st in
      bindE (agent_get m vm_id) (\<lambda>a.
      if \<not> ga_initialized a then Inr (None, w)
      else
        let (_, w) = os_send os (ga_agent_fd a) command w;
            (ok, w) = os_malloc os (nat BUFFER_SIZE) w;
            (r, w) = sys_recv os (ga_agent_fd a) (nat BUFFER_SIZE) w in
        Inr (if ok then Some (case r of None \<Rightarrow> [] | Some bs \<Rightarrow> bs) else None, w)))"

definition guest_agent_get_meminfo ::
    "'w os \<Rightarrow> 'j json_lib \<Rightarrow> int \<Rightarrow> guest_agent_manager \<times> 'w \<Rightarrow> (string option \<times> 'w) res" where
  "guest_agent_get_meminfo os js vm_id st =
     bindE (json_members js [(''execute'', json_object_new_string js ''guest-get-meminfo'')]) (\<lambda>cmd_obj.
     send_guest_cmd os vm_id (json_object_to_json_string js cmd_obj) st)"

text \<open>Reading such a buffer as a C string: without a NUL the read leaves the received bytes.\<close>

definition read_recv_buffer :: "string \<Rightarrow> string res" where
  "read_recv_buffer bs =
     (if CHR 0x00 \<in> set bs then Inr (c_str bs)
      else if int (length bs) < BUFFER_SIZE then Inl UninitRead else Inl OutOfBounds)"

text \<open>An answer is what one \<open>recv\<close> stored.\<close>

lemma guest_answer:
  assumes "send_guest_cmd os v cmd st = Inr (Some bs, w)"
  shows "\<exists>fd u. bs = (case fst (sys_recv os fd (nat BUFFER_SIZE) u) of None \<Rightarrow> [] | Some bs \<Rightarrow> bs)"
proof -
  obtain m w0 where st: "st = (m, w0)" by (cases st)
  from assms obtain a where "agent_get m v = Inr a" by (auto simp: st send_guest_cmd_def bindE_eq_Inr)
  with assms show ?thesis unfolding st
    by (simp add: send_guest_cmd_def case_prod_beta split: if_splits) blast
qed

section \<open>Invariant\<close>

definition agent_up :: "guest_agent_manager \<Rightarrow> int \<Rightarrow> bool" where
  "agent_up m v \<longleftrightarrow> 0 \<le> v \<and> v < MAX_NUM_VM \<and> ga_initialized (guest_agents m v)"

definition agents_wf :: "guest_agent_manager \<Rightarrow> bool" where
  "agents_wf m \<longleftrightarrow> ga_count m = count_upto (\<lambda>v. ga_initialized (guest_agents m v)) MAX_NUM_VM"

lemma agents_wf_zero: "agents_wf zero_agents"
  by (simp add: agents_wf_def zero_agents_def zero_agent_def count_upto_none)

lemma MAX_NUM_VM_in_int: "0 \<le> x \<Longrightarrow> x \<le> MAX_NUM_VM \<Longrightarrow> in_int x"
  by (rule in_int_nonneg) (simp_all add: MAX_NUM_VM_def INT_MAX_def)

lemma count_agents_upd:
  "0 \<le> v \<Longrightarrow> v < MAX_NUM_VM \<Longrightarrow>
     count_upto (\<lambda>k. ga_initialized (((guest_agents m)(v := a)) k)) MAX_NUM_VM =
     count_upto (\<lambda>k. ga_initialized (guest_agents m k)) MAX_NUM_VM
       - of_bool (ga_initialized (guest_agents m v)) + of_bool (ga_initialized a)"
  using count_upto_change [of v MAX_NUM_VM "\<lambda>k. ga_initialized (((guest_agents m)(v := a)) k)"
      "\<lambda>k. ga_initialized (guest_agents m k)"] by simp

text \<open>
  Initialisation inside the array never faults: it returns 0 exactly when the agent is up
  afterwards, and touches no other agent.
\<close>

lemma guest_agent_init_correct:
  assumes wf: "agents_wf m" and v: "0 \<le> v" "v < MAX_NUM_VM"
  shows "\<exists>r m' w'. guest_agent_init os v (m, w) = Inr (r, m', w') \<and> agents_wf m' \<and>
           (r = 0 \<or> r = -1) \<and>
           (r = 0 \<longrightarrow> (\<forall>u. agent_up m' u \<longleftrightarrow> u = v \<or> agent_up m u)) \<and>
           (r = -1 \<longrightarrow> \<not> agent_up m v \<and> (\<forall>u. agent_up m' u \<longleftrightarrow> agent_up m u))"
proof (cases "ga_initialized (guest_agents m v)")
  case True
  with wf v show ?thesis
    by (auto simp: guest_agent_init_def agent_get_def agent_up_def)
next
  case False
  have room: "ga_count m < MAX_NUM_VM"
    using wf v False count_upto_full [of v MAX_NUM_VM "\<lambda>u. ga_initialized (guest_agents m u)"]
    by (simp add: agents_wf_def)
  define path where "path = fst (snprintf MAX_SOCKET_PATH (QGA_SOCKET_PREFIX @ show_int v))"
  define a where "a = (guest_agents m v)\<lparr>ga_socket_path := path\<rparr>"
  obtain fd w1 where conn: "connect_to_socket os path w = (fd, w1)" by (cases "connect_to_socket os path w")
  have a: "\<not> ga_initialized a" using False by (simp add: a_def)
  show ?thesis
  proof (cases "fd < 0")
    case True
    define m' where "m' = m\<lparr>guest_agents := (guest_agents m)(v := a)\<rparr>"
    have "guest_agent_init os v (m, w) = Inr (-1, m', w1)"
      using False room v True conn
      by (simp add: guest_agent_init_def agent_get_def agent_set_def path_def a_def m'_def Let_def)
    moreover have "agents_wf m'"
      using wf v a False count_agents_upd [of v m a] by (simp add: agents_wf_def m'_def)
    moreover have "agent_up m' u \<longleftrightarrow> agent_up m u" for u
      using a False by (auto simp: agent_up_def m'_def)
    ultimately show ?thesis using False by (auto simp: agent_up_def)
  next
    case fd: False
    define b where "b = a\<lparr>ga_agent_fd := fd, ga_initialized := True\<rparr>"
    define m' where "m' = m\<lparr>guest_agents := (guest_agents m)(v := b), ga_count := ga_count m + 1\<rparr>"
    have nonneg: "0 \<le> ga_count m" using wf count_upto_nonneg by (simp add: agents_wf_def)
    have "guest_agent_init os v (m, w) = Inr (0, m', w1)"
      using False room v fd conn nonneg MAX_NUM_VM_in_int [of "ga_count m + 1"]
      by (simp add: guest_agent_init_def agent_get_def agent_set_def path_def a_def b_def m'_def
          Let_def c_add_def)
    moreover have "agents_wf m'"
      using wf v False count_agents_upd [of v m b] by (simp add: agents_wf_def m'_def b_def)
    moreover have "agent_up m' u \<longleftrightarrow> u = v \<or> agent_up m u" for u
      using v by (auto simp: agent_up_def m'_def b_def)
    ultimately show ?thesis by auto
  qed
qed

lemma guest_agent_cleanup_correct:
  assumes wf: "agents_wf m" and v: "0 \<le> v" "v < MAX_NUM_VM"
  shows "\<exists>m' w'. guest_agent_cleanup os v (m, w) = Inr (m', w') \<and> agents_wf m' \<and>
           (\<forall>u. agent_up m' u \<longleftrightarrow> u \<noteq> v \<and> agent_up m u)"
proof (cases "ga_initialized (guest_agents m v)")
  case False
  with wf v show ?thesis by (auto simp: guest_agent_cleanup_def agent_get_def agent_up_def)
next
  case True
  define a where "a = (guest_agents m v)\<lparr>ga_initialized := False\<rparr>"
  define m' where "m' = m\<lparr>guest_agents := (guest_agents m)(v := a), ga_count := ga_count m - 1\<rparr>"
  have "1 \<le> ga_count m" "ga_count m \<le> MAX_NUM_VM"
    using wf v True count_upto_pos [of v MAX_NUM_VM "\<lambda>u. ga_initialized (guest_agents m u)"]
      count_upto_le [of MAX_NUM_VM "\<lambda>u. ga_initialized (guest_agents m u)"]
    by (auto simp: agents_wf_def MAX_NUM_VM_def)
  then have "guest_agent_cleanup os v (m, w)
      = Inr (m', snd (close_sockect os (ga_agent_fd (guest_agents m v)) w))"
    using True v MAX_NUM_VM_in_int [of "ga_count m - 1"]
    by (simp add: guest_agent_cleanup_def agent_get_def agent_set_def a_def m'_def c_sub_def
        case_prod_beta)
  moreover have "agents_wf m'"
    using wf v True count_agents_upd [of v m a] by (simp add: agents_wf_def m'_def a_def)
  moreover have "agent_up m' u \<longleftrightarrow> u \<noteq> v \<and> agent_up m u" for u
    by (auto simp: agent_up_def m'_def a_def)
  ultimately show ?thesis by auto
qed

text \<open>Any other id leaves the array.\<close>

lemma guest_agent_out_of_range:
  assumes "\<not> (0 \<le> v \<and> v < MAX_NUM_VM)"
  shows "guest_agent_init os v st = Inl OutOfBounds"
    and "guest_agent_cleanup os v st = Inl OutOfBounds"
    and "send_guest_cmd os v cmd st = Inl OutOfBounds"
proof -
  have "agent_get m v = Inl OutOfBounds" for m using assms by (auto simp: agent_get_def arr_get_def)
  then show "guest_agent_init os v st = Inl OutOfBounds" "guest_agent_cleanup os v st = Inl OutOfBounds"
    "send_guest_cmd os v cmd st = Inl OutOfBounds"
    by (simp_all add: guest_agent_init_def guest_agent_cleanup_def send_guest_cmd_def case_prod_beta)
qed

section \<open>The interface the VM manager uses\<close>

text \<open>
  A table of connections indexed by VM id: a connection that is opened is up until it is
  closed, and no call touches another VM's.  The client tracks by a predicate \<open>R\<close> on the ids which
  VMs it has started.
\<close>

locale agent_service =
  fixes awf :: "'s \<Rightarrow> bool"
    and up :: "'s \<Rightarrow> int \<Rightarrow> bool"
    and open_agent :: "int \<Rightarrow> 's \<times> 'w \<Rightarrow> (int \<times> 's \<times> 'w) res"
    and close_agent :: "int \<Rightarrow> 's \<times> 'w \<Rightarrow> ('s \<times> 'w) res"
  assumes open_result: "awf m \<Longrightarrow> open_agent v (m, w) = Inr (r, m', w') \<Longrightarrow> awf m' \<and> (r = 0 \<or> r = -1)"
    and open_up: "awf m \<Longrightarrow> open_agent v (m, w) = Inr (r, m', w') \<Longrightarrow>
          up m' u \<longleftrightarrow> (u = v \<and> r = 0) \<or> up m u"
    and close_ok: "awf m \<Longrightarrow> up m v \<Longrightarrow> \<exists>m' w'. close_agent v (m, w) = Inr (m', w')"
    and close_result: "awf m \<Longrightarrow> close_agent v (m, w) = Inr (m', w') \<Longrightarrow> awf m'"
    and close_up: "awf m \<Longrightarrow> close_agent v (m, w) = Inr (m', w') \<Longrightarrow> up m' u \<longleftrightarrow> u \<noteq> v \<and> up m u"
begin

definition linked :: "'s \<Rightarrow> (int \<Rightarrow> bool) \<Rightarrow> bool" where
  "linked m R \<longleftrightarrow> awf m \<and> up m = R"

lemma linked_open:
  assumes "linked m R" "\<not> R v" "open_agent v (m, w) = Inr (r, m', w')"
  shows "linked m' (R(v := (r = 0)))" and "r = 0 \<or> r = -1"
  using assms open_result [of m v w r m' w'] open_up [of m v w r m' w'] by (auto simp: linked_def fun_eq_iff)

lemma linked_close:
  assumes "linked m R" "R v"
  shows "\<exists>m' w'. close_agent v (m, w) = Inr (m', w') \<and> linked m' (R(v := False))"
proof -
  from assms have m: "awf m" "up m = R" by (simp_all add: linked_def)
  with assms(2) close_ok [of m v w] obtain m' w' where c: "close_agent v (m, w) = Inr (m', w')" by auto
  with m close_result [OF m(1) c] close_up [OF m(1) c] show ?thesis by (auto simp: linked_def fun_eq_iff)
qed

end

lemma agent_init_range: "guest_agent_init os v st = Inr x \<Longrightarrow> 0 \<le> v \<and> v < MAX_NUM_VM"
  using guest_agent_out_of_range(1) [of v os st] by auto

lemma agent_cleanup_range: "guest_agent_cleanup os v st = Inr x \<Longrightarrow> 0 \<le> v \<and> v < MAX_NUM_VM"
  using guest_agent_out_of_range(2) [of v os st] by auto

interpretation agents: agent_service agents_wf agent_up "guest_agent_init os" "guest_agent_cleanup os"
  for os :: "'w os"
proof unfold_locales
  fix m v and w w' :: 'w and r m' u
  assume wf: "agents_wf m" and run: "guest_agent_init os v (m, w) = Inr (r, m', w')"
  from guest_agent_init_correct [OF wf, of v os w] agent_init_range [OF run] run have
    *: "agents_wf m'" "r = 0 \<or> r = -1" "r = 0 \<Longrightarrow> agent_up m' x \<longleftrightarrow> x = v \<or> agent_up m x"
      "r = -1 \<Longrightarrow> agent_up m' x \<longleftrightarrow> agent_up m x" for x by auto
  from *(1,2) show "agents_wf m' \<and> (r = 0 \<or> r = -1)" ..
  from *(2) *(3,4) [of u] show "agent_up m' u \<longleftrightarrow> (u = v \<and> r = 0) \<or> agent_up m u" by auto
next
  fix m v and w :: 'w
  assume "agents_wf m" "agent_up m v"
  with guest_agent_cleanup_correct [of m v os w]
  show "\<exists>m' w'. guest_agent_cleanup os v (m, w) = Inr (m', w')" by (auto simp: agent_up_def)
next
  fix m v and w w' :: 'w and m' u
  assume wf: "agents_wf m" and run: "guest_agent_cleanup os v (m, w) = Inr (m', w')"
  from guest_agent_cleanup_correct [OF wf, of v os w] agent_cleanup_range [OF run] run
  show "agents_wf m'" "agent_up m' u \<longleftrightarrow> u \<noteq> v \<and> agent_up m u" by auto
qed

end
