(* ===== verification/VmManager.thy ===== *)
theory VmManager
  imports VmPerf MemoryPool GuestAgent
begin

text \<open>
  The VM manager of \<open>src/vm_manager.c\<close>: a table of \<open>MAX_NUM_VM\<close> entries, each operation of the
  exported interface, and the state of the whole process it works on (pool, VM table, guest
  agents, world).

  An operation that takes a VM id looks the entry up first; \<open>put_vm\<close> writes the entry back.
  \<open>vm_mngr_instance_alloc_mem\<close> returns what it stores through its out parameter, \<open>None\<close> for -1.
\<close>

record vm_instance_manager =
  mngr_count :: int
  mngr_VMs :: "vm_instance list"

record 'w rm_state =
  rm_pool :: memory_pool
  rm_vms :: vm_instance_manager
  rm_agents :: guest_agent_manager
  rm_world :: 'w

definition zero_mngr :: vm_instance_manager where
  "zero_mngr = \<lparr>mngr_count = 0, mngr_VMs = replicate (nat MAX_NUM_VM) zero_vm\<rparr>"

definition vm_at :: "'w rm_state \<Rightarrow> nat \<Rightarrow> vm_instance" where
  "vm_at s k = mngr_VMs (rm_vms s) ! k"

definition mngr_put :: "nat \<Rightarrow> vm_instance \<Rightarrow> vm_instance_manager \<Rightarrow> vm_instance_manager" where
  "mngr_put k VM m = m\<lparr>mngr_VMs := (mngr_VMs m)[k := VM]\<rparr>"

definition put_vm :: "nat \<Rightarrow> vm_instance \<Rightarrow> 'w rm_state \<Rightarrow> 'w rm_state" where
  "put_vm k VM s = s\<lparr>rm_vms := mngr_put k VM (rm_vms s)\<rparr>"

section \<open>Lookup and iteration\<close>

fun find_vm :: "int \<Rightarrow> vm_instance list \<Rightarrow> nat option" where
  "find_vm vm_id [] = None"
| "find_vm vm_id (VM # VMs) =
     (if VM_id VM = vm_id \<and> VM_initialized VM then Some 0 else map_option Suc (find_vm vm_id VMs))"

definition vm_mngr_get_instance :: "int \<Rightarrow> vm_instance_manager \<Rightarrow> nat option" where
  "vm_mngr_get_instance vm_id m = find_vm vm_id (mngr_VMs m)"

definition vm_mngr_check_exit :: "int \<Rightarrow> vm_instance_manager \<Rightarrow> bool" where
  "vm_mngr_check_exit vm_id m = (vm_mngr_get_instance vm_id m \<noteq> None)"

definition vm_mngr_get_new_memdev_idx ::
    "int \<Rightarrow> vm_instance_manager \<Rightarrow> (int \<times> vm_instance_manager) res" where
  "vm_mngr_get_new_memdev_idx vm_id m =
     (case vm_mngr_get_instance vm_id m of
        None \<Rightarrow> Inr (-1, m)
      | Some k \<Rightarrow>
          let VM = mngr_VMs m ! k in
          bindE (c_add (VM_memdev_counter VM) 1) (\<lambda>n.
          Inr (VM_memdev_counter VM, mngr_put k (VM\<lparr>VM_memdev_counter := n\<rparr>) m)))"

text \<open>The loops over the table; a handler gets the index of the entry.\<close>

definition vm_mngr_for_each_vm ::
    "(nat \<Rightarrow> 'w rm_state \<Rightarrow> 'w rm_state res) \<Rightarrow> 'w rm_state \<Rightarrow> 'w rm_state res" where
  "vm_mngr_for_each_vm vm_handler s =
     (if mngr_count (rm_vms s) = 0 then Inr s
      else foldE (\<lambda>i s. if \<not> VM_initialized (vm_at s i) then Inr s else vm_handler i s)
             [0..<nat MAX_NUM_VM] s)"

definition vm_mngr_for_each_vm_running ::
    "(nat \<Rightarrow> 'w rm_state \<Rightarrow> 'w rm_state res) \<Rightarrow> 'w rm_state \<Rightarrow> 'w rm_state res" where
  "vm_mngr_for_each_vm_running vm_handler s =
     (if mngr_count (rm_vms s) = 0 then Inr s
      else foldE (\<lambda>i s. if \<not> VM_initialized (vm_at s i) \<or> \<not> VM_running (vm_at s i) then Inr s
                        else vm_handler i s)
             [0..<nat MAX_NUM_VM] s)"

section \<open>Life cycle\<close>

text \<open>The search for a free entry stops at the first one, or at the last entry of the table.\<close>

fun free_slot :: "vm_instance list \<Rightarrow> nat" where
  "free_slot [] = 0"
| "free_slot [VM] = 0"
| "free_slot (VM # VMs) = (if \<not> VM_initialized VM then 0 else Suc (free_slot VMs))"

definition CORE_SET_LEN :: int where "CORE_SET_LEN = 256"

definition vm_mngr_instance_create ::
    "int \<Rightarrow> string \<Rightarrow> vm_instance_manager \<Rightarrow> (int \<times> vm_instance_manager) res" where
  "vm_mngr_instance_create vm_id core_set m =
     (if MAX_NUM_VM \<le> mngr_count m then Inr (-1, m)
      else if vm_mngr_check_exit vm_id m then Inr (-1, m)
      else
        let k = free_slot (mngr_VMs m); VM = mngr_VMs m ! k in
        bindE (BUG_ON (VM_initialized VM)) (\<lambda>_.
        let VM = VM\<lparr>VM_id := vm_id, VM_num_cores := 0, VM_memdev_counter := 0,
                    VM_core_set := fst (snprintf CORE_SET_LEN core_set)\<rparr> in
        bindE (vm_mngr_for_each_core (VM_core_set VM) vm_num_core_update (VM_num_cores VM)) (\<lambda>n.
        bindE (c_add (mngr_count m) 1) (\<lambda>count.
        Inr (0, (mngr_put k (VM\<lparr>VM_num_cores := n, VM_attached_devs := [],
                                VM_initialized := True\<rparr>) m)\<lparr>mngr_count := count\<rparr>)))))"

definition vm_mngr_instance_start ::
    "'w os \<Rightarrow> int \<Rightarrow> 'w rm_state \<Rightarrow> (int \<times> 'w rm_state) res" where
  "vm_mngr_instance_start os vm_id s =
     (case vm_mngr_get_instance vm_id (rm_vms s) of
        None \<Rightarrow> Inr (-1, s)
      | Some k \<Rightarrow>
          let VM = vm_at s k in
          if VM_running VM then Inr (0, s)
          else
            bindE (BUG_ON (\<not> VM_initialized VM)) (\<lambda>_.
            bindE (vm_perf_counter_setup os (VM, rm_world s)) (\<lambda>(VM, w).
            bindE (guest_agent_init os vm_id (rm_agents s, w)) (\<lambda>(ret, agents, w).
            if ret < 0 then
              bindE (vm_perf_counter_teardown os (VM, w)) (\<lambda>(VM, w).
              Inr (-1, (put_vm k VM s)\<lparr>rm_agents := agents, rm_world := w\<rparr>))
            else
              Inr (0, (put_vm k (VM\<lparr>VM_running := True\<rparr>) s)\<lparr>rm_agents := agents, rm_world := w\<rparr>)))))"

definition vm_mngr_instance_destroy :: "int \<Rightarrow> 'w rm_state \<Rightarrow> (int \<times> 'w rm_state) res" where
  "vm_mngr_instance_destroy vm_id s =
     (case vm_mngr_get_instance vm_id (rm_vms s) of
        None \<Rightarrow> Inr (-1, s)
      | Some k \<Rightarrow>
          let VM = vm_at s k in
          if VM_running VM then Inr (-1, s)
          else
            let VM = VM\<lparr>VM_core_set := []\<rparr> in
            bindE (memory_pool_release_vm_memory (VM_id VM) (rm_pool s)) (\<lambda>p.
            bindE (c_sub (mngr_count (rm_vms s)) 1) (\<lambda>count.
            Inr (0, s\<lparr>rm_pool := p,
                      rm_vms := (mngr_put k (VM\<lparr>VM_initialized := False\<rparr>) (rm_vms s))
                                  \<lparr>mngr_count := count\<rparr>\<rparr>))))"

definition vm_mngr_instance_stop ::
    "'w os \<Rightarrow> int \<Rightarrow> 'w rm_state \<Rightarrow> (int \<times> 'w rm_state) res" where
  "vm_mngr_instance_stop os vm_id s =
     (case vm_mngr_get_instance vm_id (rm_vms s) of
        None \<Rightarrow> Inr (-1, s)
      | Some k \<Rightarrow>
          let VM = vm_at s k in
          if \<not> VM_running VM then Inr (0, s)
          else
            let VM = VM\<lparr>VM_running := False\<rparr>; w = os_usleep os 1000 (rm_world s) in
            bindE (guest_agent_cleanup os (VM_id VM) (rm_agents s, w)) (\<lambda>(agents, w).
            bindE (vm_perf_counter_teardown os (VM, w)) (\<lambda>(VM, w).
            Inr (0, (put_vm k VM s)\<lparr>rm_agents := agents, rm_world := w\<rparr>))))"

section \<open>Memory of a VM\<close>

definition sizeof_memory_dev :: nat where "sizeof_memory_dev = 104"

definition vm_mngr_instance_alloc_mem ::
    "'w os \<Rightarrow> int \<Rightarrow> int \<Rightarrow> int \<Rightarrow> 'w rm_state \<Rightarrow> (vm_mem_req option \<times> 'w rm_state) res" where
  "vm_mngr_instance_alloc_mem os node_id vm_id size_mb s =
     (case vm_mngr_get_instance vm_id (rm_vms s) of
        None \<Rightarrow> Inr (None, s)
      | Some k \<Rightarrow>
          let (ok, w) = os_malloc os sizeof_memory_dev (rm_world s); s = s\<lparr>rm_world := w\<rparr> in
          if \<not> ok then Inr (None, s)
          else
            bindE (memory_pool_allocate_segments node_id vm_id size_mb (rm_pool s)) (\<lambda>(ret, p).
            let s = s\<lparr>rm_pool := p\<rparr> in
            case ret of
              None \<Rightarrow> Inr (None, s)
            | Some mem_req \<Rightarrow>
                bindE (vm_mngr_get_new_memdev_idx vm_id (rm_vms s)) (\<lambda>(idx, m).
                let mem_dev = \<lparr>memdev_idx = idx, memory_req = mem_req\<rparr>;
                    VM = mngr_VMs m ! k;
                    VM = VM\<lparr>VM_attached_devs := VM_attached_devs VM @ [mem_dev]\<rparr> in
                Inr (Some \<lparr>vmr_dev_path = fst (snprintf DEV_PATH_LEN (req_dev_path mem_req)),
                           vmr_offset_mb = req_offset_mb mem_req,
                           vmr_size_mb = req_size_mb mem_req,
                           vmr_align_mb = req_align_mb mem_req,
                           vmr_memdev_idx = idx\<rparr>,
                     s\<lparr>rm_vms := mngr_put k VM m\<rparr>))))"

text \<open>The walk over the attached devices that both queries and the release start with.\<close>

definition find_memdev :: "int \<Rightarrow> vm_instance \<Rightarrow> memory_dev option" where
  "find_memdev idx VM = find (\<lambda>d. memdev_idx d = idx) (VM_attached_devs VM)"

definition vm_mngr_instance_free_mem :: "int \<Rightarrow> int \<Rightarrow> 'w rm_state \<Rightarrow> (int \<times> 'w rm_state) res" where
  "vm_mngr_instance_free_mem vm_id idx s =
     (case vm_mngr_get_instance vm_id (rm_vms s) of
        None \<Rightarrow> Inr (-1, s)
      | Some k \<Rightarrow>
          let VM = vm_at s k in
          case find_memdev idx VM of
            None \<Rightarrow> Inr (-1, s)
          | Some mem_dev \<Rightarrow>
              let mem_req = memory_req mem_dev in
              bindE (memory_pool_release_segments (req_node_id mem_req) vm_id
                       (req_offset_mb mem_req) (req_size_mb mem_req) (rm_pool s)) (\<lambda>(ret, p).
              let s = s\<lparr>rm_pool := p\<rparr> in
              if ret < 0 then Inr (-1, s)
              else Inr (0, put_vm k (VM\<lparr>VM_attached_devs := remove1 mem_dev (VM_attached_devs VM)\<rparr>) s)))"

definition vm_mngr_instance_get_mem :: "int \<Rightarrow> int \<Rightarrow> vm_instance_manager \<Rightarrow> memory_request option" where
  "vm_mngr_instance_get_mem vm_id idx m =
     (case vm_mngr_get_instance vm_id m of
        None \<Rightarrow> None
      | Some k \<Rightarrow> map_option memory_req (find_memdev idx (mngr_VMs m ! k)))"

section \<open>The dump\<close>

definition dump_vm_line :: "vm_instance \<Rightarrow> string" where
  "dump_vm_line VM =
     ''VM id='' @ show_int (VM_id VM) @ '' cores='' @ show_int (VM_num_cores VM) @
     '' coreset=['' @ VM_core_set VM @ ''] memdev_count='' @ show_int (VM_memdev_counter VM) @ [newline]"

definition dump_dev_line :: "memory_dev \<Rightarrow> string" where
  "dump_dev_line d =
     (let req = memory_req d in
      ''  memdev='' @ show_int (memdev_idx d) @ '' node='' @ show_int (req_node_id req) @
      '' path='' @ req_dev_path req @ '' size='' @ show_int (req_size_mb req) @
      ''MB align='' @ show_int (req_align_mb req) @ ''MB offset='' @ show_int (req_offset_mb req) @
      ''MB'' @ [newline])"

fun dump_devs :: "int \<Rightarrow> memory_dev list \<Rightarrow> string \<times> int \<Rightarrow> string \<times> int" where
  "dump_devs buffer_size [] st = st"
| "dump_devs buffer_size (d # ds) st =
     (let st = append_fmt buffer_size (dump_dev_line d) st in
      if buffer_size \<le> snd st then st else dump_devs buffer_size ds st)"

fun dump_vms :: "int \<Rightarrow> vm_instance list \<Rightarrow> string \<times> int \<Rightarrow> string \<times> int" where
  "dump_vms buffer_size [] st = st"
| "dump_vms buffer_size (VM # VMs) st =
     (if snd st < buffer_size then
        if \<not> VM_initialized VM then dump_vms buffer_size VMs st
        else
          let st = append_fmt buffer_size (dump_vm_line VM) st in
          if buffer_size \<le> snd st then st
          else dump_vms buffer_size VMs (dump_devs buffer_size (VM_attached_devs VM) st)
      else st)"

text \<open>\<open>None\<close> is -1; otherwise the text left in the buffer.\<close>

definition vm_mngr_dump_state :: "int \<Rightarrow> vm_instance_manager \<Rightarrow> string option" where
  "vm_mngr_dump_state buffer_size m =
     (if buffer_size \<le> 0 then None
      else
        let st = append_fmt buffer_size
                   (''VM Count: '' @ show_int (mngr_count m) @ [newline]) ([], 0) in
        if buffer_size \<le> snd st then Some (fst st)
        else if mngr_count m = 0 then
          Some (fst (append_fmt buffer_size (''No VM created.'' @ [newline]) st))
        else Some (fst (dump_vms buffer_size (mngr_VMs m) st)))"

section \<open>Monitoring\<close>

definition vm_mngr_update_perf_counters :: "'w os \<Rightarrow> 'w rm_state \<Rightarrow> 'w rm_state res" where
  "vm_mngr_update_perf_counters os s =
     (if mngr_count (rm_vms s) = 0 then Inr s
      else foldE (\<lambda>i s. if \<not> VM_running (vm_at s i) then Inr s
                        else bindE (vm_perf_update os (vm_at s i, rm_world s)) (\<lambda>(VM, w).
                             Inr ((put_vm i VM s)\<lparr>rm_world := w\<rparr>)))
             [0..<nat MAX_NUM_VM] s)"

definition vm_mngr_update_metrics :: "'w rm_state \<Rightarrow> 'w rm_state res" where
  "vm_mngr_update_metrics s =
     (if mngr_count (rm_vms s) = 0 then Inr s
      else foldE (\<lambda>i s. if \<not> VM_running (vm_at s i) then Inr s
                        else Inr (put_vm i (vm_update_metrics (vm_at s i)) s))
             [0..<nat MAX_NUM_VM] s)"

end
