(* ===== verification/QemuAgent.thy ===== *)
theory QemuAgent
  imports Os Json
begin

text \<open>
  The QEMU agent of \<open>src/qemu_agent.c\<close>: a QMP session per command (greeting, capabilities
  negotiation, the command), and the two-step hotplug and hotunplug built on it.

  A command returns the text of the answer, \<open>None\<close> for -1.  \<open>recv\<close> may fill all
  \<open>BUFFER_SIZE\<close> bytes of the answer's buffer, and then the NUL is written behind its end.
\<close>

record hotplug_request =
  hp_dimm_id :: string
  hp_memdev_id :: string
  hp_dev_path :: string
  hp_size_bytes :: "64 word"
  hp_align_bytes :: "64 word"
  hp_share :: bool
  hp_numa_node :: int

record hotunplug_request =
  hu_dimm_id :: string
  hu_memdev_id :: string

definition STRING_ID_LEN :: int where "STRING_ID_LEN = 32"

definition QMP_SOCKET_PREFIX :: string where
  "QMP_SOCKET_PREFIX = ''/var/run/qmp-sock-''"

text \<open>The return value of a \<open>recv\<close>.\<close>

definition recv_ret :: "string option \<Rightarrow> int" where
  "recv_ret r = (case r of None \<Rightarrow> -1 | Some bs \<Rightarrow> int (length bs))"

text \<open>The terminator written behind what \<open>recv\<close> stored, into a buffer of \<open>BUFFER_SIZE\<close> bytes.\<close>

definition put_nul :: "int \<Rightarrow> unit res" where
  "put_nul ret = guardE (0 \<le> ret \<and> ret < BUFFER_SIZE) OutOfBounds"

definition init_qemu_qmp_session :: "'w os \<Rightarrow> 'j json_lib \<Rightarrow> int \<Rightarrow> 'w \<Rightarrow> (int \<times> 'w) res" where
  "init_qemu_qmp_session os js fd w =
     (let (greeting, w) = sys_recv os fd (nat BUFFER_SIZE - 1) w in
      if recv_ret greeting \<le> 0 then Inr (-1, w)
      else
        bindE (put_nul (recv_ret greeting)) (\<lambda>_.
        case json_object_new_object js of
          None \<Rightarrow> Inr (-1, w)
        | Some cmd \<Rightarrow>
            let cmd = json_object_object_add js cmd ''execute''
                        (json_object_new_string js ''qmp_capabilities'');
                (ret, w) = os_send os fd (json_object_to_json_string js cmd) w in
            if ret < 0 then Inr (-1, w)
            else
              let (response, w) = sys_recv os fd (nat BUFFER_SIZE - 1) w in
              if recv_ret response \<le> 0 then Inr (-1, w)
              else
                bindE (put_nul (recv_ret response)) (\<lambda>_.
                case json_tokener_parse js (c_str (the response)) of
                  None \<Rightarrow> Inr (-1, w)
                | Some j \<Rightarrow>
                    Inr (if json_object_object_get_ex js j ''return'' = None then (-1, w) else (0, w)))))"

text \<open>The label \<open>fail\<close>: descriptor 0 is not closed.\<close>

definition qmp_fail :: "'w os \<Rightarrow> int \<Rightarrow> 'w \<Rightarrow> string option \<times> 'w" where
  "qmp_fail os agent_fd w = (None, if 0 < agent_fd then snd (close_sockect os agent_fd w) else w)"

definition send_qemu_cmd ::
    "'w os \<Rightarrow> 'j json_lib \<Rightarrow> int \<Rightarrow> string \<Rightarrow> 'w \<Rightarrow> (string option \<times> 'w) res" where
  "send_qemu_cmd os js vm_id command w =
     (let socket_path = fst (snprintf MAX_SOCKET_PATH (QMP_SOCKET_PREFIX @ show_int vm_id));
          (agent_fd, w) = connect_to_socket os socket_path w in
      if agent_fd < 0 then Inr (qmp_fail os agent_fd w)
      else
        bindE (init_qemu_qmp_session os js agent_fd w) (\<lambda>(ret, w).
        if ret < 0 then Inr (qmp_fail os agent_fd w)
        else
          let (ret, w) = os_send os agent_fd command w in
          if ret < 0 then Inr (qmp_fail os agent_fd w)
          else
            let (response, w) = sys_recv os agent_fd (nat BUFFER_SIZE) w in
            if recv_ret response \<le> 0 then Inr (qmp_fail os agent_fd w)
            else
              bindE (put_nul (recv_ret response)) (\<lambda>_.
              let (_, w) = close_sockect os agent_fd w in Inr (Some (c_str (the response)), w))))"

definition is_response_success :: "'j json_lib \<Rightarrow> string \<Rightarrow> bool" where
  "is_response_success js response =
     (case json_tokener_parse js response of
        None \<Rightarrow> False
      | Some j \<Rightarrow>
          case json_object_object_get_ex js j ''return'' of
            None \<Rightarrow> False
          | Some ret_obj \<Rightarrow> json_object_is_object js ret_obj \<and> json_object_object_length js ret_obj = 0)"

text \<open>The common end of the four commands: print, send, check the answer.\<close>

definition qmp_execute ::
    "'w os \<Rightarrow> 'j json_lib \<Rightarrow> int \<Rightarrow> 'j res \<Rightarrow> 'w \<Rightarrow> (int \<times> 'w) res" where
  "qmp_execute os js vm_id cmd w =
     bindE cmd (\<lambda>cmd.
     bindE (send_qemu_cmd os js vm_id (json_object_to_json_string js cmd) w) (\<lambda>(response, w).
     case response of
       None \<Rightarrow> Inr (-1, w)
     | Some r \<Rightarrow> if \<not> is_response_success js r then Inr (-1, w) else Inr (0, w)))"

definition qmp_command :: "'j json_lib \<Rightarrow> string \<Rightarrow> 'j res \<Rightarrow> 'j res" where
  "qmp_command js name args =
     bindE args (\<lambda>args.
     json_members js [(''execute'', json_object_new_string js name), (''arguments'', args)])"

text \<open>\<open>json_object_new_int64\<close> takes an \<open>int64_t\<close>: the conversion keeps the bits.\<close>

definition create_object_cmd :: "'j json_lib \<Rightarrow> hotplug_request \<Rightarrow> 'j res" where
  "create_object_cmd js request =
     qmp_command js ''object-add'' (json_members js
       [(''qom-type'', json_object_new_string js ''memory-backend-file''),
        (''id'', json_object_new_string js (hp_memdev_id request)),
        (''mem-path'', json_object_new_string js (hp_dev_path request)),
        (''size'', json_object_new_int64 js (sint (hp_size_bytes request))),
        (''share'', json_object_new_boolean js (hp_share request)),
        (''align'', json_object_new_int64 js (sint (hp_align_bytes request)))])"

definition qemu_agent_create_object ::
    "'w os \<Rightarrow> 'j json_lib \<Rightarrow> int \<Rightarrow> hotplug_request \<Rightarrow> 'w \<Rightarrow> (int \<times> 'w) res" where
  "qemu_agent_create_object os js vm_id request w =
     qmp_execute os js vm_id (create_object_cmd js request) w"

definition free_object_cmd :: "'j json_lib \<Rightarrow> hotunplug_request \<Rightarrow> 'j res" where
  "free_object_cmd js request =
     qmp_command js ''object-del'' (json_members js [(''id'', json_object_new_string js (hu_memdev_id request))])"

definition qemu_agent_free_object ::
    "'w os \<Rightarrow> 'j json_lib \<Rightarrow> int \<Rightarrow> hotunplug_request \<Rightarrow> 'w \<Rightarrow> (int \<times> 'w) res" where
  "qemu_agent_free_object os js vm_id request w =
     qmp_execute os js vm_id (free_object_cmd js request) w"

definition add_device_cmd :: "'j json_lib \<Rightarrow> hotplug_request \<Rightarrow> 'j res" where
  "add_device_cmd js request =
     qmp_command js ''device_add'' (json_members js
       [(''driver'', json_object_new_string js ''pc-dimm''),
        (''id'', json_object_new_string js (hp_dimm_id request)),
        (''memdev'', json_object_new_string js (hp_memdev_id request)),
        (''node'', json_object_new_int js (hp_numa_node request))])"

definition qemu_agent_add_device ::
    "'w os \<Rightarrow> 'j json_lib \<Rightarrow> int \<Rightarrow> hotplug_request \<Rightarrow> 'w \<Rightarrow> (int \<times> 'w) res" where
  "qemu_agent_add_device os js vm_id request w =
     qmp_execute os js vm_id (add_device_cmd js request) w"

definition del_device_cmd :: "'j json_lib \<Rightarrow> hotunplug_request \<Rightarrow> 'j res" where
  "del_device_cmd js request =
     qmp_command js ''device_del'' (json_members js [(''id'', json_object_new_string js (hu_dimm_id request))])"

definition qemu_agent_del_device ::
    "'w os \<Rightarrow> 'j json_lib \<Rightarrow> int \<Rightarrow> hotunplug_request \<Rightarrow> 'w \<Rightarrow> (int \<times> 'w) res" where
  "qemu_agent_del_device os js vm_id request w =
     qmp_execute os js vm_id (del_device_cmd js request) w"

definition qemu_agent_hotplug_memory ::
    "'w os \<Rightarrow> 'j json_lib \<Rightarrow> int \<Rightarrow> hotplug_request \<Rightarrow> 'w \<Rightarrow> (int \<times> 'w) res" where
  "qemu_agent_hotplug_memory os js vm_id request w =
     bindE (qemu_agent_create_object os js vm_id request w) (\<lambda>(ret, w).
     if ret < 0 then Inr (-1, w)
     else
       bindE (qemu_agent_add_device os js vm_id request w) (\<lambda>(ret, w).
       if ret < 0 then Inr (-1, w) else Inr (0, w)))"

definition qemu_agent_hotunplug_memory ::
    "'w os \<Rightarrow> 'j json_lib \<Rightarrow> int \<Rightarrow> hotunplug_request \<Rightarrow> 'w \<Rightarrow> (int \<times> 'w) res" where
  "qemu_agent_hotunplug_memory os js vm_id request w =
     bindE (qemu_agent_del_device os js vm_id request w) (\<lambda>(ret, w).
     if ret < 0 then Inr (-1, w)
     else
       let w = os_usleep os 3000000 w in
       bindE (qemu_agent_free_object os js vm_id request w) (\<lambda>(ret, w).
       if ret < 0 then Inr (-1, w) else Inr (0, w)))"

section \<open>Answers\<close>

lemma recv_ret_sys_recv:
  "sys_recv os fd n w = (r, w') \<Longrightarrow> recv_ret r \<le> int n"
  using sys_recv_length [of os fd n w] by (cases r) (auto simp: recv_ret_def)

text \<open>The greeting and the negotiation stay inside their buffers; only the answer to the command
  can overrun, and only by filling the buffer completely.\<close>

lemma put_nul_ok: "0 \<le> n \<Longrightarrow> n < BUFFER_SIZE \<Longrightarrow> put_nul n = Inr ()"
  by (simp add: put_nul_def)

lemma short_recv:
  assumes "sys_recv os fd (nat BUFFER_SIZE - 1) w = (r, w')" "\<not> recv_ret r \<le> 0"
  shows "put_nul (recv_ret r) = Inr ()"
  using recv_ret_sys_recv [OF assms(1)] assms(2) by (intro put_nul_ok) (simp_all add: BUFFER_SIZE_def)

lemma short_recv_step:
  assumes "sys_recv os fd (nat BUFFER_SIZE - 1) w = (r, w')" "\<not> recv_ret r \<le> 0"
  shows "bindE (put_nul (recv_ret r)) f = f ()"
  using short_recv [OF assms] by simp

lemma qmp_session_total: "\<exists>r w'. init_qemu_qmp_session os js fd w = Inr (r, w')"
proof -
  obtain g w1 where g: "sys_recv os fd (nat BUFFER_SIZE - 1) w = (g, w1)" by fastforce
  obtain n w2 where s: "os_send os fd (json_object_to_json_string js (json_object_object_add js
      (the (json_object_new_object js)) ''execute'' (json_object_new_string js ''qmp_capabilities''))) w1 = (n, w2)"
    by fastforce
  obtain a w3 where a: "sys_recv os fd (nat BUFFER_SIZE - 1) w2 = (a, w3)" by fastforce
  note steps = short_recv_step [OF g] short_recv_step [OF a]
  show ?thesis
    unfolding init_qemu_qmp_session_def g Let_def prod.case
    by (cases "recv_ret g \<le> 0"; cases "json_object_new_object js"; cases "recv_ret a \<le> 0"; cases "n < 0";
        cases "json_tokener_parse js (c_str (the a))")
      (use s in \<open>simp_all add: steps a [unfolded One_nat_def]\<close>)
qed

lemma full_answer:
  assumes "sys_recv os fd (nat BUFFER_SIZE) w = (r, w')" "\<not> recv_ret r \<le> 0"
  shows "put_nul (recv_ret r) = (if length (the r) = nat BUFFER_SIZE then Inl OutOfBounds else Inr ())"
    and "r = Some (the r)"
  using recv_ret_sys_recv [OF assms(1)] assms(2)
  by (auto simp: put_nul_def recv_ret_def BUFFER_SIZE_def split: option.splits)

lemma send_qemu_cmd_fault:
  "send_qemu_cmd os js v cmd w = Inl e \<longleftrightarrow>
     e = OutOfBounds \<and>
     (\<exists>fd w1 r w2 n w3 bs w4.
        connect_to_socket os (fst (snprintf MAX_SOCKET_PATH (QMP_SOCKET_PREFIX @ show_int v))) w = (fd, w1) \<and> 0 \<le> fd \<and>
        init_qemu_qmp_session os js fd w1 = Inr (r, w2) \<and> 0 \<le> r \<and> os_send os fd cmd w2 = (n, w3) \<and> 0 \<le> n \<and>
        sys_recv os fd (nat BUFFER_SIZE) w3 = (Some bs, w4) \<and> length bs = nat BUFFER_SIZE)"
proof -
  obtain fd w1 where c: "connect_to_socket os (fst (snprintf MAX_SOCKET_PATH (QMP_SOCKET_PREFIX @ show_int v))) w
      = (fd, w1)" by fastforce
  obtain r w2 where i: "init_qemu_qmp_session os js fd w1 = Inr (r, w2)"
    using qmp_session_total [of os js fd w1] by (elim exE)
  obtain n w3 where s: "os_send os fd cmd w2 = (n, w3)" by fastforce
  obtain a w4 where a: "sys_recv os fd (nat BUFFER_SIZE) w3 = (a, w4)" by fastforce
  note f = full_answer [OF a]
  have "recv_ret a \<le> 0 \<Longrightarrow> a \<noteq> Some bs \<or> length bs \<noteq> nat BUFFER_SIZE" for bs
    by (auto simp: recv_ret_def BUFFER_SIZE_def)
  with f show ?thesis
    by (cases "recv_ret a \<le> 0") (auto simp: send_qemu_cmd_def c i s a case_prod_beta' Let_def)
qed

lemma qmp_execute_ret: "qmp_execute os js v c w = Inr (r, w') \<Longrightarrow> r = 0 \<or> r = -1"
  by (auto simp: qmp_execute_def bindE_eq_Inr split: option.splits if_splits)

lemma hotplug_success:
  "qemu_agent_hotplug_memory os js v req w = Inr (0, w') \<longleftrightarrow>
     (\<exists>w1. qmp_execute os js v (create_object_cmd js req) w = Inr (0, w1) \<and>
           qmp_execute os js v (add_device_cmd js req) w1 = Inr (0, w'))"
  using qmp_execute_ret
  by (fastforce simp: qemu_agent_hotplug_memory_def qemu_agent_create_object_def
      qemu_agent_add_device_def bindE_eq_Inr split: if_splits)

lemma hotunplug_success:
  "qemu_agent_hotunplug_memory os js v req w = Inr (0, w') \<longleftrightarrow>
     (\<exists>w1. qmp_execute os js v (del_device_cmd js req) w = Inr (0, w1) \<and>
           qmp_execute os js v (free_object_cmd js req) (os_usleep os 3000000 w1) = Inr (0, w'))"
  using qmp_execute_ret
  by (fastforce simp: qemu_agent_hotunplug_memory_def qemu_agent_del_device_def
      qemu_agent_free_object_def bindE_eq_Inr Let_def split: if_splits)

end
