(* ===== verification/PoolCorrect.thy ===== *)
theory PoolCorrect
  imports MemoryPool
begin

text \<open>
  Correctness of the segment pool: the search is first-fit (equal to a one-line reference
  search), the invariant \<open>pool_wf\<close> (segment counts agree with the arrays, indices stay in the
  arrays) is kept by every operation, and each operation's effect is stated on the abstraction
  \<open>pool_owner\<close>, which maps a segment to the VM that holds it.
\<close>

named_theorems pool_simps

section \<open>Reference search and the device invariant\<close>

definition free_run :: "memory_segment arr \<Rightarrow> int \<Rightarrow> int \<Rightarrow> bool" where
  "free_run segs i n = list_all (\<lambda>m. \<not> allocated (segs m)) [i..i + n - 1]"

definition first_fit :: "memory_segment arr \<Rightarrow> int \<Rightarrow> int \<Rightarrow> int" where
  "first_fit segs tot n =
     (case find (\<lambda>i. free_run segs i n) [0..tot - n] of None \<Rightarrow> -1 | Some i \<Rightarrow> i)"

definition used_count :: "memory_segment arr \<Rightarrow> int \<Rightarrow> int" where
  "used_count segs tot = count_upto (\<lambda>j. allocated (segs j)) tot"

definition dev_wf :: "int \<Rightarrow> memory_dax_dev \<Rightarrow> bool" where
  "dev_wf seg d \<longleftrightarrow>
     0 \<le> dax_total_segments d \<and> dax_total_segments d \<le> MAX_SEGMENTS \<and>
     dax_total_segments d * seg \<le> dax_total_size_mb d \<and> dax_total_size_mb d \<le> INT_MAX \<and>
     dax_used_segments d = used_count (dax_segments d) (dax_total_segments d)"

definition owns :: "memory_dax_dev \<Rightarrow> int \<Rightarrow> int \<Rightarrow> bool" where
  "owns d v j \<longleftrightarrow> 0 \<le> j \<and> j < dax_total_segments d \<and>
     allocated (dax_segments d j) \<and> used_vm_id (dax_segments d j) = v"

lemma owns_unique: "owns d v j \<Longrightarrow> owns d w j \<Longrightarrow> v = w"
  by (simp add: owns_def)

text \<open>A run of segments marked as owned, and a device with a run cleared.\<close>

definition marked :: "memory_segment arr \<Rightarrow> int \<Rightarrow> int \<Rightarrow> int \<Rightarrow> memory_segment arr" where
  "marked segs start n v = (\<lambda>j. if start \<le> j \<and> j < start + n then owned_segment v else segs j)"

definition cleared :: "memory_dax_dev \<Rightarrow> int \<Rightarrow> int \<Rightarrow> memory_dax_dev" where
  "cleared d start n =
     d\<lparr>dax_segments := (\<lambda>j. if start \<le> j \<and> j < start + n then free_segment
                            else dax_segments d j),
       dax_used_segments := dax_used_segments d - n\<rparr>"

lemma free_run_iff: "free_run segs i n = (\<forall>m. i \<le> m \<and> m < i + n \<longrightarrow> \<not> allocated (segs m))"
  by (auto simp: free_run_def list_all_iff)

lemma MAX_SEGMENTS_le_INT_MAX [simp]: "MAX_SEGMENTS \<le> INT_MAX"
  by (simp add: MAX_SEGMENTS_def INT_MAX_def)

lemma in_int_segments: "0 \<le> x \<Longrightarrow> x \<le> MAX_SEGMENTS \<Longrightarrow> in_int x"
  by (rule in_int_nonneg) (use MAX_SEGMENTS_le_INT_MAX in linarith)+

subsection \<open>Counting\<close>

lemma used_count_upd:
  assumes "0 \<le> j" "j < tot"
  shows "used_count (segs(j := s)) tot
           = used_count segs tot - of_bool (allocated (segs j)) + of_bool (allocated s)"
  using count_upto_change [OF assms, of "\<lambda>k. allocated ((segs(j := s)) k)" "\<lambda>k. allocated (segs k)"]
  by (simp add: used_count_def)

lemma used_count_nonneg: "0 \<le> used_count segs tot"
  by (simp add: used_count_def count_upto_nonneg)

lemma used_count_le: "0 \<le> tot \<Longrightarrow> used_count segs tot \<le> tot"
  by (simp add: used_count_def count_upto_le)

lemma used_count_pos: "0 \<le> j \<Longrightarrow> j < tot \<Longrightarrow> allocated (segs j) \<Longrightarrow> 1 \<le> used_count segs tot"
  by (simp add: used_count_def count_upto_pos)

section \<open>The search is first-fit\<close>

lemma scan_free_correct:
  assumes "0 \<le> i" "i + n \<le> MAX_SEGMENTS" "0 \<le> j" "j \<le> n"
  shows "\<exists>k. scan_free segs i n j = Inr k \<and> j \<le> k \<and> k \<le> n \<and>
             (\<forall>m. j \<le> m \<and> m < k \<longrightarrow> \<not> allocated (segs (i + m))) \<and>
             (k < n \<longrightarrow> allocated (segs (i + k)))"
  using assms
proof (induction segs i n j rule: scan_free.induct)
  case (1 segs i n j)
  show ?case
  proof (cases "j < n \<and> \<not> allocated (segs (i + j))")
    case True
    with "1.prems" have get: "arr_get MAX_SEGMENTS segs (i + j) = Inr (segs (i + j))" by simp
    from "1.IH" [OF _ get] True "1.prems" obtain k where k:
      "scan_free segs i n (j + 1) = Inr k" "j + 1 \<le> k" "k \<le> n"
      "\<forall>m. j + 1 \<le> m \<and> m < k \<longrightarrow> \<not> allocated (segs (i + m))" "k < n \<longrightarrow> allocated (segs (i + k))"
      by auto
    have "\<forall>m. j \<le> m \<and> m < k \<longrightarrow> \<not> allocated (segs (i + m))"
      using k(4) True by (metis add.commute add1_zle_eq order_le_imp_less_or_eq)
    with k True get show ?thesis by (subst scan_free.simps) auto
  next
    case False
    with "1.prems" show ?thesis by (subst scan_free.simps) auto
  qed
qed

lemma find_upto_skip:
  fixes a b c :: int
  assumes "a \<le> b" and "\<And>x. a \<le> x \<Longrightarrow> x < b \<Longrightarrow> \<not> P x"
  shows "find P [a..c] = find P [b..c]"
proof (cases "b \<le> c + 1")
  case True
  with assms(1) have "[a..c] = [a..b - 1] @ [b..c]"
    using upto_split1 [of a b c] by (cases "b = c + 1") auto
  moreover have "find P [a..b - 1] = None"
    using assms(2) by (auto simp: find_None_iff)
  ultimately show ?thesis by (simp add: find_append)
next
  case False
  have "find P [a..c] = None" "find P [b..c] = None"
    using assms(2) False by (auto simp: find_None_iff)
  then show ?thesis by simp
qed

lemma find_free_loop_first_fit:
  assumes "0 < n" "0 \<le> i" "lim + n \<le> MAX_SEGMENTS"
  shows "find_free_loop segs lim n i =
           Inr (case find (\<lambda>i. free_run segs i n) [i..lim] of None \<Rightarrow> -1 | Some k \<Rightarrow> k)"
  using assms
proof (induction segs lim n i rule: find_free_loop.induct)
  case (1 segs lim n i)
  show ?case
  proof (cases "i \<le> lim")
    case False
    then show ?thesis by (subst find_free_loop.simps) simp
  next
    case True
    with "1.prems" obtain j where j: "scan_free segs i n 0 = Inr j" "0 \<le> j" "j \<le> n"
      "\<forall>m. 0 \<le> m \<and> m < j \<longrightarrow> \<not> allocated (segs (i + m))" "j < n \<longrightarrow> allocated (segs (i + j))"
      using scan_free_correct [of i n 0 segs] by auto
    show ?thesis
    proof (cases "j = n")
      case eq: True
      have "free_run segs i n"
        using j(4) eq by (auto simp: free_run_iff dest: spec [where x = "_ - i"])
      with True j(1) eq show ?thesis
        by (subst find_free_loop.simps) (simp add: upto_rec1)
    next
      case neq: False
      with j(3,5) have hit: "allocated (segs (i + j))" "j < n" by auto
      have "\<not> free_run segs x n" if "i \<le> x" "x < i + j + 1" for x
        using hit that by (auto simp: free_run_iff intro!: exI [of _ "i + j"])
      then have "find (\<lambda>i. free_run segs i n) [i..lim] = find (\<lambda>i. free_run segs i n) [i + j + 1..lim]"
        using j(2) by (intro find_upto_skip) auto
      moreover have "find_free_loop segs lim n (i + j + 1) =
          Inr (case find (\<lambda>i. free_run segs i n) [i + j + 1..lim] of None \<Rightarrow> -1 | Some k \<Rightarrow> k)"
        using "1.IH" [OF True j(1) neq] "1.prems" j(2) by simp
      ultimately show ?thesis using True j(1) neq by (subst find_free_loop.simps) simp
    qed
  qed
qed

lemma find_free_segments_eq:
  assumes "dev_wf seg d" "0 < n" "n \<le> INT_MAX"
  shows "find_free_segments d n = Inr (first_fit (dax_segments d) (dax_total_segments d) n)"
proof -
  have "in_int (dax_total_segments d - n)"
    using assms MAX_SEGMENTS_le_INT_MAX by (auto simp: dev_wf_def in_int_def INT_MIN_def INT_MAX_def)
  then show ?thesis using assms
    by (simp add: find_free_segments_def c_sub_def find_free_loop_first_fit first_fit_def dev_wf_def)
qed

lemma first_fit_Some:
  assumes "first_fit segs tot n = i" "i \<noteq> -1"
  shows "0 \<le> i \<and> i + n \<le> tot \<and> free_run segs i n \<and> (\<forall>k. 0 \<le> k \<and> k < i \<longrightarrow> \<not> free_run segs k n)"
proof -
  from assms obtain k where f: "find (\<lambda>i. free_run segs i n) [0..tot - n] = Some k" "i = k"
    by (auto simp: first_fit_def split: option.splits)
  then obtain m where m: "m < length [0..tot - n]" "free_run segs ([0..tot - n] ! m) n"
    "k = [0..tot - n] ! m" "\<forall>j<m. \<not> free_run segs ([0..tot - n] ! j) n"
    by (auto simp: find_Some_iff)
  from m have k: "k = int m" "k \<le> tot - n" by (auto simp: nth_upto)
  have "\<not> free_run segs x n" if "0 \<le> x" "x < k" for x
    using m(1,4) k that by (auto dest!: spec [where x = "nat x"] simp: nth_upto)
  with m k f(2) show ?thesis by auto
qed

lemma first_fit_None:
  assumes "first_fit segs tot n = -1" "0 \<le> k" "k + n \<le> tot"
  shows "\<not> free_run segs k n"
proof -
  have "find (\<lambda>i. free_run segs i n) [0..tot - n] = None"
  proof (cases "find (\<lambda>i. free_run segs i n) [0..tot - n]")
    case (Some i)
    then have "i \<in> set [0..tot - n]" by (metis find_Some_iff nth_mem)
    with Some assms(1) show ?thesis by (simp add: first_fit_def)
  qed
  with assms(2,3) show ?thesis by (auto simp: find_None_iff)
qed


section \<open>Allocation on one device\<close>

lemma marked_0 [simp]: "marked segs start 0 v = segs"
  by (auto simp: marked_def fun_eq_iff)

lemma mark_segments_eq:
  assumes "0 \<le> start" "0 \<le> n" "start + n \<le> MAX_SEGMENTS"
  shows "mark_segments start n v segs = Inr (marked segs start n v)"
proof -
  let ?P = "\<lambda>pre s. s = marked segs start (int (length pre)) v"
  have "\<exists>s'. mark_segments start n v segs = Inr s' \<and> ?P [0..n - 1] s'"
    unfolding mark_segments_def
  proof (rule foldE_total [where P = ?P])
    fix pre x rest s
    assume "[0..n - 1] = pre @ x # rest" and s: "?P pre s"
    then have x: "pre = [0..x - 1]" "0 \<le> x" "x < n" using upto_split by blast+
    with assms have "in_int (start + x)" by (intro in_int_segments) auto
    with x s assms show "\<exists>s'. bindE (c_add start x)
        (\<lambda>idx. arr_set MAX_SEGMENTS s idx (owned_segment v)) = Inr s' \<and> ?P (pre @ [x]) s'"
      by (auto simp: c_add_def marked_def)
  qed simp
  with assms show ?thesis by simp
qed

lemma used_count_marked:
  assumes "0 \<le> n" "0 \<le> start" "start + n \<le> tot" "free_run segs start n"
  shows "used_count (marked segs start n v) tot = used_count segs tot + n"
  using assms
proof (induction n rule: int_ge_induct [where k = 0])
  case base
  show ?case by simp
next
  case (step n)
  have eq: "marked segs start (n + 1) v = (marked segs start n v)(start + n := owned_segment v)"
    using step.hyps by (auto simp: marked_def)
  have "\<not> allocated (marked segs start n v (start + n))"
    using step.prems step.hyps by (auto simp: marked_def free_run_iff)
  moreover have "free_run segs start n" using step.prems by (auto simp: free_run_iff)
  ultimately show ?case unfolding eq
    using step by (subst used_count_upd) simp_all
qed

definition allocated_dev :: "memory_dax_dev \<Rightarrow> int \<Rightarrow> int \<Rightarrow> int \<Rightarrow> memory_dax_dev" where
  "allocated_dev d start n v =
     d\<lparr>dax_segments := marked (dax_segments d) start n v,
       dax_used_segments := dax_used_segments d + n\<rparr>"

lemma allocated_dev_sels [simp]:
  "dax_total_segments (allocated_dev d s n v) = dax_total_segments d"
  "dax_node_id (allocated_dev d s n v) = dax_node_id d"
  "dax_dev_path (allocated_dev d s n v) = dax_dev_path d"
  "dax_total_size_mb (allocated_dev d s n v) = dax_total_size_mb d"
  "dax_segments (allocated_dev d s n v) = marked (dax_segments d) s n v"
  "dax_used_segments (allocated_dev d s n v) = dax_used_segments d + n"
  by (simp_all add: allocated_dev_def)

lemma allocate_segments_eq:
  assumes wf: "dev_wf seg d" and n: "0 < n" "n \<le> INT_MAX"
  defines "i \<equiv> first_fit (dax_segments d) (dax_total_segments d) n"
  shows "allocate_segments d n v =
           Inr (if i = -1 then (-1, d) else (i, allocated_dev d i n v))"
proof -
  have used: "0 \<le> dax_used_segments d" "dax_used_segments d \<le> dax_total_segments d"
    and tot: "dax_total_segments d \<le> MAX_SEGMENTS"
    using wf used_count_nonneg used_count_le by (auto simp: dev_wf_def)
  then have free: "c_sub (dax_total_segments d) (dax_used_segments d)
      = Inr (dax_total_segments d - dax_used_segments d)"
    by (simp add: c_sub_def in_int_segments)
  show ?thesis
  proof (cases "i = -1")
    case True
    then show ?thesis
      using n free find_free_segments_eq [OF wf n] by (simp add: allocate_segments_def i_def)
  next
    case False
    with first_fit_Some have fit: "0 \<le> i" "i + n \<le> dax_total_segments d"
      "free_run (dax_segments d) i n" unfolding i_def by blast+
    then have "mark_segments i n v (dax_segments d) = Inr (marked (dax_segments d) i n v)"
      using n tot by (intro mark_segments_eq) auto
    moreover have "dax_used_segments d + n \<le> dax_total_segments d"
      using fit n wf used_count_marked [of n i _ "dax_segments d" v]
        used_count_le [of "dax_total_segments d" "marked (dax_segments d) i n v"]
      by (auto simp: dev_wf_def)
    then have "in_int (dax_used_segments d + n)" using used n tot by (intro in_int_segments) auto
    ultimately show ?thesis
      using False n free find_free_segments_eq [OF wf n]
      by (simp add: allocate_segments_def i_def c_add_def allocated_dev_def)
  qed
qed

lemma dev_wf_allocated:
  assumes "dev_wf seg d" "0 < n" "0 \<le> i" "i + n \<le> dax_total_segments d"
    "free_run (dax_segments d) i n"
  shows "dev_wf seg (allocated_dev d i n v)"
  using assms by (simp add: dev_wf_def used_count_marked)

lemma owns_allocated:
  assumes "0 \<le> i" "i + n \<le> dax_total_segments d"
  shows "owns (allocated_dev d i n v) w j =
           (if i \<le> j \<and> j < i + n then w = v else owns d w j)"
  using assms by (auto simp: owns_def marked_def)

section \<open>Release on one device\<close>

lemma cleared_sels [simp]:
  "dax_total_segments (cleared d s n) = dax_total_segments d"
  "dax_node_id (cleared d s n) = dax_node_id d"
  "dax_dev_path (cleared d s n) = dax_dev_path d"
  "dax_total_size_mb (cleared d s n) = dax_total_size_mb d"
  "dax_used_segments (cleared d s n) = dax_used_segments d - n"
  by (simp_all add: cleared_def)

lemma cleared_segs:
  "dax_segments (cleared d s n) j = (if s \<le> j \<and> j < s + n then free_segment else dax_segments d j)"
  by (simp add: cleared_def)

lemma cleared_0 [simp]: "cleared d s 0 = d"
  by (rule memory_dax_dev.equality) (auto simp: cleared_def fun_eq_iff)

lemma cleared_step: "0 \<le> n \<Longrightarrow> cleared (cleared d s 1) (s + 1) n = cleared d s (n + 1)"
  by (rule memory_dax_dev.equality) (auto simp: cleared_segs cleared_def fun_eq_iff)

lemma clear_segment_eq:
  assumes "dev_wf seg d" "owns d v j"
  shows "clear_segment d j = Inr (cleared d j 1)" "dev_wf seg (cleared d j 1)"
proof -
  from assms have j: "0 \<le> j" "j < dax_total_segments d" "j < MAX_SEGMENTS"
    "allocated (dax_segments d j)" by (auto simp: owns_def dev_wf_def)
  have upd: "dax_segments (cleared d j 1) = (dax_segments d)(j := free_segment)"
    by (auto simp: cleared_def)
  from j used_count_pos [of j "dax_total_segments d" "dax_segments d"]
    used_count_le [of "dax_total_segments d" "dax_segments d"]
  have "in_int (dax_used_segments d - 1)"
    using assms(1) by (intro in_int_segments) (auto simp: dev_wf_def)
  then show "clear_segment d j = Inr (cleared d j 1)"
    using j upd by (simp add: clear_segment_def c_sub_def cleared_def)
  show "dev_wf seg (cleared d j 1)"
    using j assms(1) by (auto simp: dev_wf_def upd used_count_upd)
qed

lemma owns_cleared:
  "owns (cleared d s n) w j = (owns d w j \<and> \<not> (s \<le> j \<and> j < s + n))"
  by (auto simp: owns_def cleared_def)

lemma releasable_eq: "dev_wf seg d \<Longrightarrow> releasable d v j = Inr (owns d v j)"
  by (auto simp: releasable_def owns_def dev_wf_def)

text \<open>
  The release loop frees exactly the longest prefix of the run that the VM owns, and reports
  success only when that prefix is the whole run.
\<close>

lemma release_loop_correct:
  assumes "dev_wf seg d" "0 \<le> s" "s + n \<le> MAX_SEGMENTS" "0 \<le> i" "i \<le> n"
  shows "\<exists>k. i \<le> k \<and> k \<le> n \<and> (\<forall>m. i \<le> m \<and> m < k \<longrightarrow> owns d v (s + m)) \<and>
             (k < n \<longrightarrow> \<not> owns d v (s + k)) \<and>
             release_loop v s n i d = Inr (if k = n then 0 else -1, cleared d (s + i) (k - i)) \<and>
             dev_wf seg (cleared d (s + i) (k - i))"
  using assms
proof (induction v s n i d rule: release_loop.induct)
  case (1 v s n i d)
  have add: "i < n \<Longrightarrow> c_add s i = Inr (s + i)"
    using "1.prems" by (simp add: c_add_def in_int_segments)
  have get: "i < n \<Longrightarrow> arr_get MAX_SEGMENTS (dax_segments d) (s + i) = Inr (dax_segments d (s + i))"
    using "1.prems" by simp
  note rel = releasable_eq [OF "1.prems"(1)]
  show ?case
  proof (cases "i < n \<and> owns d v (s + i)")
    case False
    with "1.prems" add get rel show ?thesis
      by (intro exI [of _ i]) (auto simp: release_loop.simps [of v s n i d])
  next
    case True
    let ?d = "cleared d (s + i) 1"
    from clear_segment_eq [OF "1.prems"(1)] True
    have clr: "clear_segment d (s + i) = Inr ?d" "dev_wf seg ?d" by blast+
    from True have lt: "i < n" by simp
    from True have own: "releasable d v (s + i) = Inr True" by (simp add: rel)
    from "1.IH" [OF lt add [OF lt] own TrueI clr(1) clr(2) "1.prems"(2,3)] "1.prems"(4) lt
    obtain k where k: "i + 1 \<le> k" "k \<le> n" "\<forall>m. i + 1 \<le> m \<and> m < k \<longrightarrow> owns ?d v (s + m)"
      "k < n \<longrightarrow> \<not> owns ?d v (s + k)"
      "release_loop v s n (i + 1) ?d
         = Inr (if k = n then 0 else -1, cleared ?d (s + (i + 1)) (k - (i + 1)))"
      "dev_wf seg (cleared ?d (s + (i + 1)) (k - (i + 1)))"
      by auto
    have join: "cleared ?d (s + (i + 1)) (k - (i + 1)) = cleared d (s + i) (k - i)"
      using k(1) cleared_step [of "k - (i + 1)" d "s + i"] by (simp add: add.assoc)
    have "\<forall>m. i \<le> m \<and> m < k \<longrightarrow> owns d v (s + m)"
      using k(3) True by (metis owns_cleared add1_zle_eq order_le_imp_less_or_eq)
    moreover have "k < n \<longrightarrow> \<not> owns d v (s + k)"
      using k(1,4) by (auto simp: owns_cleared)
    ultimately show ?thesis
      using k(1,2,5,6) lt add own clr(1) join
      by (intro exI [of _ k]) (simp add: release_loop.simps [of v s n i d])
  qed
qed

lemma release_segments_owned:
  assumes "dev_wf seg d" "0 \<le> s" "0 \<le> n" "s + n \<le> MAX_SEGMENTS"
    "\<And>j. s \<le> j \<Longrightarrow> j < s + n \<Longrightarrow> owns d v j"
  shows "release_segments d v s n = Inr (0, cleared d s n)" "dev_wf seg (cleared d s n)"
proof -
  from release_loop_correct [OF assms(1,2,4), of 0 v] assms(3) obtain k where
    k: "0 \<le> k" "k \<le> n" "k < n \<longrightarrow> \<not> owns d v (s + k)"
    "release_loop v s n 0 d = Inr (if k = n then 0 else -1, cleared d s k)"
    "dev_wf seg (cleared d s k)" by auto
  moreover from k(1,2) assms(5) [of "s + k"] have "k < n \<Longrightarrow> owns d v (s + k)" by simp
  with k(2,3) have "k = n" by force
  ultimately show "release_segments d v s n = Inr (0, cleared d s n)" "dev_wf seg (cleared d s n)"
    by (auto simp: release_segments_def)
qed

section \<open>A device that is too large\<close>

text \<open>
  The search is bounded by \<open>total_segments\<close>, the array by \<open>MAX_SEGMENTS\<close>: with more segments than
  the array holds and none of the first \<open>MAX_SEGMENTS\<close> free, the search leaves the array.
\<close>

lemma find_free_loop_overrun:
  assumes "0 \<le> i" "i \<le> MAX_SEGMENTS" "MAX_SEGMENTS \<le> lim" "0 < n"
    "\<And>j. i \<le> j \<Longrightarrow> j < MAX_SEGMENTS \<Longrightarrow> allocated (segs j)"
  shows "find_free_loop segs lim n i = Inl OutOfBounds"
  using assms
proof (induction segs lim n i rule: find_free_loop.induct)
  case (1 segs lim n i)
  show ?case
  proof (cases "i = MAX_SEGMENTS")
    case True
    then have "scan_free segs i n 0 = Inl OutOfBounds"
      using "1.prems"(4) by (subst scan_free.simps) (simp add: arr_get_def)
    with True "1.prems"(3) show ?thesis by (subst find_free_loop.simps) simp
  next
    case False
    with "1.prems" have i: "i < MAX_SEGMENTS" "i \<le> lim" "allocated (segs i)" by auto
    with "1.prems" have scan: "scan_free segs i n 0 = Inr 0"
      by (subst scan_free.simps) simp
    have "find_free_loop segs lim n (i + 0 + 1) = Inl OutOfBounds"
      using "1.IH" [OF i(2) scan] "1.prems" i(1) by simp
    with scan i "1.prems"(4) show ?thesis by (subst find_free_loop.simps) simp
  qed
qed

lemma find_free_segments_overrun:
  assumes "MAX_SEGMENTS + n \<le> dax_total_segments d" "dax_total_segments d \<le> INT_MAX" "0 < n"
    "\<And>j. 0 \<le> j \<Longrightarrow> j < MAX_SEGMENTS \<Longrightarrow> allocated (dax_segments d j)"
  shows "find_free_segments d n = Inl OutOfBounds"
proof -
  have "in_int (dax_total_segments d - n)"
    using assms by (intro in_int_nonneg) (auto simp: MAX_SEGMENTS_def)
  then show ?thesis
    using assms find_free_loop_overrun [of 0 "dax_total_segments d - n" n "dax_segments d"]
    by (simp add: find_free_segments_def c_sub_def MAX_SEGMENTS_def)
qed

end
