(* ===== verification/SegmentAllocator.thy ===== *)
theory SegmentAllocator
  imports Prelude
begin

text \<open>
  The contract between the VM manager and the memory pool.  The client holds a ledger: for each
  VM and each device index it gave out, the request the pool granted.  The locale states what the
  pool promises of each call; from these laws alone the ledger stays exact: every segment owned
  by a VM is covered by exactly one entry of that VM, and nothing else is owned.
\<close>

type_synonym 'r ledger = "int \<times> int \<rightharpoonup> 'r"

definition ledger_exact ::
    "('x \<Rightarrow> int option) \<Rightarrow> ('r \<Rightarrow> 'x set) \<Rightarrow> 'r ledger \<Rightarrow> bool" where
  "ledger_exact own spn L \<longleftrightarrow>
     (\<forall>v i r x. L (v, i) = Some r \<longrightarrow> x \<in> spn r \<longrightarrow> own x = Some v) \<and>
     (\<forall>k k' r r'. L k = Some r \<longrightarrow> L k' = Some r' \<longrightarrow> k \<noteq> k' \<longrightarrow> spn r \<inter> spn r' = {}) \<and>
     (\<forall>x v. own x = Some v \<longrightarrow> (\<exists>i r. L (v, i) = Some r \<and> x \<in> spn r))"

lemma ledger_exactI:
  assumes "\<And>v i r x. L (v, i) = Some r \<Longrightarrow> x \<in> spn r \<Longrightarrow> own x = Some v"
    and "\<And>k k' r r'. L k = Some r \<Longrightarrow> L k' = Some r' \<Longrightarrow> k \<noteq> k' \<Longrightarrow> spn r \<inter> spn r' = {}"
    and "\<And>x v. own x = Some v \<Longrightarrow> \<exists>i r. L (v, i) = Some r \<and> x \<in> spn r"
  shows "ledger_exact own spn L"
  using assms unfolding ledger_exact_def by blast

lemma ledger_exactD:
  assumes "ledger_exact own spn L"
  shows ledger_owned: "L (v, i) = Some r \<Longrightarrow> x \<in> spn r \<Longrightarrow> own x = Some v"
    and ledger_disjoint: "L k = Some r \<Longrightarrow> L k' = Some r' \<Longrightarrow> k \<noteq> k' \<Longrightarrow> spn r \<inter> spn r' = {}"
    and ledger_covered: "own x = Some v \<Longrightarrow> \<exists>i r. L (v, i) = Some r \<and> x \<in> spn r"
  using assms unfolding ledger_exact_def by blast+

definition ledger_inv ::
    "('p \<Rightarrow> bool) \<Rightarrow> ('p \<Rightarrow> 'x \<Rightarrow> int option) \<Rightarrow> ('p \<Rightarrow> 'r \<Rightarrow> 'x set) \<Rightarrow> ('p \<Rightarrow> 'r \<Rightarrow> bool) \<Rightarrow>
      'p \<Rightarrow> 'r ledger \<Rightarrow> bool" where
  "ledger_inv winv own spn valid p L \<longleftrightarrow>
     winv p \<and> (\<forall>k r. L k = Some r \<longrightarrow> valid p r) \<and> ledger_exact (own p) (spn p) L"

locale segment_allocator =
  fixes winv :: "'p \<Rightarrow> bool"
    and own :: "'p \<Rightarrow> 'x \<Rightarrow> int option"
    and spn :: "'p \<Rightarrow> 'r \<Rightarrow> 'x set"
    and valid :: "'p \<Rightarrow> 'r \<Rightarrow> bool"
    and alloc :: "int \<Rightarrow> int \<Rightarrow> int \<Rightarrow> 'p \<Rightarrow> ('r option \<times> 'p) res"
    and release :: "int \<Rightarrow> 'r \<Rightarrow> 'p \<Rightarrow> (int \<times> 'p) res"
    and release_vm :: "int \<Rightarrow> 'p \<Rightarrow> 'p res"
  assumes alloc_total: "winv p \<Longrightarrow> 0 < sz \<Longrightarrow> sz \<le> INT_MAX \<Longrightarrow> \<exists>out. alloc nid v sz p = Inr out"
    and alloc_None: "winv p \<Longrightarrow> 0 < sz \<Longrightarrow> sz \<le> INT_MAX \<Longrightarrow> alloc nid v sz p = Inr (None, p') \<Longrightarrow> p' = p"
    and alloc_frame: "winv p \<Longrightarrow> 0 < sz \<Longrightarrow> sz \<le> INT_MAX \<Longrightarrow> alloc nid v sz p = Inr (Some r, p') \<Longrightarrow>
          winv p' \<and> spn p' = spn p \<and> valid p' = valid p \<and> valid p r"
    and alloc_fresh: "winv p \<Longrightarrow> 0 < sz \<Longrightarrow> sz \<le> INT_MAX \<Longrightarrow> alloc nid v sz p = Inr (Some r, p') \<Longrightarrow>
          x \<in> spn p r \<Longrightarrow> own p x = None"
    and alloc_own: "winv p \<Longrightarrow> 0 < sz \<Longrightarrow> sz \<le> INT_MAX \<Longrightarrow> alloc nid v sz p = Inr (Some r, p') \<Longrightarrow>
          own p' x = (if x \<in> spn p r then Some v else own p x)"
    and release_owned: "winv p \<Longrightarrow> valid p r \<Longrightarrow> (\<And>x. x \<in> spn p r \<Longrightarrow> own p x = Some v) \<Longrightarrow>
          \<exists>p'. release v r p = Inr (0, p') \<and> winv p' \<and> spn p' = spn p \<and> valid p' = valid p \<and>
               own p' = (\<lambda>x. if x \<in> spn p r then None else own p x)"
    and release_vm_all: "winv p \<Longrightarrow>
          \<exists>p'. release_vm v p = Inr p' \<and> winv p' \<and> spn p' = spn p \<and> valid p' = valid p \<and>
               own p' = (\<lambda>x. if own p x = Some v then None else own p x)"
begin

text \<open>A granted request enters the ledger under a fresh key of its VM.\<close>

lemma ledger_alloc:
  assumes ok: "ledger_inv winv own spn valid p L" and sz: "0 < sz" "sz \<le> INT_MAX"
    and run: "alloc nid v sz p = Inr (Some r, p')" and fresh: "L (v, i) = None"
  shows "ledger_inv winv own spn valid p' (L((v, i) \<mapsto> r))"
proof -
  from ok have winv: "winv p" and ex: "ledger_exact (own p) (spn p) L"
    and val: "\<And>k r. L k = Some r \<Longrightarrow> valid p r" by (auto simp: ledger_inv_def)
  note frame = alloc_frame [OF winv sz run] and free = alloc_fresh [OF winv sz run]
    and own = alloc_own [OF winv sz run]
  have apart: "spn p r \<inter> spn p r' = {}" if "L k = Some r'" for k r'
    using that free ledger_owned [OF ex, of "fst k" "snd k" r'] by fastforce
  have "ledger_exact (own p') (spn p') (L((v, i) \<mapsto> r))"
  proof (rule ledger_exactI)
    fix w j s x assume "(L((v, i) \<mapsto> r)) (w, j) = Some s" "x \<in> spn p' s"
    then show "own p' x = Some w"
      using frame own apart ledger_owned [OF ex] by (fastforce split: if_splits)
  next
    fix k k' s s' assume "(L((v, i) \<mapsto> r)) k = Some s" "(L((v, i) \<mapsto> r)) k' = Some s'" "k \<noteq> k'"
    then show "spn p' s \<inter> spn p' s' = {}"
      using frame apart [of k s] apart [of k' s'] ledger_disjoint [OF ex, of k s k' s']
      by (auto split: if_splits)
  next
    fix x w assume "own p' x = Some w"
    then show "\<exists>j s. (L((v, i) \<mapsto> r)) (w, j) = Some s \<and> x \<in> spn p' s"
      using frame own fresh ledger_covered [OF ex, of x w]
      by (cases "x \<in> spn p r") (auto, metis option.distinct(1))
  qed
  with frame val show ?thesis by (auto simp: ledger_inv_def)
qed

text \<open>A release of a ledger entry always succeeds, and the entry leaves the ledger.\<close>

lemma ledger_release:
  assumes ok: "ledger_inv winv own spn valid p L" and entry: "L (v, i) = Some r"
  shows "\<exists>p'. release v r p = Inr (0, p') \<and> ledger_inv winv own spn valid p' (L((v, i) := None))"
proof -
  from ok have winv: "winv p" and ex: "ledger_exact (own p) (spn p) L"
    and val: "\<And>k r. L k = Some r \<Longrightarrow> valid p r" by (auto simp: ledger_inv_def)
  from release_owned [OF winv val [OF entry] ledger_owned [OF ex entry]] obtain p' where
    p': "release v r p = Inr (0, p')" "winv p'" "spn p' = spn p" "valid p' = valid p"
      "own p' = (\<lambda>x. if x \<in> spn p r then None else own p x)" by blast
  have "ledger_exact (own p') (spn p') (L((v, i) := None))"
  proof (rule ledger_exactI)
    fix w j s x assume "(L((v, i) := None)) (w, j) = Some s" "x \<in> spn p' s"
    then show "own p' x = Some w"
      using p'(3,5) entry ledger_disjoint [OF ex entry, of "(w, j)" s] ledger_owned [OF ex]
      by (fastforce split: if_splits)
  next
    fix k k' s s' assume "(L((v, i) := None)) k = Some s" "(L((v, i) := None)) k' = Some s'" "k \<noteq> k'"
    then show "spn p' s \<inter> spn p' s' = {}"
      using p'(3) ledger_disjoint [OF ex, of k s k' s'] by (auto split: if_splits)
  next
    fix x w assume "own p' x = Some w"
    then have "x \<notin> spn p r" "own p x = Some w" using p'(5) by (auto split: if_splits)
    with ledger_covered [OF ex] obtain j s where "L (w, j) = Some s" "x \<in> spn p s" by blast
    with \<open>x \<notin> spn p r\<close> entry have "(L((v, i) := None)) (w, j) = Some s" by auto
    with \<open>x \<in> spn p s\<close> p'(3) show "\<exists>j s. (L((v, i) := None)) (w, j) = Some s \<and> x \<in> spn p' s"
      by (intro exI [of _ j] exI [of _ s]) simp
  qed
  with p' val show ?thesis by (auto simp: ledger_inv_def)
qed

text \<open>Releasing a VM drops all its entries and no others.\<close>

lemma ledger_release_vm:
  assumes ok: "ledger_inv winv own spn valid p L"
  shows "\<exists>p'. release_vm v p = Inr p' \<and> ledger_inv winv own spn valid p' (\<lambda>k. if fst k = v then None else L k)"
proof -
  from ok have winv: "winv p" and ex: "ledger_exact (own p) (spn p) L"
    and val: "\<And>k r. L k = Some r \<Longrightarrow> valid p r" by (auto simp: ledger_inv_def)
  from release_vm_all [OF winv] obtain p' where
    p': "release_vm v p = Inr p'" "winv p'" "spn p' = spn p" "valid p' = valid p"
      "own p' = (\<lambda>x. if own p x = Some v then None else own p x)" by blast
  have "ledger_exact (own p') (spn p') (\<lambda>k. if fst k = v then None else L k)"
  proof (rule ledger_exactI)
    fix w j s x assume "(if fst (w, j) = v then None else L (w, j)) = Some s" "x \<in> spn p' s"
    then show "own p' x = Some w"
      using p'(3,5) ledger_owned [OF ex, of w j s x] by (auto split: if_splits)
  next
    fix k k' s s'
    assume "(if fst k = v then None else L k) = Some s"
      "(if fst k' = v then None else L k') = Some s'" "k \<noteq> k'"
    then show "spn p' s \<inter> spn p' s' = {}"
      using p'(3) ledger_disjoint [OF ex, of k s k' s'] by (auto split: if_splits)
  next
    fix x w assume "own p' x = Some w"
    then show "\<exists>j s. (if fst (w, j) = v then None else L (w, j)) = Some s \<and> x \<in> spn p' s"
      using p'(3,5) ledger_covered [OF ex, of x w] by (auto split: if_splits)
  qed
  with p' val show ?thesis by (auto simp: ledger_inv_def)
qed

text \<open>No entry of a VM means that the VM owns nothing; two VMs never share a segment.\<close>

lemma ledger_no_entry: "ledger_inv winv own spn valid p L \<Longrightarrow> (\<And>i. L (v, i) = None) \<Longrightarrow> own p x \<noteq> Some v"
  by (auto simp: ledger_inv_def dest: ledger_covered)

lemma ledger_isolated:
  "ledger_inv winv own spn valid p L \<Longrightarrow> L (v, i) = Some r \<Longrightarrow> L (w, j) = Some s \<Longrightarrow> v \<noteq> w \<or> i \<noteq> j \<Longrightarrow>
     spn p r \<inter> spn p s = {}"
  by (auto simp: ledger_inv_def dest: ledger_disjoint)

end

end
