(* ===== verification/Pool.thy ===== *)
theory Pool
  imports PoolCorrect SegmentAllocator
begin

text \<open>
  The pool as a whole: the invariant \<open>pool_wf\<close>, the owner of each segment, the segments a
  request covers, the effect of the exported operations of \<open>src/memory_pool.c\<close> on them, and
  the interpretation of the contract \<open>segment_allocator\<close> on the code's operations.
\<close>

section \<open>Invariant and abstraction\<close>

definition pool_wf :: "memory_pool \<Rightarrow> bool" where
  "pool_wf p \<longleftrightarrow>
     0 < g_segment_size_mb p \<and> g_segment_size_mb p \<le> INT_MAX \<and>
     int (length (g_mem_devs p)) \<le> MAX_DEVICES \<and>
     list_all (dev_wf (g_segment_size_mb p)) (g_mem_devs p) \<and>
     map dax_node_id (g_mem_devs p) = [0..int (length (g_mem_devs p)) - 1]"

type_synonym seg_id = "int \<times> int"

definition pool_owner :: "memory_pool \<Rightarrow> seg_id \<Rightarrow> int option" where
  "pool_owner p x =
     (let (nid, j) = x in
      if 0 \<le> nid \<and> nat nid < length (g_mem_devs p) then
        let d = g_mem_devs p ! nat nid; s = dax_segments d j in
        if 0 \<le> j \<and> j < dax_total_segments d \<and> allocated s then Some (used_vm_id s) else None
      else None)"

definition req_span :: "memory_pool \<Rightarrow> memory_request \<Rightarrow> seg_id set" where
  "req_span p r =
     Pair (req_node_id r) `
       {req_offset_mb r div g_segment_size_mb p ..<
        (req_offset_mb r + req_size_mb r) div g_segment_size_mb p}"

definition req_valid :: "memory_pool \<Rightarrow> memory_request \<Rightarrow> bool" where
  "req_valid p r \<longleftrightarrow>
     (let seg = g_segment_size_mb p; nid = req_node_id r in
      0 \<le> nid \<and> nat nid < length (g_mem_devs p) \<and>
      0 \<le> req_offset_mb r \<and> seg dvd req_offset_mb r \<and> req_offset_mb r \<le> INT_MAX \<and>
      0 < req_size_mb r \<and> seg dvd req_size_mb r \<and> req_size_mb r \<le> INT_MAX \<and>
      (req_offset_mb r + req_size_mb r) div seg \<le> map dax_total_segments (g_mem_devs p) ! nat nid)"

text \<open>A free run of \<open>n\<close> segments at \<open>k\<close> on the device of a node.\<close>

definition fits_at :: "memory_pool \<Rightarrow> int \<Rightarrow> int \<Rightarrow> int \<Rightarrow> bool" where
  "fits_at p node n k \<longleftrightarrow>
     0 \<le> node \<and> nat node < length (g_mem_devs p) \<and>
     0 \<le> k \<and> k + n \<le> dax_total_segments (g_mem_devs p ! nat node) \<and>
     (\<forall>j. k \<le> j \<and> j < k + n \<longrightarrow> \<not> allocated (dax_segments (g_mem_devs p ! nat node) j))"

lemma pool_owner_iff:
  "pool_owner p (nid, j) = Some v \<longleftrightarrow>
     0 \<le> nid \<and> nat nid < length (g_mem_devs p) \<and> owns (g_mem_devs p ! nat nid) v j"
  by (auto simp: pool_owner_def owns_def Let_def)

lemma pool_owner_eqI:
  assumes "\<And>nid j v. pool_owner p (nid, j) = Some v \<longleftrightarrow> f (nid, j) = Some v"
  shows "pool_owner p = f"
proof
  fix x :: seg_id
  obtain nid j where x: "x = (nid, j)" by (cases x)
  have "pool_owner p x = Some v \<longleftrightarrow> f x = Some v" for v using assms x by simp
  then show "pool_owner p x = f x" by (cases "f x"; cases "pool_owner p x") auto
qed

lemma pool_wfD:
  assumes "pool_wf p"
  shows pool_seg_pos: "0 < g_segment_size_mb p"
    and pool_seg_int: "g_segment_size_mb p \<le> INT_MAX"
    and pool_dev_wf: "k < length (g_mem_devs p) \<Longrightarrow> dev_wf (g_segment_size_mb p) (g_mem_devs p ! k)"
    and pool_node_ids: "map dax_node_id (g_mem_devs p) = [0..int (length (g_mem_devs p)) - 1]"
  using assms by (auto simp: pool_wf_def list_all_length)

lemma find_dev_ids:
  assumes "map dax_node_id ds = [k..k + int (length ds) - 1]"
  shows "find_dev nid ds = (if k \<le> nid \<and> nid < k + int (length ds) then Some (nat (nid - k)) else None)"
  using assms
proof (induction ds arbitrary: k)
  case Nil
  then show ?case by simp
next
  case (Cons d ds)
  have "[k..k + int (length (d # ds)) - 1] = k # [k + 1..k + 1 + int (length ds) - 1]"
    by (subst upto_rec1) (auto simp: algebra_simps)
  with Cons.prems have d: "dax_node_id d = k"
    and ds: "map dax_node_id ds = [k + 1..k + 1 + int (length ds) - 1]" by simp_all
  show ?case using Cons.IH [OF ds] d by (auto simp: Suc_nat_eq_nat_zadd1 algebra_simps)
qed

lemma find_dev_pool:
  assumes "pool_wf p"
  shows "find_dev nid (g_mem_devs p) =
           (if 0 \<le> nid \<and> nat nid < length (g_mem_devs p) then Some (nat nid) else None)"
proof -
  have "find_dev nid (g_mem_devs p) =
      (if 0 \<le> nid \<and> nid < 0 + int (length (g_mem_devs p)) then Some (nat (nid - 0)) else None)"
    using pool_node_ids [OF assms] by (intro find_dev_ids) simp
  then show ?thesis by auto
qed

lemma is_aligned_eq:
  "0 < seg \<Longrightarrow> val \<le> INT_MAX \<Longrightarrow> is_aligned val seg = Inr (0 \<le> val \<and> seg dvd val)"
  by (simp add: is_aligned_def c_mod_nonneg dvd_eq_mod_eq_0)

lemma allocate_zero_aborts:
  assumes "pool_wf p" "0 \<le> nid" "nat nid < length (g_mem_devs p)"
  shows "memory_pool_allocate_segments nid v 0 p = Inl Aborted"
  using assms pool_seg_pos [OF assms(1)]
  by (simp add: memory_pool_allocate_segments_def is_aligned_eq find_dev_pool c_div_nonneg
      allocate_segments_def INT_MAX_def BUG_ON_def)

text \<open>Replacing one device by one of the same shape.\<close>

definition same_shape :: "memory_dax_dev \<Rightarrow> memory_dax_dev \<Rightarrow> bool" where
  "same_shape d d' \<longleftrightarrow> dax_node_id d' = dax_node_id d \<and> dax_total_segments d' = dax_total_segments d"

lemma same_shape_simps [simp]:
  "same_shape d (allocated_dev d i n v)" "same_shape d (cleared d i n)" "same_shape d d"
  by (simp_all add: same_shape_def)

lemma map_update_same: "k < length xs \<Longrightarrow> f y = f (xs ! k) \<Longrightarrow> map f (xs[k := y]) = map f xs"
  by (simp add: map_update list_update_same_conv)

lemma pool_update:
  assumes "pool_wf p" "k < length (g_mem_devs p)" "same_shape (g_mem_devs p ! k) d"
    "dev_wf (g_segment_size_mb p) d"
  defines "p' \<equiv> p\<lparr>g_mem_devs := (g_mem_devs p)[k := d]\<rparr>"
  shows "pool_wf p'" and "req_span p' = req_span p" and "req_valid p' = req_valid p"
proof -
  have "map dax_total_segments ((g_mem_devs p)[k := d]) = map dax_total_segments (g_mem_devs p)"
    "map dax_node_id ((g_mem_devs p)[k := d]) = map dax_node_id (g_mem_devs p)"
    using assms by (auto intro!: map_update_same simp: same_shape_def)
  with assms show "pool_wf p'" "req_span p' = req_span p" "req_valid p' = req_valid p"
    by (auto simp: pool_wf_def req_span_def req_valid_def fun_eq_iff Let_def list_all_length nth_list_update)
qed

lemma pool_owner_update:
  assumes "k < length (g_mem_devs p)"
  shows "pool_owner (p\<lparr>g_mem_devs := (g_mem_devs p)[k := d]\<rparr>) (nid, j) = Some v \<longleftrightarrow>
           (if nid = int k then owns d v j else pool_owner p (nid, j) = Some v)"
  using assms by (auto simp: pool_owner_iff nth_list_update)

text \<open>A change of one device that gives a run of segments to one owner, or to nobody.\<close>

lemma pool_owner_run:
  assumes "0 \<le> nid" "nat nid < length (g_mem_devs p)"
    "\<And>w j. owns d w j \<longleftrightarrow> (if i \<le> j \<and> j < i + n then y = Some w else owns (g_mem_devs p ! nat nid) w j)"
  shows "pool_owner (p\<lparr>g_mem_devs := (g_mem_devs p)[nat nid := d]\<rparr>) =
    (\<lambda>x. if x \<in> Pair nid ` {i ..< i + n} then y else pool_owner p x)"
proof (rule pool_owner_eqI)
  fix mid j w
  show "pool_owner (p\<lparr>g_mem_devs := (g_mem_devs p)[nat nid := d]\<rparr>) (mid, j) = Some w \<longleftrightarrow>
      (if (mid, j) \<in> Pair nid ` {i ..< i + n} then y else pool_owner p (mid, j)) = Some w"
    unfolding pool_owner_update [OF assms(2)] using assms by (auto simp: pool_owner_iff)
qed

section \<open>Allocation\<close>

lemma memory_pool_allocate_eq:
  fixes nid v sz :: int
  assumes wf: "pool_wf p" and sz: "0 < sz" "sz \<le> INT_MAX"
  defines "seg \<equiv> g_segment_size_mb p" and "d \<equiv> g_mem_devs p ! nat nid"
  defines "n \<equiv> sz div seg"
  defines "i \<equiv> first_fit (dax_segments d) (dax_total_segments d) n"
  shows "memory_pool_allocate_segments nid v sz p =
     Inr (if seg dvd sz \<and> 0 \<le> nid \<and> nat nid < length (g_mem_devs p) \<and> i \<noteq> -1 then
            (Some \<lparr>req_node_id = nid,
                   req_dev_path = take 63 (dax_dev_path d),
                   req_offset_mb = i * seg, req_size_mb = sz, req_align_mb = seg\<rparr>,
             p\<lparr>g_mem_devs := (g_mem_devs p)[nat nid := allocated_dev d i n v]\<rparr>)
          else (None, p))"
proof (cases "seg dvd sz \<and> 0 \<le> nid \<and> nat nid < length (g_mem_devs p)")
  case False
  then show ?thesis
    using wf sz by (auto simp: memory_pool_allocate_segments_def is_aligned_eq pool_seg_pos
        find_dev_pool seg_def Let_def)
next
  case True
  have seg: "0 < seg" using wf by (simp add: seg_def pool_seg_pos)
  have dwf: "dev_wf seg d" using wf True by (simp add: seg_def d_def pool_dev_wf)
  have n: "0 < n" "n * seg = sz" using True sz seg by (auto simp: n_def zero_less_mult_iff)
  have n_le: "n \<le> INT_MAX"
    using n seg sz mult_left_mono [of 1 seg n] by auto
  have div: "c_div sz seg = Inr n" using sz seg by (simp add: c_div_nonneg n_def)
  have al: "is_aligned sz seg = Inr True" using True sz seg by (simp add: is_aligned_eq)
  note alloc = allocate_segments_eq [OF dwf n(1) n_le, of v, folded i_def]
  show ?thesis
  proof (cases "i = -1")
    case none: True
    with alloc have "allocate_segments d n v = Inr (-1, d)" by simp
    moreover have "p\<lparr>g_mem_devs := (g_mem_devs p)[nat nid := d]\<rparr> = p" by (simp add: d_def)
    ultimately show ?thesis using True none wf al div
      by (simp add: memory_pool_allocate_segments_def find_dev_pool seg_def [symmetric] d_def [symmetric])
  next
    case some: False
    then have i: "0 \<le> i" "i + n \<le> dax_total_segments d"
      using first_fit_Some [of "dax_segments d" "dax_total_segments d" n i] by (auto simp: i_def)
    have "i * seg \<le> dax_total_segments d * seg" using i n(1) seg by (intro mult_right_mono) auto
    with dwf have "i * seg \<le> INT_MAX" unfolding dev_wf_def by linarith
    with i seg have "in_int (i * seg)" by (intro in_int_nonneg) auto
    moreover have "in_int (n * seg)" using n sz by (intro in_int_nonneg) auto
    ultimately show ?thesis using True some i wf al div alloc n(2)
      by (simp add: memory_pool_allocate_segments_def find_dev_pool seg_def [symmetric]
          d_def [symmetric] c_mul_def snprintf_def DEV_PATH_LEN_def Let_def)
  qed
qed

text \<open>Seen from the pool: the lowest free run, or nothing when there is none.\<close>

lemma allocate_first_fit:
  assumes "pool_wf p" "0 < size_mb" "size_mb \<le> INT_MAX"
  shows "\<exists>r p'. memory_pool_allocate_segments node v size_mb p = Inr (r, p') \<and>
           (let seg = g_segment_size_mb p; n = size_mb div seg in
            case r of
              None \<Rightarrow> p' = p \<and> (\<not> seg dvd size_mb \<or> (\<forall>k. \<not> fits_at p node n k))
            | Some q \<Rightarrow>
                seg dvd size_mb \<and>
                (\<exists>k. fits_at p node n k \<and> (\<forall>j. j < k \<longrightarrow> \<not> fits_at p node n j) \<and>
                     q = \<lparr>req_node_id = node,
                          req_dev_path = take 63 (dax_dev_path (g_mem_devs p ! nat node)),
                          req_offset_mb = k * seg, req_size_mb = size_mb, req_align_mb = seg\<rparr>))"
proof -
  let ?d = "g_mem_devs p ! nat node" and ?n = "size_mb div g_segment_size_mb p"
  let ?i = "first_fit (dax_segments ?d) (dax_total_segments ?d) ?n"
  have fits: "fits_at p node ?n k \<longleftrightarrow> 0 \<le> node \<and> nat node < length (g_mem_devs p) \<and>
      0 \<le> k \<and> k + ?n \<le> dax_total_segments ?d \<and> free_run (dax_segments ?d) k ?n" for k
    by (simp add: fits_at_def free_run_iff)
  note eq = memory_pool_allocate_eq [OF assms, of node v]
  show ?thesis
  proof (cases "g_segment_size_mb p dvd size_mb \<and> 0 \<le> node \<and> nat node < length (g_mem_devs p) \<and> ?i \<noteq> -1")
    case True
    then have "fits_at p node ?n ?i" "\<forall>j. j < ?i \<longrightarrow> \<not> fits_at p node ?n j"
      using first_fit_Some [of "dax_segments ?d" "dax_total_segments ?d" ?n ?i] fits by auto
    then show ?thesis using eq True by (auto simp: Let_def)
  next
    case False
    then have "\<not> g_segment_size_mb p dvd size_mb \<or> \<not> fits_at p node ?n k" for k
      using first_fit_None [of "dax_segments ?d" "dax_total_segments ?d" ?n k] fits by auto
    moreover have "memory_pool_allocate_segments node v size_mb p = Inr (None, p)"
      using eq False by (simp only: if_False)
    ultimately show ?thesis by (auto simp: Let_def)
  qed
qed

lemma memory_pool_allocate_Some:
  assumes wf: "pool_wf p" and sz: "0 < sz" "sz \<le> INT_MAX"
    and run: "memory_pool_allocate_segments nid v sz p = Inr (Some r, p')"
  shows "pool_wf p' \<and> req_span p' = req_span p \<and> req_valid p' = req_valid p \<and> req_valid p r"
    and "x \<in> req_span p r \<Longrightarrow> pool_owner p x = None"
    and "pool_owner p' x = (if x \<in> req_span p r then Some v else pool_owner p x)"
proof -
  define seg where "seg = g_segment_size_mb p"
  define d where "d = g_mem_devs p ! nat nid"
  define n where "n = sz div seg"
  define i where "i = first_fit (dax_segments d) (dax_total_segments d) n"
  from run memory_pool_allocate_eq [OF wf sz, of nid v] have
    ok: "seg dvd sz" "0 \<le> nid" "nat nid < length (g_mem_devs p)" "i \<noteq> -1"
    and r: "r = \<lparr>req_node_id = nid, req_dev_path = take 63 (dax_dev_path d),
                 req_offset_mb = i * seg, req_size_mb = sz, req_align_mb = seg\<rparr>"
    and p': "p' = p\<lparr>g_mem_devs := (g_mem_devs p)[nat nid := allocated_dev d i n v]\<rparr>"
    by (auto simp: seg_def d_def n_def i_def split: if_splits)
  have seg: "0 < seg" using wf by (simp add: seg_def pool_seg_pos)
  have dwf: "dev_wf seg d" using wf ok by (simp add: seg_def d_def pool_dev_wf)
  have n: "0 < n" "n * seg = sz" using ok sz seg by (auto simp: n_def zero_less_mult_iff)
  have i: "0 \<le> i" "i + n \<le> dax_total_segments d" "free_run (dax_segments d) i n"
    using first_fit_Some [of "dax_segments d" "dax_total_segments d" n i] ok(4) by (auto simp: i_def)
  have span_bound: "(i * seg + sz) div seg = i + n"
    using seg n(2) by (metis distrib_right nonzero_mult_div_cancel_right order_less_irrefl)
  have "i * seg \<le> dax_total_segments d * seg" using i n(1) seg by (intro mult_right_mono) auto
  with dwf have off: "i * seg \<le> INT_MAX" unfolding dev_wf_def by linarith
  have span: "req_span p r = Pair nid ` {i ..< i + n}"
    using seg span_bound by (simp add: req_span_def r seg_def [symmetric])
  have valid: "req_valid p r"
    using seg ok i sz n off span_bound by (simp add: req_valid_def r seg_def [symmetric] d_def)
  have dwf': "dev_wf seg (allocated_dev d i n v)" using dwf n i by (intro dev_wf_allocated) auto
  show "pool_wf p' \<and> req_span p' = req_span p \<and> req_valid p' = req_valid p \<and> req_valid p r"
    using pool_update [OF wf ok(3)] dwf' valid by (simp add: p' seg_def d_def)
  show "x \<in> req_span p r \<Longrightarrow> pool_owner p x = None"
    using i(3) by (auto simp: span pool_owner_def Let_def d_def [symmetric] free_run_iff)
  have "pool_owner p' = (\<lambda>x. if x \<in> req_span p r then Some v else pool_owner p x)"
    unfolding p' span by (rule pool_owner_run [OF ok(2,3)]) (use i in \<open>auto simp: owns_allocated d_def\<close>)
  then show "pool_owner p' x = (if x \<in> req_span p r then Some v else pool_owner p x)" by simp
qed


section \<open>Release\<close>

lemma memory_pool_release_owned:
  assumes wf: "pool_wf p" and val: "req_valid p r"
    and own: "\<And>x. x \<in> req_span p r \<Longrightarrow> pool_owner p x = Some v"
  shows "\<exists>p'. memory_pool_release_segments (req_node_id r) v (req_offset_mb r) (req_size_mb r) p
               = Inr (0, p') \<and> pool_wf p' \<and> req_span p' = req_span p \<and> req_valid p' = req_valid p \<and>
             pool_owner p' = (\<lambda>x. if x \<in> req_span p r then None else pool_owner p x)"
proof -
  define seg where "seg = g_segment_size_mb p"
  define nid where "nid = req_node_id r"
  define d where "d = g_mem_devs p ! nat nid"
  define s where "s = req_offset_mb r div seg"
  define n where "n = req_size_mb r div seg"
  have seg: "0 < seg" using wf by (simp add: seg_def pool_seg_pos)
  have nid: "0 \<le> nid" "nat nid < length (g_mem_devs p)"
    and al: "0 \<le> req_offset_mb r" "seg dvd req_offset_mb r" "req_offset_mb r \<le> INT_MAX"
      "0 < req_size_mb r" "seg dvd req_size_mb r" "req_size_mb r \<le> INT_MAX"
    and bound: "(req_offset_mb r + req_size_mb r) div seg \<le> dax_total_segments d"
    using val by (auto simp: req_valid_def Let_def seg_def nid_def d_def)
  have sn: "0 \<le> s" "0 \<le> n" "(req_offset_mb r + req_size_mb r) div seg = s + n"
    using al seg by (auto simp: s_def n_def pos_imp_zdiv_nonneg_iff div_plus_div_distrib_dvd_left)
  have span: "req_span p r = Pair nid ` {s ..< s + n}"
    by (simp add: req_span_def nid_def sn(3) flip: seg_def s_def)
  have dwf: "dev_wf seg d" using wf nid by (simp add: seg_def d_def pool_dev_wf)
  have owned: "owns d v j" if "s \<le> j" "j < s + n" for j
    using own [of "(nid, j)"] that by (auto simp: span pool_owner_iff d_def)
  have "s + n \<le> MAX_SEGMENTS" using dwf bound sn by (auto simp: dev_wf_def)
  note rel = release_segments_owned [OF dwf sn(1,2) this owned]
  define p' where "p' = p\<lparr>g_mem_devs := (g_mem_devs p)[nat nid := cleared d s n]\<rparr>"
  have "memory_pool_release_segments nid v (req_offset_mb r) (req_size_mb r) p = Inr (0, p')"
    using wf nid al seg rel(1)
    by (simp add: memory_pool_release_segments_def is_aligned_eq find_dev_pool c_div_nonneg
        seg_def [symmetric] d_def [symmetric] s_def [symmetric] n_def [symmetric] p'_def Let_def)
  moreover have "pool_owner p' = (\<lambda>x. if x \<in> req_span p r then None else pool_owner p x)"
    unfolding p'_def span by (rule pool_owner_run [OF nid]) (auto simp: owns_cleared d_def)
  ultimately show ?thesis
    using pool_update [OF wf nid(2), of "cleared d s n"] rel(2)
    by (auto simp: p'_def seg_def d_def nid_def)
qed

section \<open>Release of everything a VM holds\<close>

definition without_vm :: "int \<Rightarrow> memory_dax_dev \<Rightarrow> memory_dax_dev \<Rightarrow> bool" where
  "without_vm v d d' \<longleftrightarrow> same_shape d d' \<and>
     (\<forall>j w. owns d' w j \<longleftrightarrow> owns d w j \<and> w \<noteq> v)"

lemma release_vm_segment_correct:
  assumes wf: "dev_wf seg d" and x: "0 \<le> x" "x < dax_total_segments d" "x < MAX_SEGMENTS"
  shows "\<exists>d'. release_vm_segment v x d = Inr d' \<and> dev_wf seg d' \<and> same_shape d d' \<and>
           (\<forall>j w. owns d' w j \<longleftrightarrow> owns d w j \<and> \<not> (w = v \<and> j = x))"
proof (cases "owns d v x")
  case True
  note clr = clear_segment_eq [OF wf True]
  have "release_vm_segment v x d = Inr (cleared d x 1)"
    using x clr True by (simp add: release_vm_segment_def owns_def)
  moreover have "owns (cleared d x 1) w j \<longleftrightarrow> owns d w j \<and> \<not> (w = v \<and> j = x)" for j w
    using owns_unique [of d w j v] True by (auto simp: owns_cleared)
  ultimately show ?thesis using clr(2) by auto
next
  case False
  then have "release_vm_segment v x d = Inr d" using x by (auto simp: release_vm_segment_def owns_def)
  with wf False show ?thesis by auto
qed

lemma release_vm_dev_correct:
  assumes "dev_wf seg d"
  shows "\<exists>d'. release_vm_dev v d = Inr d' \<and> dev_wf seg d' \<and> without_vm v d d'"
proof -
  let ?P = "\<lambda>pre d'. dev_wf seg d' \<and> same_shape d d' \<and>
              (\<forall>j w. owns d' w j \<longleftrightarrow> owns d w j \<and> \<not> (w = v \<and> j < int (length pre)))"
  have "\<exists>d'. release_vm_dev v d = Inr d' \<and> ?P [0..dax_total_segments d - 1] d'"
    unfolding release_vm_dev_def
  proof (rule foldE_total [where P = ?P])
    show "?P [] d" using assms by (auto simp: owns_def)
  next
    fix pre x rest d'
    assume "[0..dax_total_segments d - 1] = pre @ x # rest" and P: "?P pre d'"
    then have x: "pre = [0..x - 1]" "0 \<le> x" "x < dax_total_segments d" using upto_split by blast+
    have len: "int (length pre) = x" using x(1,2) by simp
    have "x < dax_total_segments d'" "x < MAX_SEGMENTS" using P x by (auto simp: same_shape_def dev_wf_def)
    with P x(2) release_vm_segment_correct [of seg d' x v] obtain d'' where
      d'': "release_vm_segment v x d' = Inr d''" "dev_wf seg d''" "same_shape d' d''"
        "\<forall>j w. owns d'' w j \<longleftrightarrow> owns d' w j \<and> \<not> (w = v \<and> j = x)" by blast
    moreover have "owns d'' w j \<longleftrightarrow> owns d w j \<and> \<not> (w = v \<and> j < int (length (pre @ [x])))" for j w
      using d''(4) P len by auto
    ultimately show "\<exists>d''. release_vm_segment v x d' = Inr d'' \<and> ?P (pre @ [x]) d''"
      using P by (auto simp: same_shape_def)
  qed
  moreover have "0 \<le> dax_total_segments d" using assms by (simp add: dev_wf_def)
  ultimately show ?thesis by (fastforce simp: without_vm_def owns_def)
qed

lemma release_vm_devs_correct:
  assumes "list_all (dev_wf seg) ds"
  shows "\<exists>ds'. release_vm_devs v ds = Inr ds' \<and> list_all (dev_wf seg) ds' \<and>
               list_all2 (without_vm v) ds ds'"
  using assms
proof (induction ds)
  case Nil
  show ?case by simp
next
  case (Cons d ds)
  then obtain d' ds' where "release_vm_dev v d = Inr d'" "dev_wf seg d'" "without_vm v d d'"
    "release_vm_devs v ds = Inr ds'" "list_all (dev_wf seg) ds'" "list_all2 (without_vm v) ds ds'"
    using release_vm_dev_correct by fastforce
  then show ?case by simp
qed

lemma list_all2_map_eq: "list_all2 R xs ys \<Longrightarrow> (\<And>x y. R x y \<Longrightarrow> f y = f x) \<Longrightarrow> map f ys = map f xs"
  by (induction rule: list_all2_induct) auto

lemma memory_pool_release_vm_correct:
  assumes wf: "pool_wf p"
  shows "\<exists>p'. memory_pool_release_vm_memory v p = Inr p' \<and> pool_wf p' \<and>
             req_span p' = req_span p \<and> req_valid p' = req_valid p \<and>
             pool_owner p' = (\<lambda>x. if pool_owner p x = Some v then None else pool_owner p x)"
proof -
  from wf release_vm_devs_correct obtain ds where
    ds: "release_vm_devs v (g_mem_devs p) = Inr ds" "list_all (dev_wf (g_segment_size_mb p)) ds"
      "list_all2 (without_vm v) (g_mem_devs p) ds" unfolding pool_wf_def by blast
  define p' where "p' = p\<lparr>g_mem_devs := ds\<rparr>"
  have len: "length ds = length (g_mem_devs p)" using ds(3) by (simp add: list_all2_lengthD)
  have maps: "map dax_node_id ds = map dax_node_id (g_mem_devs p)"
    "map dax_total_segments ds = map dax_total_segments (g_mem_devs p)"
    by (rule list_all2_map_eq [OF ds(3)], simp add: without_vm_def same_shape_def)+
  have "pool_owner p' = (\<lambda>x. if pool_owner p x = Some v then None else pool_owner p x)"
  proof (rule pool_owner_eqI)
    fix nid j w
    show "pool_owner p' (nid, j) = Some w \<longleftrightarrow>
        (if pool_owner p (nid, j) = Some v then None else pool_owner p (nid, j)) = Some w"
      using list_all2_nthD [OF ds(3), of "nat nid"] len
      by (auto simp: pool_owner_iff p'_def without_vm_def dest: owns_unique)
  qed
  moreover have "pool_wf p'" "req_span p' = req_span p" "req_valid p' = req_valid p"
    using wf ds(2) len maps
    by (auto simp: p'_def pool_wf_def req_span_def req_valid_def fun_eq_iff Let_def)
  ultimately show ?thesis using ds(1) by (auto simp: memory_pool_release_vm_memory_def p'_def)
qed

section \<open>The pool implements the contract\<close>

text \<open>Release of a granted request, as \<open>vm_mngr_instance_free_mem\<close> calls it.\<close>

definition release_request :: "int \<Rightarrow> memory_request \<Rightarrow> memory_pool \<Rightarrow> (int \<times> memory_pool) res" where
  "release_request vm_id mem_req =
     memory_pool_release_segments (req_node_id mem_req) vm_id
       (req_offset_mb mem_req) (req_size_mb mem_req)"

interpretation pool: segment_allocator pool_wf pool_owner req_span req_valid
  memory_pool_allocate_segments release_request memory_pool_release_vm_memory
proof unfold_locales
  fix p nid v sz assume "pool_wf p" "0 < sz" "sz \<le> INT_MAX"
  then show "\<exists>out. memory_pool_allocate_segments nid v sz p = Inr out"
    using memory_pool_allocate_eq by blast
next
  fix p nid v sz p' assume "pool_wf p" "0 < sz" "sz \<le> INT_MAX"
    "memory_pool_allocate_segments nid v sz p = Inr (None, p')"
  then show "p' = p" using memory_pool_allocate_eq [of p sz nid v] by (auto split: if_splits)
next
  fix p v r assume "pool_wf p" "req_valid p r" "\<And>x. x \<in> req_span p r \<Longrightarrow> pool_owner p x = Some v"
  then show "\<exists>p'. release_request v r p = Inr (0, p') \<and> pool_wf p' \<and> req_span p' = req_span p \<and>
      req_valid p' = req_valid p \<and>
      pool_owner p' = (\<lambda>x. if x \<in> req_span p r then None else pool_owner p x)"
    unfolding release_request_def by (rule memory_pool_release_owned)
next
  fix p v assume "pool_wf p"
  then show "\<exists>p'. memory_pool_release_vm_memory v p = Inr p' \<and> pool_wf p' \<and>
      req_span p' = req_span p \<and> req_valid p' = req_valid p \<and>
      pool_owner p' = (\<lambda>x. if pool_owner p x = Some v then None else pool_owner p x)"
    by (rule memory_pool_release_vm_correct)
qed (use memory_pool_allocate_Some in blast)+

end
