(* ===== verification/PoolConfig.thy ===== *)
theory PoolConfig
  imports Pool CString
begin

text \<open>
  Start-up and reporting of \<open>src/memory_pool.c\<close>: the configuration file loader
  (\<open>memory_pool_load_config\<close>), \<open>memory_pool_init\<close> and the table printed by
  \<open>memory_pool_get_usage\<close>.  The configuration file is its text, \<open>None\<close> when it cannot be
  opened.  The loader changes the globals line by line, also when it fails half way.
\<close>

section \<open>Loading the configuration\<close>

definition is_section_line :: "string \<Rightarrow> bool" where
  "is_section_line line \<longleftrightarrow>
     starts_with ''#'' line \<or> starts_with ''[global]'' line \<or>
     starts_with ''[devices]'' line \<or> starts_with ''[clouddb]'' line"

text \<open>The words of \<open>sscanf(line, "%s %s %s %s %s", key, value1, ..., value4)\<close>.\<close>

fun scanned_strings :: "scanned list \<Rightarrow> string list" where
  "scanned_strings [] = []"
| "scanned_strings (SStr t # vs) = t # scanned_strings vs"
| "scanned_strings (SInt i # vs) = scanned_strings vs"

definition config_words :: "string \<Rightarrow> string list res" where
  "config_words line =
     bindE (sscanf line [Str None 32, Ws, Str None 128, Ws, Str None 128, Ws, Str None 128, Ws,
                         Str None 128])
       (\<lambda>vs. Inr (scanned_strings vs))"

definition scan_field :: "string \<Rightarrow> string \<Rightarrow> int option res" where
  "scan_field name txt =
     bindE (sscanf txt (lits name @ [Dec])) (\<lambda>vs. Inr (the_int vs))"

definition scan_path :: "string \<Rightarrow> string option res" where
  "scan_path txt =
     bindE (sscanf txt (lits ''path='' @ [Str (Some 255) (nat DEV_PATH_LEN)]))
       (\<lambda>vs. Inr (the_str vs))"

text \<open>A value word that \<open>sscanf\<close> did not fill is indeterminate.\<close>

definition val_word :: "string list \<Rightarrow> nat \<Rightarrow> string res" where
  "val_word vals k = (if k < length vals then Inr (vals ! k) else Inl UninitRead)"

text \<open>The error path logs all four value words.\<close>

definition bad_entry :: "string list \<Rightarrow> 'a option res" where
  "bad_entry vals = (if length vals < 4 then Inl UninitRead else Inr None)"

definition zero_dev :: memory_dax_dev where
  "zero_dev = \<lparr>dax_dev_path = [], dax_node_id = 0, dax_tier_id = 0, dax_dax_id = 0,
     dax_total_size_mb = 0, dax_total_segments = 0, dax_used_segments = 0,
     dax_segments = (\<lambda>_. \<lparr>allocated = False, used_vm_id = 0\<rparr>)\<rparr>"

definition parse_dev :: "string list \<Rightarrow> memory_dax_dev option res" where
  "parse_dev vals =
     bindE (val_word vals 0) (\<lambda>v1. bindE (scan_path v1) (\<lambda>o1.
     case o1 of None \<Rightarrow> bad_entry vals | Some path \<Rightarrow>
     bindE (val_word vals 1) (\<lambda>v2. bindE (scan_field ''size_mb='' v2) (\<lambda>o2.
     case o2 of None \<Rightarrow> bad_entry vals | Some sz \<Rightarrow>
     bindE (val_word vals 2) (\<lambda>v3. bindE (scan_field ''tier_id='' v3) (\<lambda>o3.
     case o3 of None \<Rightarrow> bad_entry vals | Some tier \<Rightarrow>
     bindE (val_word vals 3) (\<lambda>v4. bindE (scan_field ''dax_id='' v4) (\<lambda>o4.
     case o4 of None \<Rightarrow> bad_entry vals | Some dax \<Rightarrow>
       Inr (Some (zero_dev\<lparr>dax_dev_path := path, dax_total_size_mb := sz,
                           dax_tier_id := tier, dax_dax_id := dax\<rparr>))))))))))"

text \<open>
  One line: \<open>(True, p)\<close> to go on, \<open>(False, p)\<close> for the early \<open>return -1\<close>.  A negative tier or
  DAX id is only logged.
\<close>

definition load_line :: "string \<Rightarrow> memory_pool \<Rightarrow> (bool \<times> memory_pool) res" where
  "load_line line p =
     (if is_section_line line then Inr (True, p)
      else bindE (config_words line) (\<lambda>ws.
        case ws of
          key # value1 # others \<Rightarrow>
            if key = ''segment_size_mb'' then
              bindE (atoi value1) (\<lambda>seg.
                Inr (0 < seg, p\<lparr>g_segment_size_mb := seg\<rparr>))
            else if key = ''dev'' then
              if MAX_DEVICES \<le> int (length (g_mem_devs p)) then Inr (False, p)
              else bindE (parse_dev (value1 # others)) (\<lambda>od.
                case od of
                  None \<Rightarrow> Inr (False, p)
                | Some d \<Rightarrow>
                    if dax_total_size_mb d \<le> 0 then Inr (False, p)
                    else Inr (True, p\<lparr>g_mem_devs := g_mem_devs p @ [d]\<rparr>))
            else Inr (True, p)
        | _ \<Rightarrow> Inr (True, p)))"

function load_lines :: "string \<Rightarrow> memory_pool \<Rightarrow> (int \<times> memory_pool) res" where
  "load_lines file p =
     (case fgets 512 file of
        None \<Rightarrow> Inr (0, p)
      | Some (line, others) \<Rightarrow>
          bindE (load_line line p) (\<lambda>(ok, p'). if ok then load_lines others p' else Inr (-1, p')))"
  by pat_completeness auto
termination
  by (relation "measure (\<lambda>(file, p). length file)") (auto dest: fgets_shorter)

declare load_lines.simps [simp del]

definition memory_pool_load_config :: "string option \<Rightarrow> memory_pool \<Rightarrow> (int \<times> memory_pool) res" where
  "memory_pool_load_config config_file p =
     (case config_file of None \<Rightarrow> Inr (-1, p) | Some txt \<Rightarrow> load_lines txt p)"

definition init_dev :: "int \<Rightarrow> int \<Rightarrow> memory_dax_dev \<Rightarrow> memory_dax_dev res" where
  "init_dev seg i d =
     bindE (c_div (dax_total_size_mb d) seg) (\<lambda>n.
       Inr (d\<lparr>dax_node_id := i, dax_total_segments := n, dax_used_segments := 0,
              dax_segments := (\<lambda>j. if 0 \<le> j \<and> j < MAX_SEGMENTS then free_segment
                                   else dax_segments d j)\<rparr>))"

fun init_devs :: "int \<Rightarrow> int \<Rightarrow> memory_dax_dev list \<Rightarrow> memory_dax_dev list res" where
  "init_devs seg i [] = Inr []"
| "init_devs seg i (d # ds) =
     bindE (init_dev seg i d) (\<lambda>d'. bindE (init_devs seg (i + 1) ds) (\<lambda>ds'. Inr (d' # ds')))"

definition init_memory_resource :: "string option \<Rightarrow> memory_pool \<Rightarrow> (int \<times> memory_pool) res" where
  "init_memory_resource config_file p =
     bindE (memory_pool_load_config config_file p) (\<lambda>(ret, p').
       if ret \<noteq> 0 then Inr (-1, p')
       else bindE (init_devs (g_segment_size_mb p') 0 (g_mem_devs p')) (\<lambda>ds.
         Inr (0, p'\<lparr>g_mem_devs := ds\<rparr>)))"

definition memory_pool_init :: "string option \<Rightarrow> memory_pool \<Rightarrow> (int \<times> memory_pool) res" where
  "memory_pool_init config_file p =
     bindE (init_memory_resource config_file p) (\<lambda>(ret, p').
       Inr (if ret \<noteq> 0 then -1 else 0, p'))"

text \<open>The globals before start-up.\<close>

definition empty_pool :: memory_pool where
  "empty_pool = \<lparr>g_mem_devs = [], g_segment_size_mb = 0\<rparr>"

section \<open>The usage table\<close>

definition usage_header :: string where
  "usage_header =
     ''Index | Device Path | Size (MB) | Segment (MB) | Used Seg | Total Seg | Node ID | Tier ID | Dax ID''
     @ [newline]"

definition usage_line :: "int \<Rightarrow> int \<Rightarrow> memory_dax_dev \<Rightarrow> string" where
  "usage_line seg i d =
     pad_left 5 (show_int i) @ '' | '' @ dax_dev_path d @ '' | '' @
     pad_left 9 (show_int (dax_total_size_mb d)) @ '' | '' @ pad_left 12 (show_int seg) @ '' | '' @
     pad_left 8 (show_int (dax_used_segments d)) @ '' | '' @
     pad_left 9 (show_int (dax_total_segments d)) @ '' | '' @
     pad_left 7 (show_int (dax_node_id d)) @ '' | '' @ pad_left 7 (show_int (dax_tier_id d)) @ '' | '' @
     pad_left 6 (show_int (dax_dax_id d)) @ [newline]"

fun usage_loop :: "int \<Rightarrow> int \<Rightarrow> int \<Rightarrow> memory_dax_dev list \<Rightarrow> string \<times> int \<Rightarrow> string \<times> int" where
  "usage_loop buffer_size seg i [] st = st"
| "usage_loop buffer_size seg i (d # ds) st =
     (if snd st < buffer_size then
        let st' = append_fmt buffer_size (usage_line seg i d) st in
        if buffer_size - 1 \<le> snd st' then st'
        else usage_loop buffer_size seg (i + 1) ds st'
      else st)"

definition memory_pool_get_usage :: "int \<Rightarrow> memory_pool \<Rightarrow> string" where
  "memory_pool_get_usage buffer_size p =
     (if g_mem_devs p = [] then
        fst (snprintf buffer_size (''No memory devices initialized.'' @ [newline]))
      else
        fst (usage_loop buffer_size (g_segment_size_mb p) 0 (g_mem_devs p)
               (snprintf buffer_size usage_header)))"

text \<open>The whole table, and the theorem-side reading of the loop: the table cut to the buffer.\<close>

fun usage_rows :: "int \<Rightarrow> int \<Rightarrow> memory_dax_dev list \<Rightarrow> string" where
  "usage_rows seg i [] = []"
| "usage_rows seg i (d # ds) = usage_line seg i d @ usage_rows seg (i + 1) ds"

definition usage_table :: "memory_pool \<Rightarrow> string" where
  "usage_table p =
     (if g_mem_devs p = [] then ''No memory devices initialized.'' @ [newline]
      else usage_header @ usage_rows (g_segment_size_mb p) 0 (g_mem_devs p))"

lemma usage_loop_text:
  assumes "holds_text n t st"
  shows "fst (usage_loop n seg i ds st) = take (nat (n - 1)) (t @ usage_rows seg i ds)"
  using assms
proof (induction ds arbitrary: i t st)
  case Nil
  then show ?case by (simp add: holds_text_def)
next
  case (Cons d ds)
  show ?case
  proof (cases "snd st < n")
    case False
    with holds_text_full [OF Cons.prems, of "usage_rows seg i (d # ds)"] show ?thesis by simp
  next
    case True
    define st' where "st' = append_fmt n (usage_line seg i d) st"
    from holds_text_append [OF Cons.prems True, of "usage_line seg i d"]
    have st': "holds_text n (t @ usage_line seg i d) st'" by (simp add: st'_def)
    show ?thesis
    proof (cases "n - 1 \<le> snd st'")
      case stop: True
      with True have "usage_loop n seg i (d # ds) st = st'" by (simp add: st'_def Let_def)
      with holds_text_full [OF st' stop, of "usage_rows seg (i + 1) ds"] show ?thesis by simp
    next
      case False
      with True have "usage_loop n seg i (d # ds) st = usage_loop n seg (i + 1) ds st'"
        by (simp add: st'_def Let_def)
      with Cons.IH [OF st'] show ?thesis by simp
    qed
  qed
qed

lemma get_usage_text: "memory_pool_get_usage n p = take (nat (n - 1)) (usage_table p)"
proof -
  have "holds_text n usage_header (snprintf n usage_header)"
    by (simp add: holds_text_def snprintf_def)
  from usage_loop_text [OF this] show ?thesis
    by (simp add: memory_pool_get_usage_def usage_table_def snprintf_def)
qed


section \<open>What the loader guarantees\<close>

definition cfg_ok :: "memory_pool \<Rightarrow> bool" where
  "cfg_ok p \<longleftrightarrow> 0 \<le> g_segment_size_mb p \<and> g_segment_size_mb p \<le> INT_MAX \<and>
     int (length (g_mem_devs p)) \<le> MAX_DEVICES \<and>
     list_all (\<lambda>d. 0 < dax_total_size_mb d \<and> dax_total_size_mb d \<le> INT_MAX) (g_mem_devs p)"

lemma scan_field_in_int: "scan_field name txt = Inr (Some i) \<Longrightarrow> in_int i"
  by (auto simp: scan_field_def bindE_eq_Inr the_int_Some intro: sscanf_in_int)

lemma bad_entry_not_Some [simp]: "bad_entry vals \<noteq> Inr (Some x)"
  by (simp add: bad_entry_def)

lemma parse_dev_size: "parse_dev vals = Inr (Some d) \<Longrightarrow> in_int (dax_total_size_mb d)"
  by (auto simp: parse_dev_def bindE_eq_Inr split: option.splits) (rule scan_field_in_int)

lemma atoi_in_int: "atoi s = Inr i \<Longrightarrow> in_int i"
  by (auto simp: atoi_def in_int_def INT_MIN_def INT_MAX_def split: option.splits if_splits)

lemma load_line_True:
  assumes "load_line line p = Inr (True, p')"
  shows "p' = p \<or> (\<exists>seg. p' = p\<lparr>g_segment_size_mb := seg\<rparr> \<and> 0 < seg \<and> seg \<le> INT_MAX) \<or>
    (\<exists>d. p' = p\<lparr>g_mem_devs := g_mem_devs p @ [d]\<rparr> \<and> 0 < dax_total_size_mb d \<and>
         dax_total_size_mb d \<le> INT_MAX \<and> int (length (g_mem_devs p)) < MAX_DEVICES)"
proof (cases "is_section_line line")
  case True
  with assms show ?thesis by (simp add: load_line_def)
next
  case False
  with assms obtain ws where ws: "config_words line = Inr ws" by (auto simp: load_line_def bindE_eq_Inr)
  show ?thesis
  proof (cases "\<exists>key value1 others. ws = key # value1 # others")
    case True
    then obtain key value1 others where kv: "ws = key # value1 # others" by blast
    consider "key = ''segment_size_mb''" | "key = ''dev''" | "key \<noteq> ''segment_size_mb''" "key \<noteq> ''dev''"
      by blast
    then show ?thesis
    proof cases
      case 1
      with assms False ws kv show ?thesis
        by (auto simp: load_line_def bindE_eq_Inr in_int_def dest!: atoi_in_int)
    next
      case 2
      with assms False ws kv show ?thesis
        by (auto simp: load_line_def bindE_eq_Inr in_int_def split: if_splits option.splits
            dest!: parse_dev_size)
    next
      case 3
      with assms False ws kv show ?thesis by (auto simp: load_line_def)
    qed
  next
    case no: False
    with assms False ws show ?thesis by (auto simp: load_line_def split: list.splits)
  qed
qed

lemma load_line_cfg_ok: "load_line line p = Inr (True, p') \<Longrightarrow> cfg_ok p \<Longrightarrow> cfg_ok p'"
  by (drule load_line_True) (auto simp: cfg_ok_def)

lemma load_lines_cfg_ok: "load_lines cfg p = Inr (0, p') \<Longrightarrow> cfg_ok p \<Longrightarrow> cfg_ok p'"
proof (induction cfg p rule: load_lines.induct)
  case (1 cfg p)
  show ?case
  proof (cases "fgets 512 cfg")
    case None
    with "1.prems" show ?thesis by (simp add: load_lines.simps [of cfg p])
  next
    case (Some a)
    obtain line others where a: "a = (line, others)" by (cases a)
    from "1.prems"(1) Some a obtain p1 where p1: "load_line line p = Inr (True, p1)"
      "load_lines others p1 = Inr (0, p')"
      by (auto simp: load_lines.simps [of cfg p] bindE_eq_Inr split: if_splits)
    from load_line_cfg_ok [OF p1(1) "1.prems"(2)] have "cfg_ok p1" .
    with "1.IH" [OF Some a [symmetric] p1(1) refl TrueI p1(2)] show ?thesis by blast
  qed
qed

definition initialised :: "int \<Rightarrow> int \<Rightarrow> memory_dax_dev \<Rightarrow> memory_dax_dev" where
  "initialised seg i d =
     d\<lparr>dax_node_id := i, dax_total_segments := dax_total_size_mb d div seg, dax_used_segments := 0,
       dax_segments := (\<lambda>j. if 0 \<le> j \<and> j < MAX_SEGMENTS then free_segment
                            else dax_segments d j)\<rparr>"

fun initialised_all :: "int \<Rightarrow> int \<Rightarrow> memory_dax_dev list \<Rightarrow> memory_dax_dev list" where
  "initialised_all seg i [] = []"
| "initialised_all seg i (d # ds) = initialised seg i d # initialised_all seg (i + 1) ds"

lemma init_devs_eq:
  assumes "0 < seg" "list_all (\<lambda>d. 0 < dax_total_size_mb d \<and> dax_total_size_mb d \<le> INT_MAX) ds"
  shows "init_devs seg i ds = Inr (initialised_all seg i ds)"
  using assms(2)
  by (induction ds arbitrary: i)
    (simp_all add: init_dev_def initialised_def c_div_nonneg assms(1))

lemma initialised_all_length [simp]: "length (initialised_all seg i ds) = length ds"
  by (induction ds arbitrary: i) simp_all

lemma initialised_all_nth:
  "k < length ds \<Longrightarrow> initialised_all seg i ds ! k = initialised seg (i + int k) (ds ! k)"
proof (induction ds arbitrary: i k)
  case Nil
  then show ?case by simp
next
  case (Cons d ds)
  then show ?case by (cases k) (simp_all add: algebra_simps)
qed

lemma used_count_free:
  "(\<And>j. 0 \<le> j \<Longrightarrow> j < tot \<Longrightarrow> \<not> allocated (segs j)) \<Longrightarrow> used_count segs tot = 0"
  unfolding used_count_def by (rule count_upto_none)

lemma dev_wf_initialised:
  assumes "0 < seg" "0 < dax_total_size_mb d" "dax_total_size_mb d \<le> INT_MAX"
    "dax_total_size_mb d div seg \<le> MAX_SEGMENTS"
  shows "dev_wf seg (initialised seg i d)"
proof -
  have "dax_total_size_mb d div seg * seg \<le> dax_total_size_mb d"
    using assms(1) by (simp add: minus_mod_eq_div_mult [symmetric])
  moreover have "used_count (dax_segments (initialised seg i d)) (dax_total_size_mb d div seg) = 0"
    using assms(4) by (intro used_count_free) (simp add: initialised_def)
  ultimately show ?thesis using assms
    by (simp add: dev_wf_def initialised_def pos_imp_zdiv_nonneg_iff)
qed

lemma pool_wf_initialised:
  assumes "0 < seg" "seg \<le> INT_MAX" "int (length ds) \<le> MAX_DEVICES"
    "list_all (\<lambda>d. 0 < dax_total_size_mb d \<and> dax_total_size_mb d \<le> INT_MAX \<and>
                  dax_total_size_mb d div seg \<le> MAX_SEGMENTS) ds"
  shows "pool_wf \<lparr>g_mem_devs = initialised_all seg 0 ds, g_segment_size_mb = seg\<rparr>"
    and "pool_owner \<lparr>g_mem_devs = initialised_all seg 0 ds, g_segment_size_mb = seg\<rparr> x = None"
proof -
  have "map dax_node_id (initialised_all seg 0 ds) = [0..int (length ds) - 1]"
    by (rule nth_equalityI) (auto simp: initialised_all_nth initialised_def nth_upto)
  with assms show "pool_wf \<lparr>g_mem_devs = initialised_all seg 0 ds, g_segment_size_mb = seg\<rparr>"
    by (auto simp: pool_wf_def list_all_length initialised_all_nth intro: dev_wf_initialised)
  have "\<not> allocated (dax_segments (initialised seg i d) j)"
    if "d \<in> set ds" "0 \<le> j" "j < dax_total_size_mb d div seg" for d i j
    using that assms(4) by (auto simp: initialised_def list_all_iff)
  then show "pool_owner \<lparr>g_mem_devs = initialised_all seg 0 ds, g_segment_size_mb = seg\<rparr> x = None"
    by (auto simp: pool_owner_def Let_def initialised_all_nth split: prod.splits)
       (simp add: initialised_def)
qed

section \<open>Configuration text\<close>

text \<open>The lines of a configuration file for a list of devices.\<close>

type_synonym dev_entry = "string \<times> int \<times> int \<times> int"

definition render_segment_size :: "int \<Rightarrow> string" where
  "render_segment_size seg = ''segment_size_mb '' @ show_int seg @ [newline]"

definition render_dev :: "dev_entry \<Rightarrow> string" where
  "render_dev e = (let (path, sz, tier, dax) = e in
     ''dev path='' @ path @ '' size_mb='' @ show_int sz @ '' tier_id='' @ show_int tier @
     '' dax_id='' @ show_int dax @ [newline])"

definition entry_ok :: "dev_entry \<Rightarrow> bool" where
  "entry_ok e = (let (path, sz, tier, dax) = e in
     is_word path \<and> length path < 64 \<and> 0 < sz \<and> sz \<le> INT_MAX \<and> in_int tier \<and> in_int dax)"

definition entry_dev :: "dev_entry \<Rightarrow> memory_dax_dev" where
  "entry_dev e = (let (path, sz, tier, dax) = e in
     zero_dev\<lparr>dax_dev_path := path, dax_total_size_mb := sz, dax_tier_id := tier, dax_dax_id := dax\<rparr>)"

lemma scan_field_show: "in_int i \<Longrightarrow> scan_field name (name @ show_int i) = Inr (Some i)"
  using sscanf_Dec_show [of i "[]" "[]"] by (simp add: scan_field_def)

lemma scan_path_word: "is_word w \<Longrightarrow> length w < 64 \<Longrightarrow> scan_path (''path='' @ w) = Inr (Some w)"
  using sscanf_lits [of "''path=''" w "[Str (Some 255) 64]"] sscanf_word [of w "[]" "Some 255" 64 "[]"]
  by (simp add: scan_path_def DEV_PATH_LEN_def)

text \<open>Words separated by one space and ended by a newline.\<close>

lemma config_words_2:
  assumes "is_word k" "length k < 32" "is_word v" "length v < 128"
  shows "config_words (k @ '' '' @ v @ [newline]) = Inr [k, v]"
  using assms
  by (simp add: config_words_def sscanf_word newline_def sscanf_Str_Nil del: sscanf.simps(5))

lemma config_words_5:
  assumes "is_word k" "length k < 32" "is_word v1" "length v1 < 128" "is_word v2" "length v2 < 128"
    "is_word v3" "length v3 < 128" "is_word v4" "length v4 < 128"
  shows "config_words (k @ '' '' @ v1 @ '' '' @ v2 @ '' '' @ v3 @ '' '' @ v4 @ [newline])
           = Inr [k, v1, v2, v3, v4]"
  using assms
  by (simp add: config_words_def sscanf_word newline_def sscanf_Str_Nil del: sscanf.simps(5))


lemma not_section_line:
  "\<not> is_section_line (''segment_size_mb '' @ r)" "\<not> is_section_line (''dev path='' @ r)"
  by (simp_all add: is_section_line_def starts_with_def)

lemma atoi_show: "in_int i \<Longrightarrow> atoi (show_int i) = Inr i"
  using scan_int_show [of "[]" i] by (simp add: atoi_def)

lemma in_intI: "0 \<le> i \<Longrightarrow> i \<le> INT_MAX \<Longrightarrow> in_int i"
  by (rule in_int_nonneg)

lemma is_word_lits:
  "is_word ''segment_size_mb''" "is_word ''dev''" "is_word ''path=''" "is_word ''size_mb=''"
  "is_word ''tier_id=''" "is_word ''dax_id=''"
  by (simp_all add: is_word_def is_space_def)

lemma load_render_segment_size:
  assumes "0 < seg" "seg \<le> INT_MAX"
  shows "load_line (render_segment_size seg) p = Inr (True, p\<lparr>g_segment_size_mb := seg\<rparr>)"
proof -
  have seg: "in_int seg" using assms by (intro in_intI) auto
  have "config_words (''segment_size_mb'' @ '' '' @ show_int seg @ [newline])
          = Inr [''segment_size_mb'', show_int seg]"
    using show_int_length [OF seg] by (intro config_words_2) (simp_all add: is_word_lits)
  then show ?thesis
    using not_section_line(1) [of "show_int seg @ [newline]"] assms(1) atoi_show [OF seg]
    by (simp add: load_line_def render_segment_size_def)
qed

lemma load_render_dev:
  assumes ok: "entry_ok e" and room: "int (length (g_mem_devs p)) < MAX_DEVICES"
  shows "load_line (render_dev e) p = Inr (True, p\<lparr>g_mem_devs := g_mem_devs p @ [entry_dev e]\<rparr>)"
proof -
  obtain path sz tier dax where e: "e = (path, sz, tier, dax)" by (cases e)
  with ok have path: "is_word path" "length path < 64" and sz: "0 < sz" "sz \<le> INT_MAX"
    and ints: "in_int sz" "in_int tier" "in_int dax"
    by (auto simp: entry_ok_def intro: in_intI)
  let ?vals = "[''path='' @ path, ''size_mb='' @ show_int sz, ''tier_id='' @ show_int tier,
                ''dax_id='' @ show_int dax]"
  have "config_words (''dev'' @ '' '' @ (''path='' @ path) @ '' '' @ (''size_mb='' @ show_int sz) @ '' '' @
          (''tier_id='' @ show_int tier) @ '' '' @ (''dax_id='' @ show_int dax) @ [newline])
          = Inr (''dev'' # ?vals)"
    using path show_int_length [OF ints(1)] show_int_length [OF ints(2)] show_int_length [OF ints(3)]
    by (intro config_words_5 is_word_append) (simp_all add: is_word_lits)
  then have words: "config_words (render_dev e) = Inr (''dev'' # ?vals)"
    by (simp add: render_dev_def e)
  have "parse_dev ?vals = Inr (Some (entry_dev e))"
    using scan_path_word [OF path] scan_field_show [OF ints(1), of "''size_mb=''"]
      scan_field_show [OF ints(2), of "''tier_id=''"] scan_field_show [OF ints(3), of "''dax_id=''"]
    by (simp add: parse_dev_def val_word_def entry_dev_def e)
  moreover have "\<not> is_section_line (render_dev e)"
    using not_section_line(2) by (simp add: render_dev_def e)
  moreover have "0 < dax_total_size_mb (entry_dev e)" using sz by (simp add: entry_dev_def e)
  ultimately show ?thesis using words room by (simp add: load_line_def)
qed

lemma word_line_fgets:
  assumes "list_all (\<lambda>c. c \<noteq> newline) l" "length l \<le> 510"
  shows "fgets 512 (l @ newline # r) = Some (l @ [newline], r)"
  using assms fgets_line [of l 512 r] by (auto simp: newline_def list_all_iff)

lemma load_lines_step:
  assumes "fgets 512 (line @ r) = Some (line, r)" "load_line line p = Inr (True, p')"
  shows "load_lines (line @ r) p = load_lines r p'"
  using assms by (simp add: load_lines.simps [of "line @ r"])

lemma word_no_nl: "is_word w \<Longrightarrow> list_all (\<lambda>c. c \<noteq> newline) w"
  using word_no_newline by (auto simp: newline_def list_all_iff)

lemma dev_line_fgets:
  assumes "entry_ok e"
  shows "fgets 512 (render_dev e @ r) = Some (render_dev e, r)"
proof -
  obtain path sz tier dax where e: "e = (path, sz, tier, dax)" by (cases e)
  define l where "l = ''dev path='' @ path @ '' size_mb='' @ show_int sz @ '' tier_id='' @ show_int tier @
     '' dax_id='' @ show_int dax"
  have line: "render_dev e = l @ [newline]" by (simp add: render_dev_def e l_def)
  from assms e have ok: "is_word path" "length path < 64" "in_int sz" "in_int tier" "in_int dax"
    by (auto simp: entry_ok_def intro: in_intI)
  have "list_all (\<lambda>c. c \<noteq> newline) l" using ok by (simp add: l_def word_no_nl) (simp add: newline_def)
  moreover have "length l \<le> 510"
    using ok show_int_length [OF ok(3)] show_int_length [OF ok(4)] show_int_length [OF ok(5)]
    by (simp add: l_def)
  ultimately show ?thesis
    using word_line_fgets [of l r] by (simp add: line)
qed

lemma segment_size_fgets:
  assumes "in_int seg"
  shows "fgets 512 (render_segment_size seg @ r) = Some (render_segment_size seg, r)"
proof -
  have "list_all (\<lambda>c. c \<noteq> newline) (''segment_size_mb '' @ show_int seg)"
    by (simp add: word_no_nl) (simp add: newline_def)
  with show_int_length [OF assms] show ?thesis
    using word_line_fgets [of "''segment_size_mb '' @ show_int seg" r]
    by (simp add: render_segment_size_def)
qed

lemma load_lines_devs:
  assumes "list_all entry_ok es" "int (length (g_mem_devs p) + length es) \<le> MAX_DEVICES"
  shows "load_lines (concat (map render_dev es)) p =
           Inr (0, p\<lparr>g_mem_devs := g_mem_devs p @ map entry_dev es\<rparr>)"
  using assms
proof (induction es arbitrary: p)
  case Nil
  show ?case by (simp add: load_lines.simps fgets_def)
next
  case (Cons e es)
  from Cons.prems(1) have "fgets 512 (render_dev e @ r) = Some (render_dev e, r)" for r
    by (simp add: dev_line_fgets)
  moreover have "load_line (render_dev e) p = Inr (True, p\<lparr>g_mem_devs := g_mem_devs p @ [entry_dev e]\<rparr>)"
    using Cons.prems by (intro load_render_dev) auto
  ultimately have "load_lines (concat (map render_dev (e # es))) p =
      load_lines (concat (map render_dev es)) (p\<lparr>g_mem_devs := g_mem_devs p @ [entry_dev e]\<rparr>)"
    by (simp add: load_lines_step)
  also have "\<dots> = Inr (0, p\<lparr>g_mem_devs := g_mem_devs p @ map entry_dev (e # es)\<rparr>)"
    using Cons.prems by (subst Cons.IH) simp_all
  finally show ?case .
qed

definition config_text :: "int \<Rightarrow> dev_entry list \<Rightarrow> string" where
  "config_text seg es = render_segment_size seg @ concat (map render_dev es)"

lemma load_config_text:
  assumes "0 < seg" "seg \<le> INT_MAX" "list_all entry_ok es" "int (length es) \<le> MAX_DEVICES"
  shows "memory_pool_load_config (Some (config_text seg es)) empty_pool =
           Inr (0, \<lparr>g_mem_devs = map entry_dev es, g_segment_size_mb = seg\<rparr>)"
proof -
  have "in_int seg" using assms by (intro in_intI) auto
  from load_lines_step [OF segment_size_fgets [OF this] load_render_segment_size [OF assms(1,2)]] show ?thesis
    using assms load_lines_devs [of es "empty_pool\<lparr>g_segment_size_mb := seg\<rparr>"]
    by (simp add: memory_pool_load_config_def config_text_def empty_pool_def)
qed

lemma init_config_text:
  assumes "0 < seg" "seg \<le> INT_MAX" "list_all entry_ok es" "int (length es) \<le> MAX_DEVICES"
  shows "memory_pool_init (Some (config_text seg es)) empty_pool =
           Inr (0, \<lparr>g_mem_devs = initialised_all seg 0 (map entry_dev es), g_segment_size_mb = seg\<rparr>)"
proof -
  have "list_all (\<lambda>d. 0 < dax_total_size_mb d \<and> dax_total_size_mb d \<le> INT_MAX) (map entry_dev es)"
    using assms(3) by (auto simp: list_all_iff entry_ok_def entry_dev_def)
  then show ?thesis
    using load_config_text [OF assms] init_devs_eq [OF assms(1)]
    by (simp add: memory_pool_init_def init_memory_resource_def)
qed

text \<open>Devices without a segment size: the division in the initialisation traps.\<close>

lemma init_no_segment_size:
  assumes "list_all entry_ok es" "int (length es) \<le> MAX_DEVICES" "es \<noteq> []"
  shows "memory_pool_init (Some (concat (map render_dev es))) empty_pool = Inl DivByZero"
proof -
  have "load_lines (concat (map render_dev es)) empty_pool
      = Inr (0, empty_pool\<lparr>g_mem_devs := map entry_dev es\<rparr>)"
    using load_lines_devs [OF assms(1), of empty_pool] assms(2) by (simp add: empty_pool_def)
  moreover have "init_devs 0 0 (map entry_dev es) = Inl DivByZero"
    using assms(3) by (cases es) (simp_all add: init_dev_def)
  ultimately show ?thesis
    by (simp add: memory_pool_init_def init_memory_resource_def memory_pool_load_config_def empty_pool_def)
qed

end
