(* ===== verification/ResourceManager.thy ===== *)
theory ResourceManager
  imports VmManager QemuAgent PoolConfig
begin

text \<open>
  The RPC server of \<open>src/resource_manager.c\<close>: one handler per command, the dispatch on the
  command word, the treatment of one client, and the shutdown on SIGINT.

  \<^item> A handler gets the text after the command word and returns a reply.  Replies are texts
    built by the server, except that the answer of a guest agent is a raw receive buffer.
  \<^item> \<open>cmd\<close> and \<open>args\<close> live as long as the server; \<open>args\<close> is only written when a command has
    arguments, so a later command without any sees the old ones, or an indeterminate value
    before the first.
  \<^item> \<open>malloc\<close> of the reply buffer is unchecked in most handlers: a failure is a write through
    a null pointer.
\<close>

datatype reply = RNull | RText string | RRaw string

section \<open>Handlers\<close>

definition rpc_malloc :: "'w os \<Rightarrow> 'w rm_state \<Rightarrow> 'w rm_state res" where
  "rpc_malloc os s =
     (let (ok, w) = os_malloc os (nat BUFFER_SIZE) (rm_world s) in
      bindE (guardE ok BadPointer) (\<lambda>_. Inr (s\<lparr>rm_world := w\<rparr>)))"

definition rpc_text :: "string \<Rightarrow> reply" where
  "rpc_text txt = RText (fst (snprintf BUFFER_SIZE txt))"

definition fmt_vid :: "directive list" where "fmt_vid = lits ''vid='' @ [Dec]"
definition fmt_nid :: "directive list" where "fmt_nid = lits ''nid='' @ [Dec]"

definition fmt_alloc :: "directive list" where
  "fmt_alloc = lits ''nid='' @ [Dec, Ws] @ lits ''vid='' @ [Dec, Ws] @ lits ''size='' @ [Dec]"

definition fmt_free :: "directive list" where
  "fmt_free = lits ''vid='' @ [Dec, Ws] @ lits ''memid='' @ [Dec]"

definition fmt_attach :: "directive list" where
  "fmt_attach = lits ''memid='' @ [Dec, Ws] @ lits ''vid='' @ [Dec, Ws] @ lits ''nid='' @ [Dec]"

definition fmt_detach :: "directive list" where
  "fmt_detach = lits ''memid='' @ [Dec, Ws] @ lits ''vid='' @ [Dec]"

definition fmt_create :: "directive list" where
  "fmt_create = lits ''vid='' @ [Dec, Ws] @ lits ''coreset='' @ [Rest (nat BUFFER_SIZE)]"

lemmas rpc_formats = fmt_vid_def fmt_nid_def fmt_alloc_def fmt_free_def fmt_attach_def
  fmt_detach_def fmt_create_def

fun ints2 :: "scanned list \<Rightarrow> (int \<times> int) option" where
  "ints2 [SInt a, SInt b] = Some (a, b)"
| "ints2 _ = None"

fun ints3 :: "scanned list \<Rightarrow> (int \<times> int \<times> int) option" where
  "ints3 [SInt a, SInt b, SInt c] = Some (a, b, c)"
| "ints3 _ = None"

fun int_text :: "scanned list \<Rightarrow> (int \<times> string) option" where
  "int_text [SInt a, SStr t] = Some (a, t)"
| "int_text _ = None"

definition rpc_handle_get_mem_info ::
    "'w os \<Rightarrow> 'j json_lib \<Rightarrow> string \<Rightarrow> 'w rm_state \<Rightarrow> (reply \<times> 'w rm_state) res" where
  "rpc_handle_get_mem_info os js args s =
     bindE (sscanf args fmt_vid) (\<lambda>vs.
     case the_int vs of
       Some vm_id \<Rightarrow>
         bindE (guest_agent_get_meminfo os js vm_id (rm_agents s, rm_world s)) (\<lambda>(response, w).
         Inr (case response of None \<Rightarrow> RNull | Some bs \<Rightarrow> RRaw bs, s\<lparr>rm_world := w\<rparr>))
     | None \<Rightarrow> Inr (RText ''Invalid args'', s))"

definition rpc_handle_get_mem_pool :: "'w os \<Rightarrow> 'w rm_state \<Rightarrow> (reply \<times> 'w rm_state) res" where
  "rpc_handle_get_mem_pool os s =
     bindE (rpc_malloc os s) (\<lambda>s.
     Inr (RText (memory_pool_get_usage BUFFER_SIZE (rm_pool s)), s))"

definition rpc_handle_get_vms :: "'w os \<Rightarrow> 'w rm_state \<Rightarrow> (reply \<times> 'w rm_state) res" where
  "rpc_handle_get_vms os s =
     (let (ok, w) = os_malloc os (nat BUFFER_SIZE) (rm_world s); s = s\<lparr>rm_world := w\<rparr> in
      if \<not> ok then Inr (RText ''Failed to allocate response buffer'', s)
      else
        case vm_mngr_dump_state BUFFER_SIZE (rm_vms s) of
          None \<Rightarrow> Inl UninitRead
        | Some txt \<Rightarrow> Inr (RText txt, s))"

definition rpc_handle_get_num_nodes :: "'w os \<Rightarrow> 'w rm_state \<Rightarrow> (reply \<times> 'w rm_state) res" where
  "rpc_handle_get_num_nodes os s =
     bindE (rpc_malloc os s) (\<lambda>s.
     Inr (rpc_text (show_int (memory_pool_get_num_devs (rm_pool s))), s))"

definition rpc_handle_get_node_info ::
    "'w os \<Rightarrow> string \<Rightarrow> 'w rm_state \<Rightarrow> (reply \<times> 'w rm_state) res" where
  "rpc_handle_get_node_info os args s =
     bindE (sscanf args fmt_nid) (\<lambda>vs.
     case the_int vs of
       Some node_id \<Rightarrow>
         bindE (rpc_malloc os s) (\<lambda>s.
         Inr (case memory_pool_get_node_info node_id (rm_pool s) of
                Some info \<Rightarrow>
                  rpc_text (''nodeid='' @ show_int node_id @ '',tier-id='' @ show_int (info_tier_id info)
                            @ '',dax-id='' @ show_int (info_dax_id info))
              | None \<Rightarrow> rpc_text (''Node '' @ show_int node_id @ '' does not exist''), s))
     | None \<Rightarrow> Inr (RText ''Invalid args'', s))"

definition alloc_text :: "vm_mem_req \<Rightarrow> string" where
  "alloc_text a =
     ''id=mem'' @ show_int (vmr_memdev_idx a) @ '',mem-path='' @ vmr_dev_path a @
     '',size='' @ show_int (vmr_size_mb a) @ ''M,align='' @ show_int (vmr_align_mb a) @
     ''M,offset='' @ show_int (vmr_offset_mb a) @ ''M''"

definition rpc_handle_alloc_mem ::
    "'w os \<Rightarrow> string \<Rightarrow> 'w rm_state \<Rightarrow> (reply \<times> 'w rm_state) res" where
  "rpc_handle_alloc_mem os args s =
     bindE (sscanf args fmt_alloc) (\<lambda>vs.
     case ints3 vs of
       None \<Rightarrow> Inr (RText ''Invalid args'', s)
     | Some (nid, vid, size_mb) \<Rightarrow>
         if nid < 0 \<or> vid < 0 \<or> size_mb \<le> 0 then Inr (RText ''Invalid args'', s)
         else
           bindE (rpc_malloc os s) (\<lambda>s.
           bindE (vm_mngr_instance_alloc_mem os nid vid size_mb s) (\<lambda>(ret, s).
           Inr (case ret of Some a \<Rightarrow> rpc_text (alloc_text a)
                | None \<Rightarrow> rpc_text ''Allocate failed'', s))))"

definition rpc_handle_free_mem ::
    "'w os \<Rightarrow> string \<Rightarrow> 'w rm_state \<Rightarrow> (reply \<times> 'w rm_state) res" where
  "rpc_handle_free_mem os args s =
     bindE (sscanf args fmt_free) (\<lambda>vs.
     case ints2 vs of
       None \<Rightarrow> Inr (RText ''Invalid args'', s)
     | Some (vid, memid) \<Rightarrow>
         if vid < 0 \<or> memid < 0 then Inr (RText ''Invalid args'', s)
         else
           bindE (rpc_malloc os s) (\<lambda>s.
           bindE (vm_mngr_instance_free_mem vid memid s) (\<lambda>(ret, s).
           Inr (if ret = 0 then rpc_text ''Release success'' else rpc_text ''Release failed'', s))))"

definition hotplug_request_of :: "int \<Rightarrow> int \<Rightarrow> memory_request \<Rightarrow> hotplug_request" where
  "hotplug_request_of memid nid mem_req =
     \<lparr>hp_dimm_id = fst (snprintf STRING_ID_LEN (''dimm'' @ show_int memid)),
      hp_memdev_id = fst (snprintf STRING_ID_LEN (''mem'' @ show_int memid)),
      hp_dev_path = fst (snprintf DEV_PATH_LEN (req_dev_path mem_req)),
      hp_size_bytes = MB_TO_BYTES (req_size_mb mem_req),
      hp_align_bytes = MB_TO_BYTES (req_align_mb mem_req),
      hp_share = True,
      hp_numa_node = (if nid < 0 then 0 else nid)\<rparr>"

definition memory_not_found :: "int \<Rightarrow> reply" where
  "memory_not_found memid = rpc_text (''Find not find memory '' @ show_int memid @ [newline])"

definition rpc_handle_attach_mem ::
    "'w os \<Rightarrow> 'j json_lib \<Rightarrow> string \<Rightarrow> 'w rm_state \<Rightarrow> (reply \<times> 'w rm_state) res" where
  "rpc_handle_attach_mem os js args s =
     bindE (sscanf args fmt_attach) (\<lambda>vs.
     case ints3 vs of
       None \<Rightarrow> Inr (RText ''Invalid args'', s)
     | Some (memid, vid, nid) \<Rightarrow>
         if memid < 0 \<or> vid < 0 then Inr (RText ''Invalid args'', s)
         else
           bindE (rpc_malloc os s) (\<lambda>s.
           case vm_mngr_instance_get_mem vid memid (rm_vms s) of
             None \<Rightarrow> Inr (memory_not_found memid, s)
           | Some mem_req \<Rightarrow>
               bindE (qemu_agent_hotplug_memory os js vid (hotplug_request_of memid nid mem_req)
                        (rm_world s)) (\<lambda>(ret, w).
               Inr (if ret = 0 then rpc_text ''Hotplug memory success''
                    else rpc_text ''Hotplug memory failed'', s\<lparr>rm_world := w\<rparr>))))"

definition hotunplug_request_of :: "int \<Rightarrow> hotunplug_request" where
  "hotunplug_request_of memid =
     \<lparr>hu_dimm_id = fst (snprintf STRING_ID_LEN (''dimm'' @ show_int memid)),
      hu_memdev_id = fst (snprintf STRING_ID_LEN (''mem'' @ show_int memid))\<rparr>"

definition rpc_handle_detach_mem ::
    "'w os \<Rightarrow> 'j json_lib \<Rightarrow> string \<Rightarrow> 'w rm_state \<Rightarrow> (reply \<times> 'w rm_state) res" where
  "rpc_handle_detach_mem os js args s =
     bindE (sscanf args fmt_detach) (\<lambda>vs.
     case ints2 vs of
       None \<Rightarrow> Inr (RText ''Invalid args'', s)
     | Some (memid, vid) \<Rightarrow>
         if memid < 0 \<or> vid < 0 then Inr (RText ''Invalid args'', s)
         else
           bindE (rpc_malloc os s) (\<lambda>s.
           case vm_mngr_instance_get_mem vid memid (rm_vms s) of
             None \<Rightarrow> Inr (memory_not_found memid, s)
           | Some mem_req \<Rightarrow>
               bindE (qemu_agent_hotunplug_memory os js vid (hotunplug_request_of memid)
                        (rm_world s)) (\<lambda>(ret, w).
               Inr (if ret = 0 then rpc_text ''Hotunplug memory success''
                    else rpc_text ''Hotunplug memory failed'', s\<lparr>rm_world := w\<rparr>))))"

text \<open>The text between the first \<open>[\<close> and the first \<open>]\<close>.\<close>

definition bracketed :: "string \<Rightarrow> string option" where
  "bracketed t =
     (case (strchr t CHR ''['', strchr t CHR '']'') of
        (Some first, Some last_pos) \<Rightarrow>
          if last_pos \<le> first then None
          else Some (take (last_pos - Suc first) (drop (Suc first) t))
      | _ \<Rightarrow> None)"

definition rpc_handle_create_vm ::
    "'w os \<Rightarrow> string \<Rightarrow> 'w rm_state \<Rightarrow> (reply \<times> 'w rm_state) res" where
  "rpc_handle_create_vm os args s =
     bindE (sscanf args fmt_create) (\<lambda>vs.
     case int_text vs of
       None \<Rightarrow> Inr (RText ''Invalid args'', s)
     | Some (vid, coreset_str) \<Rightarrow>
         if vid < 0 then Inr (RText ''Invalid args'', s)
         else
           case bracketed coreset_str of
             None \<Rightarrow> Inr (RText ''Invalid command'', s)
           | Some cores \<Rightarrow>
               bindE (rpc_malloc os s) (\<lambda>s.
               bindE (vm_mngr_instance_create vid cores (rm_vms s)) (\<lambda>(ret, m).
               Inr (rpc_text (''Create VM '' @ show_int vid @
                      (if ret = 0 then '' success'' else '' failed'') @ '', coreset: ['' @ cores @ '']''),
                    s\<lparr>rm_vms := m\<rparr>))))"

text \<open>The three handlers that take a VM id only; \<open>verb\<close> starts the reply.\<close>

definition rpc_vm_command ::
    "'w os \<Rightarrow> string \<Rightarrow> (int \<Rightarrow> 'w rm_state \<Rightarrow> (int \<times> 'w rm_state) res) \<Rightarrow> string \<Rightarrow> 'w rm_state \<Rightarrow>
       (reply \<times> 'w rm_state) res" where
  "rpc_vm_command os verb op args s =
     bindE (sscanf args fmt_vid) (\<lambda>vs.
     case the_int vs of
       None \<Rightarrow> Inr (RText ''Invalid args'', s)
     | Some vid \<Rightarrow>
         if vid < 0 then Inr (RText ''Invalid args'', s)
         else
           bindE (rpc_malloc os s) (\<lambda>s.
           bindE (op vid s) (\<lambda>(ret, s).
           Inr (rpc_text (verb @ '' VM '' @ show_int vid @
                  (if ret = 0 then '' success'' else '' failed'')), s))))"

definition rpc_handle_destroy_vm ::
    "'w os \<Rightarrow> string \<Rightarrow> 'w rm_state \<Rightarrow> (reply \<times> 'w rm_state) res" where
  "rpc_handle_destroy_vm os args s = rpc_vm_command os ''Destroy'' vm_mngr_instance_destroy args s"

definition rpc_handle_start_vm ::
    "'w os \<Rightarrow> string \<Rightarrow> 'w rm_state \<Rightarrow> (reply \<times> 'w rm_state) res" where
  "rpc_handle_start_vm os args s = rpc_vm_command os ''Start'' (vm_mngr_instance_start os) args s"

definition rpc_handle_stop_vm ::
    "'w os \<Rightarrow> string \<Rightarrow> 'w rm_state \<Rightarrow> (reply \<times> 'w rm_state) res" where
  "rpc_handle_stop_vm os args s = rpc_vm_command os ''Stop'' (vm_mngr_instance_stop os) args s"

section \<open>The server\<close>

text \<open>A handler that takes arguments reads the buffer \<open>args\<close>.\<close>

definition with_args ::
    "string option \<Rightarrow> (string \<Rightarrow> 'w rm_state \<Rightarrow> (reply \<times> 'w rm_state) res) \<Rightarrow> 'w rm_state \<Rightarrow>
       (reply \<times> 'w rm_state) res" where
  "with_args args h s = (case args of None \<Rightarrow> Inl UninitRead | Some a \<Rightarrow> h a s)"

definition rpc_dispatch ::
    "'w os \<Rightarrow> 'j json_lib \<Rightarrow> string \<Rightarrow> string option \<Rightarrow> 'w rm_state \<Rightarrow> (reply \<times> 'w rm_state) res" where
  "rpc_dispatch os js cmd args s =
     (if cmd = ''get-mem-info'' then with_args args (rpc_handle_get_mem_info os js) s
      else if cmd = ''get-mem-pool'' then rpc_handle_get_mem_pool os s
      else if cmd = ''get-vms'' then rpc_handle_get_vms os s
      else if cmd = ''get-num-nodes'' then rpc_handle_get_num_nodes os s
      else if cmd = ''get-node-info'' then with_args args (rpc_handle_get_node_info os) s
      else if cmd = ''alloc-mem'' then with_args args (rpc_handle_alloc_mem os) s
      else if cmd = ''free-mem'' then with_args args (rpc_handle_free_mem os) s
      else if cmd = ''attach-mem'' then with_args args (rpc_handle_attach_mem os js) s
      else if cmd = ''detach-mem'' then with_args args (rpc_handle_detach_mem os js) s
      else if cmd = ''create-vm'' then with_args args (rpc_handle_create_vm os) s
      else if cmd = ''destroy-vm'' then with_args args (rpc_handle_destroy_vm os) s
      else if cmd = ''start-vm'' then with_args args (rpc_handle_start_vm os) s
      else if cmd = ''stop-vm'' then with_args args (rpc_handle_stop_vm os) s
      else Inr (RText ''Invalid command'', s))"

definition fmt_command :: "directive list" where
  "fmt_command = [Str (Some 63) 64, Ws, Rest (nat BUFFER_SIZE)]"

text \<open>The received bytes as a C string: the buffer was zeroed before.\<close>

definition request_text :: "string option \<Rightarrow> string res" where
  "request_text r =
     (let bs = (case r of None \<Rightarrow> [] | Some bs \<Rightarrow> bs) in
      if BUFFER_SIZE \<le> int (length bs) \<and> CHR 0x00 \<notin> set bs then Inl OutOfBounds
      else Inr (c_str bs))"

text \<open>What the scan of the request leaves in \<open>cmd\<close> and \<open>args\<close>; \<open>None\<close> when nothing matched.\<close>

definition scan_request :: "string \<Rightarrow> string option \<Rightarrow> (string \<times> string option) option res" where
  "scan_request buffer args =
     bindE (sscanf buffer fmt_command) (\<lambda>vs.
     Inr (case vs of
            [SStr cmd] \<Rightarrow> Some (cmd, args)
          | [SStr cmd, SStr a] \<Rightarrow> Some (cmd, Some a)
          | _ \<Rightarrow> None))"

text \<open>The text sent back; a raw buffer is measured by \<open>strlen\<close>.\<close>

definition reply_text :: "reply \<Rightarrow> string res" where
  "reply_text r =
     (case r of
        RNull \<Rightarrow> Inr (''Failed to get results'' @ [newline])
      | RText t \<Rightarrow> Inr t
      | RRaw bs \<Rightarrow> read_recv_buffer bs)"

definition serve ::
    "'w os \<Rightarrow> 'j json_lib \<Rightarrow> string \<Rightarrow> string option \<Rightarrow> 'w rm_state \<Rightarrow>
       (string \<times> string option \<times> 'w rm_state) res" where
  "serve os js buffer args s =
     bindE (scan_request buffer args) (\<lambda>parsed.
     case parsed of
       None \<Rightarrow> Inr (''Invalid command'', args, s)
     | Some (cmd, args) \<Rightarrow>
         bindE (rpc_dispatch os js cmd args s) (\<lambda>(r, s).
         bindE (reply_text r) (\<lambda>t. Inr (t, args, s))))"

text \<open>The body of the server loop for one event on the server socket.\<close>

definition rpc_client ::
    "'w os \<Rightarrow> 'j json_lib \<Rightarrow> int \<Rightarrow> string option \<times> 'w rm_state \<Rightarrow> (string option \<times> 'w rm_state) res" where
  "rpc_client os js server_fd st =
     (let (args, s) = st; (client_fd, w) = os_accept os server_fd (rm_world s) in
      if client_fd < 0 then Inr (args, s\<lparr>rm_world := w\<rparr>)
      else
        let (r, w) = sys_recv os client_fd (nat BUFFER_SIZE) w in
        bindE (request_text r) (\<lambda>buffer.
        bindE (serve os js buffer args (s\<lparr>rm_world := w\<rparr>)) (\<lambda>(response, args, s).
        let (_, w) = os_send os client_fd response (rm_world s);
            (_, w) = os_close os client_fd w in
        Inr (args, s\<lparr>rm_world := w\<rparr>))))"

section \<open>Shutdown\<close>

definition vm_stop :: "'w os \<Rightarrow> nat \<Rightarrow> 'w rm_state \<Rightarrow> 'w rm_state res" where
  "vm_stop os k s = bindE (vm_mngr_instance_stop os (VM_id (vm_at s k)) s) (\<lambda>(_, s). Inr s)"

definition vm_destroy :: "nat \<Rightarrow> 'w rm_state \<Rightarrow> 'w rm_state res" where
  "vm_destroy k s = bindE (vm_mngr_instance_destroy (VM_id (vm_at s k)) s) (\<lambda>(_, s). Inr s)"

text \<open>The two walks over the VMs in \<open>handle_signal\<close>.\<close>

definition release_vms :: "'w os \<Rightarrow> 'w rm_state \<Rightarrow> 'w rm_state res" where
  "release_vms os s =
     bindE (vm_mngr_for_each_vm_running (vm_stop os) s) (vm_mngr_for_each_vm vm_destroy)"

end
