(* ===== verification/ResourceClient.thy ===== *)
theory ResourceClient
  imports ResourceManager
begin

text \<open>
  The command line client of \<open>src/resource_client.c\<close>: it turns its arguments into one request,
  sends it over the server's socket and prints the answer.

  \<^item> A run is a function of \<open>argv\<close> and the world; its value is what \<open>main\<close> returns, or the status
    given to \<open>exit\<close>.
  \<^item> The texts written to the terminal are in the order of the code.
\<close>

definition SERVER_SOCKET :: string where
  "SERVER_SOCKET = ''/var/run/resource_manager.sock''"

section \<open>Output\<close>

definition print_results :: "'w os \<Rightarrow> 'j json_lib \<Rightarrow> string \<Rightarrow> 'w \<Rightarrow> 'w" where
  "print_results os js results w =
     (case json_tokener_parse js results of
        Some parsed_json \<Rightarrow> os_printf os False (json_object_to_json_string_pretty js parsed_json @ [newline]) w
      | None \<Rightarrow> os_printf os False (results @ [newline]) w)"

text \<open>\<open>%-60s\<close>\<close>

definition usage_entry :: "string \<Rightarrow> string \<Rightarrow> string" where
  "usage_entry cmd what = ''  '' @ cmd @ replicate (60 - length cmd) CHR '' '' @ '' '' @ what @ [newline]"

definition usage_lines :: "string \<Rightarrow> string list" where
  "usage_lines progname =
     [''Resource Manager Client'' @ [newline],
      ''Send management commands to the resource manager over '' @ SERVER_SOCKET @ ''.'' @ [newline, newline],
      ''Usage:'' @ [newline],
      ''  '' @ progname @ '' <command> [arguments]'' @ [newline, newline],
      ''Query Commands:'' @ [newline],
      usage_entry ''get-mem-info vid=<vm_id>'' ''Show memory information for a VM.'',
      usage_entry ''get-mem-pool'' ''Show the current memory pool state.'',
      usage_entry ''get-vms'' ''Show all VMs and their allocated memory objects.'',
      usage_entry ''get-num-nodes'' ''Show the number of available NUMA nodes.'',
      usage_entry ''get-node-info nid=<node_id>'' ''Show details for a C-NUMA node.'' @ [newline],
      ''Memory Management Commands:'' @ [newline],
      usage_entry ''alloc-mem nid=<node_id> vid=<vm_id> size=<mb>'' ''Allocate memory for a VM.'',
      usage_entry ''free-mem vid=<vm_id> memid=<memdev_id>'' ''Release an allocated memory device.'',
      usage_entry ''attach-mem memid=<memory_id> vid=<vm_id> nid=<node_id>''
        ''Attach memory to a VM on a NUMA node.'',
      usage_entry ''detach-mem memid=<memory_id> vid=<vm_id>'' ''Detach memory from a VM.'' @ [newline],
      ''VM Lifecycle Commands:'' @ [newline],
      usage_entry ''create-vm vid=<vm_id> coreset=[start-end,...]'' ''Register a VM and its CPU core set.'',
      usage_entry ''destroy-vm vid=<vm_id>'' ''Remove a VM from the manager.'',
      usage_entry ''start-vm vid=<vm_id>'' ''Mark a VM as started.'',
      usage_entry ''stop-vm vid=<vm_id>'' ''Mark a VM as stopped.'' @ [newline],
      ''Examples:'' @ [newline],
      ''  '' @ progname @ '' get-mem-info vid=3'' @ [newline],
      ''  '' @ progname @ '' alloc-mem nid=1 vid=3 size=1024'' @ [newline],
      ''  '' @ progname @ '' create-vm vid=3 coreset=[20-30,50-60]'' @ [newline]]"

definition print_usage :: "'w os \<Rightarrow> string \<Rightarrow> 'w \<Rightarrow> 'w" where
  "print_usage os progname w = fold (os_printf os True) (usage_lines progname) w"

section \<open>Sending a command\<close>

text \<open>The value is the status of an \<open>exit\<close>, or \<open>None\<close> when the function returns.  The answer is read
  as a string from a buffer that was zeroed before.\<close>

definition send_command :: "'w os \<Rightarrow> 'j json_lib \<Rightarrow> string \<Rightarrow> 'w \<Rightarrow> (int option \<times> 'w) res" where
  "send_command os js command w =
     (let (sockfd, w) = os_socket os w in
      if sockfd < 0 then Inr (Some 1, os_perror os ''Socket creation failed'' w)
      else
        let (r, w) = os_connect os sockfd (take 107 SERVER_SOCKET) w in
        if r < 0 then
          Inr (Some 1, snd (os_close os sockfd (os_perror os ''Socket connection failed'' w)))
        else
          let (_, w) = os_send os sockfd command w;
              (answer, w) = sys_recv os sockfd (nat BUFFER_SIZE) w in
          bindE (request_text answer) (\<lambda>buffer.
          Inr (None, snd (os_close os sockfd (print_results os js buffer w)))))"

section \<open>Commands\<close>

text \<open>The number of words of a command line, the program's name counted.\<close>

definition client_argc :: "string \<Rightarrow> nat option" where
  "client_argc cmd_action =
     (if cmd_action = ''get-mem-info'' then Some 3
      else if cmd_action = ''get-mem-pool'' then Some 2
      else if cmd_action = ''get-vms'' then Some 2
      else if cmd_action = ''get-num-nodes'' then Some 2
      else if cmd_action = ''get-node-info'' then Some 3
      else if cmd_action = ''alloc-mem'' then Some 5
      else if cmd_action = ''free-mem'' then Some 4
      else if cmd_action = ''attach-mem'' then Some 5
      else if cmd_action = ''detach-mem'' then Some 4
      else if cmd_action = ''create-vm'' then Some 4
      else if cmd_action = ''destroy-vm'' then Some 3
      else if cmd_action = ''start-vm'' then Some 3
      else if cmd_action = ''stop-vm'' then Some 3
      else None)"

fun spaced :: "string list \<Rightarrow> string" where
  "spaced [] = []"
| "spaced [a] = a"
| "spaced (a # as) = a @ '' '' @ spaced as"

text \<open>The request, or the complaint.\<close>

definition client_command :: "string \<Rightarrow> string list \<Rightarrow> string + string" where
  "client_command cmd_action args =
     (case client_argc cmd_action of
        None \<Rightarrow> Inl (''Unknown command: '' @ cmd_action @ [newline])
      | Some n \<Rightarrow>
          if 2 + length args \<noteq> n then Inl (''Invalid usage'' @ [newline])
          else Inr (fst (snprintf BUFFER_SIZE (spaced (cmd_action # args)))))"

definition client_main :: "'w os \<Rightarrow> 'j json_lib \<Rightarrow> string list \<Rightarrow> 'w \<Rightarrow> (int \<times> 'w) res" where
  "client_main os js argv w =
     (case argv of
        [] \<Rightarrow> Inl BadPointer
      | [progname] \<Rightarrow> Inr (-1, print_usage os progname w)
      | progname # cmd_action # args \<Rightarrow>
          case client_command cmd_action args of
            Inl complaint \<Rightarrow> Inr (-1, print_usage os progname (os_printf os True complaint w))
          | Inr cmd_full \<Rightarrow>
              bindE (send_command os js cmd_full w) (\<lambda>(status, w).
              Inr (case status of Some n \<Rightarrow> n | None \<Rightarrow> 0, w)))"

end
