(* ===== verification/VmCorrect.thy ===== *)
theory VmCorrect
  imports VmManager Pool
begin

text \<open>
  Correctness of the VM manager.  The invariant \<open>rm_inv\<close> of the process ties the three tables
  together: at most one entry per VM id and a count that agrees, one connected guest agent per
  running VM, and the ledger of \<open>SegmentAllocator\<close>, which here is the answer of
  \<open>vm_mngr_instance_get_mem\<close>, exact for the pool.  Every operation keeps it.
\<close>

section \<open>Lookup\<close>

definition live_ids :: "vm_instance list \<Rightarrow> int list" where
  "live_ids VMs = map VM_id (filter VM_initialized VMs)"

lemma live_ids_append: "live_ids (xs @ ys) = live_ids xs @ live_ids ys"
  by (simp add: live_ids_def)

lemma live_ids_Cons: "live_ids (V # Vs) = (if VM_initialized V then VM_id V # live_ids Vs else live_ids Vs)"
  by (simp add: live_ids_def)

lemma find_vm_None: "find_vm v VMs = None \<longleftrightarrow> v \<notin> set (live_ids VMs)"
  by (induction VMs) (auto simp: live_ids_def)

lemma find_vm_append:
  "find_vm v (xs @ ys) =
     (case find_vm v xs of Some k \<Rightarrow> Some k | None \<Rightarrow> map_option ((+) (length xs)) (find_vm v ys))"
  by (cases "find_vm v ys"; induction xs) (auto split: option.splits)

lemma find_vm_Some:
  "find_vm v VMs = Some k \<Longrightarrow> k < length VMs \<and> VM_id (VMs ! k) = v \<and> VM_initialized (VMs ! k)"
  by (induction VMs arbitrary: k) (auto split: if_splits)

lemma find_vm_nth:
  assumes "distinct (live_ids VMs)" "k < length VMs" "VM_initialized (VMs ! k)"
  shows "find_vm (VM_id (VMs ! k)) VMs = Some k"
  using assms
proof (induction VMs arbitrary: k)
  case (Cons V VMs)
  show ?case
  proof (cases k)
    case 0
    with Cons.prems show ?thesis by simp
  next
    case (Suc j)
    with Cons.prems have "VM_id (VMs ! j) \<in> set (live_ids VMs)" by (auto simp: live_ids_def)
    with Suc Cons show ?thesis by (auto simp: live_ids_Cons split: if_splits)
  qed
qed simp

text \<open>A table around one of its entries.\<close>

lemma table_split:
  assumes "k < length VMs"
  obtains xs U ys where "VMs = xs @ U # ys" "length xs = k" "\<And>V. VMs[k := V] = xs @ V # ys"
    "VMs ! k = U"
  using that [of "take k VMs" "VMs ! k" "drop (Suc k) VMs"] assms
  by (simp add: id_take_nth_drop [symmetric] upd_conv_take_nth_drop)

lemma list_all_update: "list_all P xs \<Longrightarrow> P y \<Longrightarrow> list_all P (xs[k := y])"
  using set_update_subset_insert [of xs k y] by (auto simp: list_all_iff)

lemma find_vm_put:
  assumes "find_vm v VMs = Some k" "VM_id V = v" "VM_initialized V"
  shows "find_vm w (VMs[k := V]) = find_vm w VMs" "live_ids (VMs[k := V]) = live_ids VMs"
proof -
  from find_vm_Some [OF assms(1)] have k: "k < length VMs" "VM_id (VMs ! k) = v"
    "VM_initialized (VMs ! k)" by auto
  obtain xs U ys where xs: "VMs = xs @ U # ys" "length xs = k" "\<And>V. VMs[k := V] = xs @ V # ys"
    "VMs ! k = U"
    using table_split [OF k(1)] by blast
  have U: "VM_id U = v" "VM_initialized U" using k xs(4) by simp_all
  show "find_vm w (VMs[k := V]) = find_vm w VMs"
    unfolding xs(3) using U assms(2,3) by (cases "find_vm w xs") (simp_all add: xs(1) find_vm_append)
  show "live_ids (VMs[k := V]) = live_ids VMs"
    unfolding xs(3) using U assms(2,3) by (simp add: xs(1) live_ids_append live_ids_Cons)
qed

lemma find_vm_new:
  assumes "find_vm v VMs = None" "k < length VMs" "\<not> VM_initialized (VMs ! k)"
    "VM_id V = v" "VM_initialized V"
  shows "find_vm w (VMs[k := V]) = (if w = v then Some k else find_vm w VMs)"
    "length (live_ids (VMs[k := V])) = Suc (length (live_ids VMs))"
    "distinct (live_ids VMs) \<Longrightarrow> distinct (live_ids (VMs[k := V]))"
proof -
  obtain xs U ys where xs: "VMs = xs @ U # ys" "length xs = k" "\<And>V. VMs[k := V] = xs @ V # ys"
    "VMs ! k = U"
    using table_split [OF assms(2)] by blast
  have ids: "live_ids VMs = live_ids xs @ live_ids ys"
    using assms(3) xs(4) by (simp add: xs(1) live_ids_append live_ids_Cons)
  have no: "find_vm v xs = None" "find_vm v ys = None"
    using assms(1) by (auto simp: find_vm_None ids)
  have old: "find_vm w VMs = (case find_vm w xs of Some k \<Rightarrow> Some k
      | None \<Rightarrow> map_option ((+) (length xs)) (map_option Suc (find_vm w ys)))"
    using assms(3) xs(4) by (cases "find_vm w xs") (simp_all add: xs(1) find_vm_append)
  show "find_vm w (VMs[k := V]) = (if w = v then Some k else find_vm w VMs)"
    unfolding xs(3) old using no xs(2) assms(4,5) by (cases "find_vm w xs") (auto simp: find_vm_append)
  show "length (live_ids (VMs[k := V])) = Suc (length (live_ids VMs))"
    unfolding xs(3) by (simp add: live_ids_append live_ids_Cons assms ids)
  show "distinct (live_ids VMs) \<Longrightarrow> distinct (live_ids (VMs[k := V]))"
    using no unfolding xs(3) by (auto simp: live_ids_append live_ids_Cons assms ids find_vm_None)
qed

lemma find_vm_drop:
  assumes "find_vm v VMs = Some k" "distinct (live_ids VMs)" "\<not> VM_initialized V"
  shows "find_vm w (VMs[k := V]) = (if w = v then None else find_vm w VMs)"
    "Suc (length (live_ids (VMs[k := V]))) = length (live_ids VMs)"
    "distinct (live_ids (VMs[k := V]))"
proof -
  from find_vm_Some [OF assms(1)] have k: "k < length VMs" "VM_id (VMs ! k) = v"
    "VM_initialized (VMs ! k)" by auto
  obtain xs U ys where xs: "VMs = xs @ U # ys" "length xs = k" "\<And>V. VMs[k := V] = xs @ V # ys"
    "VMs ! k = U"
    using table_split [OF k(1)] by blast
  have ids: "live_ids VMs = live_ids xs @ v # live_ids ys"
    using k xs(4) by (simp add: xs(1) live_ids_append live_ids_Cons)
  have no: "find_vm v xs = None" "find_vm v ys = None"
    using assms(2) by (auto simp: find_vm_None ids)
  have old: "find_vm w VMs = (case find_vm w xs of Some k \<Rightarrow> Some k
      | None \<Rightarrow> map_option ((+) (length xs)) (if w = v then Some 0 else map_option Suc (find_vm w ys)))"
    using k(2,3) xs(4) by (cases "find_vm w xs") (simp_all add: xs(1) find_vm_append)
  show "find_vm w (VMs[k := V]) = (if w = v then None else find_vm w VMs)"
    unfolding xs(3) old using no assms(3) by (cases "find_vm w xs") (auto simp: find_vm_append)
  show "Suc (length (live_ids (VMs[k := V]))) = length (live_ids VMs)"
    unfolding xs(3) by (simp add: live_ids_append live_ids_Cons assms ids)
  show "distinct (live_ids (VMs[k := V]))"
    using assms(2) unfolding xs(3) by (simp add: live_ids_append live_ids_Cons assms(3) ids)
qed

lemma free_slot_free:
  assumes "length (live_ids VMs) < length VMs"
  shows "free_slot VMs < length VMs \<and> \<not> VM_initialized (VMs ! free_slot VMs)"
  using assms by (induction VMs rule: free_slot.induct) (auto simp: live_ids_def)

section \<open>The invariant\<close>

definition vm_wf :: "vm_instance \<Rightarrow> bool" where
  "vm_wf VM \<longleftrightarrow>
     0 \<le> VM_memdev_counter VM \<and>
     distinct (map memdev_idx (VM_attached_devs VM)) \<and>
     (\<forall>d \<in> set (VM_attached_devs VM). 0 \<le> memdev_idx d \<and> memdev_idx d < VM_memdev_counter VM) \<and>
     (\<exists>ids. core_ids (VM_core_set VM) = Inr ids \<and> VM_num_cores VM = int (length ids)) \<and>
     VM_num_cores VM \<le> INT_MAX \<and>
     (VM_running VM \<longrightarrow> perf_live VM)"

definition slot_wf :: "vm_instance \<Rightarrow> bool" where
  "slot_wf VM \<longleftrightarrow> (VM_initialized VM \<longrightarrow> vm_wf VM) \<and> (VM_running VM \<longrightarrow> VM_initialized VM)"

definition mngr_wf :: "vm_instance_manager \<Rightarrow> bool" where
  "mngr_wf m \<longleftrightarrow>
     length (mngr_VMs m) = nat MAX_NUM_VM \<and>
     mngr_count m = int (length (live_ids (mngr_VMs m))) \<and>
     distinct (live_ids (mngr_VMs m)) \<and>
     list_all slot_wf (mngr_VMs m)"

definition vm_running :: "vm_instance_manager \<Rightarrow> int \<Rightarrow> bool" where
  "vm_running m v =
     (case vm_mngr_get_instance v m of None \<Rightarrow> False | Some k \<Rightarrow> VM_running (mngr_VMs m ! k))"

definition vm_ledger :: "vm_instance_manager \<Rightarrow> memory_request ledger" where
  "vm_ledger m = (\<lambda>(v, i). vm_mngr_instance_get_mem v i m)"

definition rm_inv :: "'w rm_state \<Rightarrow> bool" where
  "rm_inv s \<longleftrightarrow>
     mngr_wf (rm_vms s) \<and> agents_wf (rm_agents s) \<and>
     (\<forall>v. agent_up (rm_agents s) v = vm_running (rm_vms s) v) \<and>
     ledger_inv pool_wf pool_owner req_span req_valid (rm_pool s) (vm_ledger (rm_vms s))"

lemma rm_inv_world [simp]: "rm_inv (s\<lparr>rm_world := w\<rparr>) = rm_inv s"
  by (simp add: rm_inv_def)

lemma mngr_wf_count: "mngr_wf m \<Longrightarrow> 0 \<le> mngr_count m \<and> mngr_count m \<le> MAX_NUM_VM"
proof -
  assume "mngr_wf m"
  moreover have "length (live_ids (mngr_VMs m)) \<le> length (mngr_VMs m)" by (simp add: live_ids_def)
  ultimately show ?thesis by (simp add: mngr_wf_def MAX_NUM_VM_def)
qed

lemma get_instanceD:
  assumes "vm_mngr_get_instance v m = Some k" "mngr_wf m"
  shows "k < length (mngr_VMs m)" "VM_id (mngr_VMs m ! k) = v" "VM_initialized (mngr_VMs m ! k)"
    "vm_wf (mngr_VMs m ! k)"
  using find_vm_Some [of v "mngr_VMs m" k] assms
  by (auto simp: vm_mngr_get_instance_def mngr_wf_def list_all_length slot_wf_def)

text \<open>Replacing a live entry by one of the same id.\<close>

lemma put_live:
  assumes "vm_mngr_get_instance v m = Some k" "mngr_wf m" "VM_id V = v" "VM_initialized V" "vm_wf V"
  shows "mngr_wf (mngr_put k V m)"
    and "vm_mngr_get_instance w (mngr_put k V m) = vm_mngr_get_instance w m"
    and "vm_running (mngr_put k V m) w = (if w = v then VM_running V else vm_running m w)"
    and "vm_mngr_instance_get_mem w i (mngr_put k V m) =
           (if w = v then map_option memory_req (find_memdev i V) else vm_mngr_instance_get_mem w i m)"
proof -
  note k = get_instanceD [OF assms(1,2)]
  have find: "find_vm v (mngr_VMs m) = Some k" using assms(1) by (simp add: vm_mngr_get_instance_def)
  note put = find_vm_put [OF find assms(3,4)]
  have other: "j \<noteq> k" if "vm_mngr_get_instance w m = Some j" "w \<noteq> v" for j w
    using get_instanceD(2) [OF that(1) assms(2)] k(2) that(2) by auto
  show get: "vm_mngr_get_instance w (mngr_put k V m) = vm_mngr_get_instance w m" for w
    by (simp add: vm_mngr_get_instance_def mngr_put_def put)
  show "mngr_wf (mngr_put k V m)"
    using assms(2,4,5) put(2)
    by (simp add: mngr_wf_def mngr_put_def list_all_update slot_wf_def [of V])
  have at: "mngr_VMs (mngr_put k V m) ! j = (if j = k then V else mngr_VMs m ! j)" for j
    using k(1) by (simp add: mngr_put_def nth_list_update)
  show "vm_running (mngr_put k V m) w = (if w = v then VM_running V else vm_running m w)"
    using other assms(1) by (auto simp: vm_running_def get at split: option.splits)
  show "vm_mngr_instance_get_mem w i (mngr_put k V m) =
      (if w = v then map_option memory_req (find_memdev i V) else vm_mngr_instance_get_mem w i m)"
    using other assms(1) by (auto simp: vm_mngr_instance_get_mem_def get at split: option.splits)
qed

section \<open>Create\<close>

lemma zero_mngr_wf: "mngr_wf zero_mngr" "mngr_count zero_mngr = 0"
  by (simp_all add: mngr_wf_def zero_mngr_def live_ids_def slot_wf_def zero_vm_def list_all_iff)

lemma new_entry:
  assumes wf: "mngr_wf m" and room: "mngr_count m < MAX_NUM_VM" and new: "\<not> vm_mngr_check_exit v m"
    and U: "VM_id U = v" "VM_initialized U" "VM_attached_devs U = []" "\<not> VM_running U" "slot_wf U"
  defines "k \<equiv> free_slot (mngr_VMs m)"
  defines "m' \<equiv> (mngr_put k U m)\<lparr>mngr_count := mngr_count m + 1\<rparr>"
  shows "mngr_wf m'" and "vm_ledger m' = vm_ledger m" and "vm_running m' = vm_running m"
    and "vm_mngr_check_exit w m' \<longleftrightarrow> w = v \<or> vm_mngr_check_exit w m"
proof -
  let ?Vs = "mngr_VMs m"
  from wf have cnt: "mngr_count m = int (length (live_ids ?Vs))" "length ?Vs = nat MAX_NUM_VM"
    "distinct (live_ids ?Vs)" "list_all slot_wf ?Vs" by (auto simp: mngr_wf_def)
  have "length (live_ids ?Vs) < length ?Vs" using room cnt by auto
  from free_slot_free [OF this] have k: "k < length ?Vs" "\<not> VM_initialized (?Vs ! k)"
    by (simp_all add: k_def)
  have none: "vm_mngr_get_instance v m = None" using new by (simp add: vm_mngr_check_exit_def)
  note find = find_vm_new [OF none [unfolded vm_mngr_get_instance_def] k U(1,2)]
  show "mngr_wf m'" using cnt find room U(5) by (simp add: mngr_wf_def m'_def mngr_put_def list_all_update)
  have get: "vm_mngr_get_instance w m' = (if w = v then Some k else vm_mngr_get_instance w m)" for w
    using find(1) by (simp add: vm_mngr_get_instance_def m'_def mngr_put_def)
  then show "vm_mngr_check_exit w m' \<longleftrightarrow> w = v \<or> vm_mngr_check_exit w m" by (simp add: vm_mngr_check_exit_def)
  have at: "mngr_VMs m' ! j = (if j = k then U else ?Vs ! j)" for j
    using k(1) by (simp add: m'_def mngr_put_def nth_list_update)
  have other: "j \<noteq> k" if "vm_mngr_get_instance w m = Some j" for j w
    using get_instanceD(3) [OF that wf] k(2) by auto
  have "vm_mngr_instance_get_mem w i m' = vm_mngr_instance_get_mem w i m" for w i
    using other none U(3)
    by (auto simp: vm_mngr_instance_get_mem_def get at find_memdev_def split: option.splits)
  then show "vm_ledger m' = vm_ledger m" by (simp add: vm_ledger_def)
  have "vm_running m' w = vm_running m w" for w
    using other none U(4) by (auto simp: vm_running_def get at split: option.splits)
  then show "vm_running m' = vm_running m" by blast
qed

lemma create_correct:
  assumes wf: "mngr_wf m" and run: "vm_mngr_instance_create v cs m = Inr (r, m')"
  shows "mngr_wf m' \<and> vm_ledger m' = vm_ledger m \<and> vm_running m' = vm_running m \<and>
         (if mngr_count m = MAX_NUM_VM \<or> vm_mngr_check_exit v m then r = -1 \<and> m' = m
          else r = 0 \<and> mngr_count m' = mngr_count m + 1 \<and>
            (\<forall>w. vm_mngr_check_exit w m' \<longleftrightarrow> w = v \<or> vm_mngr_check_exit w m))"
proof (cases "mngr_count m = MAX_NUM_VM \<or> vm_mngr_check_exit v m")
  case True
  then have "r = -1 \<and> m' = m"
    using run mngr_wf_count [OF wf] by (auto simp: vm_mngr_instance_create_def split: if_splits)
  with True wf show ?thesis by simp
next
  case False
  define k where "k = free_slot (mngr_VMs m)"
  define V where "V = (mngr_VMs m ! k)\<lparr>VM_id := v, VM_num_cores := 0, VM_memdev_counter := 0,
                    VM_core_set := fst (snprintf CORE_SET_LEN cs)\<rparr>"
  have room: "mngr_count m < MAX_NUM_VM" and lt: "\<not> MAX_NUM_VM \<le> mngr_count m"
    using False mngr_wf_count [OF wf] by auto
  from run False lt obtain n where
    walk: "vm_mngr_for_each_core (VM_core_set V) vm_num_core_update 0 = Inr n" and r: "r = 0" and
    free: "\<not> VM_initialized (mngr_VMs m ! k)" and
    m': "m' = (mngr_put k (V\<lparr>VM_num_cores := n, VM_attached_devs := [], VM_initialized := True\<rparr>) m)
                \<lparr>mngr_count := mngr_count m + 1\<rparr>"
    by (auto simp: vm_mngr_instance_create_def Let_def k_def [symmetric] V_def bindE_eq_Inr
        c_add_def ck_eq_Inr BUG_ON_eq_Inr)
  define U where "U = V\<lparr>VM_num_cores := n, VM_attached_devs := [], VM_initialized := True\<rparr>"
  obtain ids where ids: "core_ids (VM_core_set V) = Inr ids" using for_each_core_Inr [OF walk] by blast
  then have n: "n = int (length ids) \<and> n \<le> INT_MAX"
    using walk foldE_count [of ids 0 n] by (simp add: for_each_core_ids INT_MAX_def)
  have "length (live_ids (mngr_VMs m)) < length (mngr_VMs m)" using wf room by (simp add: mngr_wf_def)
  from free_slot_free(1) [OF this] wf free have "\<not> VM_running (mngr_VMs m ! k)"
    by (auto simp: mngr_wf_def list_all_length slot_wf_def k_def)
  then have "\<not> VM_running U" "VM_id U = v" "VM_initialized U" "VM_attached_devs U = []" "slot_wf U"
    using ids n by (simp_all add: slot_wf_def vm_wf_def U_def V_def)
  note new = new_entry [OF wf room _ this(2-4,1,5), folded k_def]
  show ?thesis using new False r by (simp add: m' U_def [symmetric])
qed

text \<open>The walk over the core set is the only step of the creation that can fault.\<close>

lemma create_walk:
  assumes wf: "mngr_wf m" and room: "mngr_count m < MAX_NUM_VM" and new: "\<not> vm_mngr_check_exit v m"
  shows "vm_mngr_instance_create v cs m =
           bindE (vm_mngr_for_each_core (fst (snprintf CORE_SET_LEN cs)) vm_num_core_update 0) (\<lambda>n.
           vm_mngr_instance_create v cs m)"
    and "vm_mngr_for_each_core (fst (snprintf CORE_SET_LEN cs)) vm_num_core_update 0 = Inr n \<Longrightarrow>
           \<exists>m'. vm_mngr_instance_create v cs m = Inr (0, m')"
proof -
  let ?Vs = "mngr_VMs m"
  from wf have "mngr_count m = int (length (live_ids ?Vs))" "length ?Vs = nat MAX_NUM_VM"
    by (auto simp: mngr_wf_def)
  with room have "length (live_ids ?Vs) < length ?Vs" by auto
  from free_slot_free [OF this] have slot: "\<not> VM_initialized (?Vs ! free_slot ?Vs)" ..
  have "in_int (mngr_count m + 1)" using mngr_wf_count [OF wf] room by (intro MAX_NUM_VM_in_int) auto
  with slot room new have eq: "vm_mngr_instance_create v cs m =
      bindE (vm_mngr_for_each_core (fst (snprintf CORE_SET_LEN cs)) vm_num_core_update 0) (\<lambda>n.
        Inr (0, (mngr_put (free_slot ?Vs) ((?Vs ! free_slot ?Vs)\<lparr>VM_id := v, VM_memdev_counter := 0,
          VM_core_set := fst (snprintf CORE_SET_LEN cs), VM_num_cores := n, VM_attached_devs := [],
          VM_initialized := True\<rparr>) m)\<lparr>mngr_count := mngr_count m + 1\<rparr>))"
    by (simp add: vm_mngr_instance_create_def Let_def c_add_def)
  then show "vm_mngr_instance_create v cs m =
      bindE (vm_mngr_for_each_core (fst (snprintf CORE_SET_LEN cs)) vm_num_core_update 0) (\<lambda>n.
      vm_mngr_instance_create v cs m)"
    by (cases "vm_mngr_for_each_core (fst (snprintf CORE_SET_LEN cs)) vm_num_core_update 0") simp_all
  show "\<exists>m'. vm_mngr_instance_create v cs m = Inr (0, m')"
    if "vm_mngr_for_each_core (fst (snprintf CORE_SET_LEN cs)) vm_num_core_update 0 = Inr n"
    using eq that by simp
qed

lemma create_total:
  assumes "mngr_wf m" "core_ids (fst (snprintf CORE_SET_LEN cs)) = Inr ids" "int (length ids) \<le> INT_MAX"
  shows "\<exists>r m'. vm_mngr_instance_create v cs m = Inr (r, m')"
proof (cases "mngr_count m < MAX_NUM_VM \<and> \<not> vm_mngr_check_exit v m")
  case True
  have "vm_mngr_for_each_core (fst (snprintf CORE_SET_LEN cs)) vm_num_core_update 0 = Inr (int (length ids))"
    using foldE_count_total [of 0 ids] assms(2,3) by (simp add: for_each_core_ids)
  from create_walk(2) [OF assms(1) _ _ this] True show ?thesis by blast
next
  case False
  then show ?thesis by (auto simp: vm_mngr_instance_create_def)
qed

lemma create_no_cores:
  assumes "mngr_wf m" "mngr_count m < MAX_NUM_VM" "\<not> vm_mngr_check_exit v m"
  shows "vm_mngr_instance_create v [] m = Inl Aborted"
  by (subst create_walk(1) [OF assms])
    (simp add: snprintf_def vm_mngr_for_each_core_def)

lemma create_inv:
  assumes "rm_inv s" "vm_mngr_instance_create v cs (rm_vms s) = Inr (r, m')"
  shows "rm_inv (s\<lparr>rm_vms := m'\<rparr>)"
  using create_correct [of "rm_vms s" v cs r m'] assms by (simp add: rm_inv_def)

section \<open>Start and stop\<close>

text \<open>Writing back an entry whose devices and identity did not change.\<close>

lemma vm_wf_frame:
  assumes "perf_frame VM VM'" "vm_wf VM" "VM_running VM \<longrightarrow> perf_live VM'"
  shows "vm_wf VM'"
  using assms by (auto simp: perf_frame_def vm_wf_def)

lemma put_frame:
  assumes inv: "rm_inv s" and get: "vm_mngr_get_instance v (rm_vms s) = Some k"
    and V: "perf_frame (vm_at s k) V" and wf: "vm_wf (V\<lparr>VM_running := b\<rparr>)"
    and ag: "agents_wf ag" "\<And>u. agent_up ag u = (if u = v then b else agent_up (rm_agents s) u)"
  shows "rm_inv ((put_vm k (V\<lparr>VM_running := b\<rparr>) s)\<lparr>rm_agents := ag, rm_world := w\<rparr>)"
proof -
  let ?U = "V\<lparr>VM_running := b\<rparr>"
  have mwf: "mngr_wf (rm_vms s)" using inv by (simp add: rm_inv_def)
  note k = get_instanceD [OF get mwf]
  have U: "VM_id ?U = v" "VM_initialized ?U" "VM_attached_devs ?U = VM_attached_devs (vm_at s k)"
    using k V by (simp_all add: perf_frame_def vm_at_def)
  note put = put_live [OF get mwf U(1,2) wf]
  have "map_option memory_req (find_memdev i ?U) = vm_mngr_instance_get_mem v i (rm_vms s)" for i
    using U(3) get by (simp add: vm_mngr_instance_get_mem_def find_memdev_def vm_at_def)
  then have "vm_ledger (mngr_put k ?U (rm_vms s)) = vm_ledger (rm_vms s)"
    by (auto simp: vm_ledger_def fun_eq_iff put(4))
  with inv put(1,3) ag show ?thesis by (simp add: rm_inv_def put_vm_def)
qed

lemma not_running_down: "rm_inv s \<Longrightarrow> vm_mngr_get_instance v (rm_vms s) = Some k \<Longrightarrow>
    agent_up (rm_agents s) v = VM_running (vm_at s k)"
  by (simp add: rm_inv_def vm_running_def vm_at_def)

text \<open>A start that does something writes the entry back, running exactly if the agent is connected.\<close>

lemma start_result:
  assumes inv: "rm_inv s" and run: "vm_mngr_instance_start os v s = Inr (r, s')"
    and get: "vm_mngr_get_instance v (rm_vms s) = Some k" and off: "\<not> VM_running (vm_at s k)"
  obtains V b ag w w1 w2 ret where
    "s' = (put_vm k (V\<lparr>VM_running := b\<rparr>) s)\<lparr>rm_agents := ag, rm_world := w\<rparr>"
    "perf_frame (vm_at s k) V" "vm_wf (V\<lparr>VM_running := b\<rparr>)" "r = (if b then 0 else -1)"
    "guest_agent_init os v (rm_agents s, w1) = Inr (ret, ag, w2)"
    "agents_wf ag" "\<And>u. agent_up ag u = (if u = v then b else agent_up (rm_agents s) u)"
proof -
  let ?VM = "vm_at s k"
  have "mngr_wf (rm_vms s)" using inv by (simp add: rm_inv_def)
  then have wfVM: "vm_wf ?VM" using get_instanceD(4) [OF get] by (simp add: vm_at_def)
  then obtain ids where ids: "core_ids (VM_core_set ?VM) = Inr ids" "VM_num_cores ?VM = int (length ids)"
    by (auto simp: vm_wf_def)
  from run get off obtain V1 w1 ret ag w2 where
    pset: "vm_perf_counter_setup os (?VM, rm_world s) = Inr (V1, w1)" and
    ga: "guest_agent_init os v (rm_agents s, w1) = Inr (ret, ag, w2)" and
    fin: "(if ret < 0 then
            bindE (vm_perf_counter_teardown os (V1, w2)) (\<lambda>(VM, w).
            Inr (-1, (put_vm k VM s)\<lparr>rm_agents := ag, rm_world := w\<rparr>))
          else
            Inr (0, (put_vm k (V1\<lparr>VM_running := True\<rparr>) s)\<lparr>rm_agents := ag, rm_world := w2\<rparr>))
          = Inr (r, s')"
    by (auto simp: vm_mngr_instance_start_def bindE_eq_Inr Let_def)
  from perf_setup_live [OF pset ids] have V1: "perf_frame ?VM V1" "perf_live V1" by auto
  have link: "agents.linked (rm_agents s) (agent_up (rm_agents s))" using inv by (simp add: agents.linked_def rm_inv_def)
  have "\<not> agent_up (rm_agents s) v" using not_running_down [OF inv get] off by simp
  from agents.linked_open [OF link this ga] have ag: "agents_wf ag" "ret = 0 \<or> ret = -1"
    "\<And>u. agent_up ag u = (if u = v then ret = 0 else agent_up (rm_agents s) u)" by (simp_all add: agents.linked_def)
  show thesis
  proof (cases "ret = 0")
    case True
    have "vm_wf (V1\<lparr>VM_running := True\<rparr>)"
      using wfVM V1 by (auto simp: vm_wf_def perf_frame_def perf_live_def fds_upto_def)
    with True fin V1(1) ag ga show thesis
      by (intro that [where V = V1 and b = True and ag = ag and w = w2]) auto
  next
    case neg: False
    with fin ag(2) obtain V w where V: "vm_perf_counter_teardown os (V1, w2) = Inr (V, w)"
      "r = -1" "s' = (put_vm k V s)\<lparr>rm_agents := ag, rm_world := w\<rparr>" by (auto simp: bindE_eq_Inr)
    from perf_teardown_frame [OF V(1)] V1(1) have fr: "perf_frame ?VM V" by (rule perf_frame_trans [rotated])
    with off have halt: "V\<lparr>VM_running := False\<rparr> = V" by (simp add: perf_frame_def)
    have "vm_wf V" using vm_wf_frame [OF fr wfVM] off by simp
    with V fr neg ag ga halt show thesis
      by (intro that [where V = V and b = False and ag = ag and w = w]) auto
  qed
qed

lemma start_inv:
  assumes inv: "rm_inv s" and run: "vm_mngr_instance_start os v s = Inr (r, s')"
  shows "rm_inv s' \<and> rm_pool s' = rm_pool s \<and> (r = 0 \<or> r = -1) \<and>
         (r = 0 \<longleftrightarrow> vm_running (rm_vms s') v) \<and>
         (\<forall>u. u \<noteq> v \<longrightarrow> vm_running (rm_vms s') u = vm_running (rm_vms s) u)"
proof (cases "\<exists>k. vm_mngr_get_instance v (rm_vms s) = Some k \<and> \<not> VM_running (vm_at s k)")
  case False
  with run inv show ?thesis
    by (auto simp: vm_mngr_instance_start_def vm_running_def vm_at_def split: option.splits)
next
  case True
  then obtain k where k: "vm_mngr_get_instance v (rm_vms s) = Some k" "\<not> VM_running (vm_at s k)" by blast
  from start_result [OF inv run k] obtain V b ag w where
    s': "s' = (put_vm k (V\<lparr>VM_running := b\<rparr>) s)\<lparr>rm_agents := ag, rm_world := w\<rparr>"
    and V: "perf_frame (vm_at s k) V" "vm_wf (V\<lparr>VM_running := b\<rparr>)" "r = (if b then 0 else -1)"
    and ag: "agents_wf ag" "\<And>u. agent_up ag u = (if u = v then b else agent_up (rm_agents s) u)" by metis
  from put_frame [OF inv k(1) V(1,2) ag] have inv': "rm_inv s'" by (simp add: s')
  have mwf: "mngr_wf (rm_vms s)" using inv by (simp add: rm_inv_def)
  have U: "VM_id (V\<lparr>VM_running := b\<rparr>) = v" "VM_initialized (V\<lparr>VM_running := b\<rparr>)"
    using get_instanceD(2,3) [OF k(1) mwf] V(1) by (simp_all add: perf_frame_def vm_at_def)
  from put_live(3) [OF k(1) mwf U V(2)] inv' V(3) show ?thesis by (simp add: s' put_vm_def)
qed

text \<open>The second half of a stop, after the flag is cleared: the agent is closed, then the counters.\<close>

lemma close_entry:
  assumes inv: "rm_inv s" and get: "vm_mngr_get_instance v (rm_vms s) = Some k" and on: "VM_running (vm_at s k)"
    and cl: "guest_agent_cleanup os v (rm_agents s, w) = Inr (ag, w1)"
    and td: "vm_perf_counter_teardown os ((vm_at s k)\<lparr>VM_running := False\<rparr>, w1) = Inr (V, w2)"
  shows "rm_inv ((put_vm k V s)\<lparr>rm_agents := ag, rm_world := w2\<rparr>)"
    and "vm_running (mngr_put k V (rm_vms s)) u = (u \<noteq> v \<and> vm_running (rm_vms s) u)"
proof -
  let ?VM = "vm_at s k"
  have mwf: "mngr_wf (rm_vms s)" using inv by (simp add: rm_inv_def)
  note k = get_instanceD [OF get mwf]
  have link: "agents.linked (rm_agents s) (agent_up (rm_agents s))"
    using inv by (simp add: agents.linked_def rm_inv_def)
  have "agent_up (rm_agents s) v" using not_running_down [OF inv get] on by simp
  from agents.linked_close [OF link this, of os w] cl have
    ag: "agents_wf ag" "agent_up ag u = (if u = v then False else agent_up (rm_agents s) u)" for u
    by (auto simp: agents.linked_def)
  from perf_teardown_frame [OF td] have fr: "perf_frame (?VM\<lparr>VM_running := False\<rparr>) V" .
  then have V: "V\<lparr>VM_running := False\<rparr> = V" "perf_frame ?VM (V\<lparr>VM_running := True\<rparr>)"
    "\<not> VM_running V" using on by (simp_all add: perf_frame_def)
  have "vm_wf (?VM\<lparr>VM_running := False\<rparr>)" using k(4) by (auto simp: vm_wf_def vm_at_def)
  from vm_wf_frame [OF fr this] have wfV: "vm_wf (V\<lparr>VM_running := False\<rparr>)" by (simp add: V)
  have wfV': "vm_wf ((V\<lparr>VM_running := True\<rparr>)\<lparr>VM_running := False\<rparr>)" using wfV by simp
  from put_frame [OF inv get V(2) wfV' ag, of w2]
  show "rm_inv ((put_vm k V s)\<lparr>rm_agents := ag, rm_world := w2\<rparr>)" by (simp add: V(1))
  have U: "VM_id (V\<lparr>VM_running := False\<rparr>) = v" "VM_initialized (V\<lparr>VM_running := False\<rparr>)"
    using k fr by (simp_all add: perf_frame_def vm_at_def)
  from put_live(3) [OF get mwf U wfV]
  show "vm_running (mngr_put k V (rm_vms s)) u = (u \<noteq> v \<and> vm_running (rm_vms s) u)"
    by (simp add: V(1,3))
qed

lemma stop_inv:
  assumes inv: "rm_inv s" and run: "vm_mngr_instance_stop os v s = Inr (r, s')"
  shows "rm_inv s' \<and> rm_pool s' = rm_pool s \<and> \<not> vm_running (rm_vms s') v \<and>
         (\<forall>u. u \<noteq> v \<longrightarrow> vm_running (rm_vms s') u = vm_running (rm_vms s) u) \<and>
         r = (if vm_mngr_check_exit v (rm_vms s) then 0 else -1)"
proof (cases "vm_mngr_get_instance v (rm_vms s)")
  case None
  with run inv show ?thesis
    by (simp add: vm_mngr_instance_stop_def vm_running_def vm_mngr_check_exit_def)
next
  case (Some k)
  let ?VM = "vm_at s k"
  show ?thesis
  proof (cases "VM_running ?VM")
    case False
    with run inv Some show ?thesis
      by (simp add: vm_mngr_instance_stop_def vm_running_def vm_at_def vm_mngr_check_exit_def)
  next
    case True
    have "VM_id ?VM = v" using get_instanceD(2) [OF Some] inv by (simp add: rm_inv_def vm_at_def)
    with run Some True obtain ag w1 V w2 where
      "guest_agent_cleanup os v (rm_agents s, os_usleep os 1000 (rm_world s)) = Inr (ag, w1)"
      "vm_perf_counter_teardown os (?VM\<lparr>VM_running := False\<rparr>, w1) = Inr (V, w2)"
      and s': "s' = (put_vm k V s)\<lparr>rm_agents := ag, rm_world := w2\<rparr>" "r = 0"
      by (auto simp: vm_mngr_instance_stop_def bindE_eq_Inr Let_def)
    from close_entry [OF inv Some True this(1,2)] Some show ?thesis
      by (simp add: s' put_vm_def vm_mngr_check_exit_def)
  qed
qed

section \<open>Destroy\<close>

text \<open>An entry that is cleared takes its VM and the VM's memory out of the table.\<close>

lemma drop_entry:
  assumes wf: "mngr_wf m" and get: "vm_mngr_get_instance v m = Some k" and off: "\<not> VM_running (mngr_VMs m ! k)"
    and U: "\<not> VM_initialized U" "\<not> VM_running U"
  defines "m' \<equiv> (mngr_put k U m)\<lparr>mngr_count := mngr_count m - 1\<rparr>"
  shows "mngr_wf m'" and "vm_mngr_get_instance w m' = (if w = v then None else vm_mngr_get_instance w m)"
    and "vm_ledger m' = (\<lambda>k. if fst k = v then None else vm_ledger m k)" and "vm_running m' = vm_running m"
proof -
  note k = get_instanceD [OF get wf]
  have find: "find_vm v (mngr_VMs m) = Some k" using get by (simp add: vm_mngr_get_instance_def)
  have dist: "distinct (live_ids (mngr_VMs m))" using wf by (simp add: mngr_wf_def)
  note drop = find_vm_drop [OF find dist U(1)]
  show get': "vm_mngr_get_instance w m' = (if w = v then None else vm_mngr_get_instance w m)" for w
    using drop(1) by (simp add: vm_mngr_get_instance_def m'_def mngr_put_def)
  have at: "mngr_VMs m' ! j = (if j = k then U else mngr_VMs m ! j)" for j
    using k(1) by (simp add: m'_def mngr_put_def nth_list_update)
  have other: "j \<noteq> k" if "vm_mngr_get_instance w m = Some j" "w \<noteq> v" for j w
    using get_instanceD(2) [OF that(1) wf] k(2) that(2) by auto
  have "slot_wf U" using U by (simp add: slot_wf_def)
  then show "mngr_wf m'" using wf drop by (simp add: mngr_wf_def m'_def mngr_put_def list_all_update)
  show "vm_ledger m' = (\<lambda>k. if fst k = v then None else vm_ledger m k)"
    using other by (auto simp: vm_ledger_def fun_eq_iff vm_mngr_instance_get_mem_def get' at split: option.splits)
  have "vm_running m' w = vm_running m w" for w
    using other get off by (cases "w = v") (auto simp: vm_running_def get' at split: option.splits)
  then show "vm_running m' = vm_running m" by blast
qed

text \<open>
  Destroying never faults: it succeeds exactly for a VM that exists and does not run, and then
  no segment of the pool belongs to it and nobody else lost one.
\<close>

lemma destroy_correct:
  assumes inv: "rm_inv s"
  shows "\<exists>r s'. vm_mngr_instance_destroy v s = Inr (r, s') \<and> rm_inv s' \<and>
           (if vm_mngr_check_exit v (rm_vms s) \<and> \<not> vm_running (rm_vms s) v
            then r = 0 \<and> mngr_count (rm_vms s') = mngr_count (rm_vms s) - 1 \<and>
              (\<forall>w. vm_mngr_get_instance w (rm_vms s') =
                     (if w = v then None else vm_mngr_get_instance w (rm_vms s))) \<and>
              vm_ledger (rm_vms s') = (\<lambda>k. if fst k = v then None else vm_ledger (rm_vms s) k) \<and>
              pool_owner (rm_pool s') =
                (\<lambda>x. if pool_owner (rm_pool s) x = Some v then None else pool_owner (rm_pool s) x)
            else r = -1 \<and> s' = s)"
proof (cases "\<exists>k. vm_mngr_get_instance v (rm_vms s) = Some k \<and> \<not> VM_running (vm_at s k)")
  case False
  with inv show ?thesis
    by (auto simp: vm_mngr_instance_destroy_def vm_mngr_check_exit_def vm_running_def vm_at_def split: option.splits)
next
  case True
  then obtain k where get: "vm_mngr_get_instance v (rm_vms s) = Some k" and off: "\<not> VM_running (vm_at s k)" by blast
  let ?m = "rm_vms s"
  have mwf: "mngr_wf ?m" and led: "ledger_inv pool_wf pool_owner req_span req_valid (rm_pool s) (vm_ledger ?m)"
    using inv by (simp_all add: rm_inv_def)
  then have "pool_wf (rm_pool s)" by (simp add: ledger_inv_def)
  from memory_pool_release_vm_correct [OF this, of v] obtain p where
    p: "memory_pool_release_vm_memory v (rm_pool s) = Inr p"
      "pool_owner p = (\<lambda>x. if pool_owner (rm_pool s) x = Some v then None else pool_owner (rm_pool s) x)"
    by blast
  from pool.ledger_release_vm [OF led, of v] p(1) have
    led': "ledger_inv pool_wf pool_owner req_span req_valid p (\<lambda>k. if fst k = v then None else vm_ledger ?m k)" by auto
  define U where "U = (vm_at s k)\<lparr>VM_core_set := [], VM_initialized := False\<rparr>"
  have "\<not> VM_initialized U" "\<not> VM_running U" using off by (simp_all add: U_def)
  note drop = drop_entry [OF mwf get off [unfolded vm_at_def] this]
  have cnt: "in_int (mngr_count ?m - 1)"
    using mngr_wf_count [OF mwf] by (simp add: in_int_def INT_MIN_def INT_MAX_def MAX_NUM_VM_def)
  have id: "VM_id (vm_at s k) = v" using get_instanceD(2) [OF get mwf] by (simp add: vm_at_def)
  let ?s = "s\<lparr>rm_pool := p, rm_vms := (mngr_put k U ?m)\<lparr>mngr_count := mngr_count ?m - 1\<rparr>\<rparr>"
  have "vm_mngr_instance_destroy v s = Inr (0, ?s)"
    using get off p(1) cnt id by (simp add: vm_mngr_instance_destroy_def Let_def c_sub_def U_def)
  moreover have "rm_inv ?s" using inv led' drop by (simp add: rm_inv_def)
  moreover have "vm_mngr_check_exit v ?m" "\<not> vm_running ?m v"
    using get off by (simp_all add: vm_mngr_check_exit_def vm_running_def vm_at_def)
  ultimately show ?thesis using drop p(2) by simp
qed

section \<open>Allocation and release of a VM's memory\<close>

lemma find_memdev_append:
  "find_memdev i (V\<lparr>VM_attached_devs := VM_attached_devs V @ [d]\<rparr>) =
     (case find_memdev i V of Some e \<Rightarrow> Some e | None \<Rightarrow> if memdev_idx d = i then Some d else None)"
  by (simp add: find_memdev_def find_append split: option.splits)

lemma find_memdev_Some: "find_memdev i V = Some d \<Longrightarrow> d \<in> set (VM_attached_devs V) \<and> memdev_idx d = i"
  by (auto simp: find_memdev_def find_Some_iff)

lemma find_memdev_remove:
  assumes "distinct (map memdev_idx (VM_attached_devs V))" "find_memdev i V = Some d"
  shows "find_memdev j (V\<lparr>VM_attached_devs := remove1 d (VM_attached_devs V)\<rparr>) =
           (if j = i then None else find_memdev j V)"
proof -
  have "find (\<lambda>e. memdev_idx e = j) (remove1 d ds) = (if j = i then None else find (\<lambda>e. memdev_idx e = j) ds)"
    if "distinct (map memdev_idx ds)" "find (\<lambda>e. memdev_idx e = i) ds = Some d" for ds
    using that
  proof (induction ds)
    case (Cons e es)
    show ?case
    proof (cases "e = d")
      case True
      with Cons.prems have "memdev_idx d = i" by (auto simp: find_Some_iff split: if_splits)
      with True Cons.prems(1) show ?thesis by (auto simp: find_None_iff) (metis image_eqI)
    next
      case False
      with Cons.prems have "memdev_idx e \<noteq> i" by (auto split: if_splits)
      with Cons False show ?thesis by auto
    qed
  qed simp
  with assms show ?thesis by (simp add: find_memdev_def)
qed

text \<open>The entry with a device more, and with one less.\<close>

definition with_dev :: "memory_request \<Rightarrow> vm_instance \<Rightarrow> vm_instance" where
  "with_dev q VM = VM\<lparr>VM_memdev_counter := VM_memdev_counter VM + 1,
     VM_attached_devs := VM_attached_devs VM @ [\<lparr>memdev_idx = VM_memdev_counter VM, memory_req = q\<rparr>]\<rparr>"

definition without_dev :: "memory_dev \<Rightarrow> vm_instance \<Rightarrow> vm_instance" where
  "without_dev d VM = VM\<lparr>VM_attached_devs := remove1 d (VM_attached_devs VM)\<rparr>"

lemma dev_frame [simp]:
  "VM_id (with_dev q VM) = VM_id VM" "VM_id (without_dev d VM) = VM_id VM"
  "VM_initialized (with_dev q VM) = VM_initialized VM" "VM_initialized (without_dev d VM) = VM_initialized VM"
  "VM_running (with_dev q VM) = VM_running VM" "VM_running (without_dev d VM) = VM_running VM"
  by (simp_all add: with_dev_def without_dev_def)

lemma with_dev_wf:
  assumes "vm_wf VM"
  shows "vm_wf (with_dev q VM)" and "find_memdev (VM_memdev_counter VM) VM = None"
    and "map_option memory_req (find_memdev i (with_dev q VM)) =
      (if i = VM_memdev_counter VM then Some q else map_option memory_req (find_memdev i VM))"
proof -
  show "vm_wf (with_dev q VM)" using assms by (auto simp: vm_wf_def with_dev_def perf_live_def fds_upto_def)
  show none: "find_memdev (VM_memdev_counter VM) VM = None"
  proof (cases "find_memdev (VM_memdev_counter VM) VM")
    case (Some d)
    from find_memdev_Some [OF this] assms show ?thesis by (auto simp: vm_wf_def)
  qed
  show "map_option memory_req (find_memdev i (with_dev q VM)) =
      (if i = VM_memdev_counter VM then Some q else map_option memory_req (find_memdev i VM))"
    using none find_memdev_append [of i VM "\<lparr>memdev_idx = VM_memdev_counter VM, memory_req = q\<rparr>"]
    by (auto simp: with_dev_def find_memdev_def split: option.splits)
qed

lemma without_dev_wf:
  assumes "vm_wf VM" "find_memdev i VM = Some d"
  shows "vm_wf (without_dev d VM)"
    and "find_memdev j (without_dev d VM) = (if j = i then None else find_memdev j VM)"
proof -
  have "distinct (map memdev_idx (VM_attached_devs (without_dev d VM)))"
    using assms(1) by (simp add: vm_wf_def without_dev_def distinct_map distinct_remove1 inj_on_diff)
  then show "vm_wf (without_dev d VM)"
    using assms(1) set_remove1_subset [of d "VM_attached_devs VM"]
    by (auto simp: vm_wf_def without_dev_def perf_live_def fds_upto_def)
  show "find_memdev j (without_dev d VM) = (if j = i then None else find_memdev j VM)"
    using find_memdev_remove [OF _ assms(2)] assms(1) by (simp add: without_dev_def vm_wf_def)
qed

text \<open>Writing back an entry whose devices changed: the ledger of this VM changes with them.\<close>

lemma put_devs:
  assumes get: "vm_mngr_get_instance v m = Some k" and mwf: "mngr_wf m"
    and V: "VM_id V = VM_id (mngr_VMs m ! k)" "VM_initialized V = VM_initialized (mngr_VMs m ! k)"
      "VM_running V = VM_running (mngr_VMs m ! k)" "vm_wf V"
  shows "mngr_wf (mngr_put k V m)" and "vm_running (mngr_put k V m) u = vm_running m u"
    and "vm_ledger (mngr_put k V m) (u, i) =
      (if u = v then map_option memory_req (find_memdev i V) else vm_ledger m (u, i))"
    and "vm_ledger m (v, i) = map_option memory_req (find_memdev i (mngr_VMs m ! k))"
proof -
  note k = get_instanceD [OF get mwf]
  note put = put_live [OF get mwf V(1) [unfolded k(2)] _ V(4), unfolded V(2), OF k(3)]
  show "mngr_wf (mngr_put k V m)" by (rule put(1))
  show "vm_running (mngr_put k V m) u = vm_running m u"
    using put(3) get V(3) by (simp add: vm_running_def)
  show "vm_ledger (mngr_put k V m) (u, i) =
      (if u = v then map_option memory_req (find_memdev i V) else vm_ledger m (u, i))"
    by (simp add: vm_ledger_def put(4))
  show "vm_ledger m (v, i) = map_option memory_req (find_memdev i (mngr_VMs m ! k))"
    using get by (simp add: vm_ledger_def vm_mngr_instance_get_mem_def)
qed

text \<open>
  An allocation for 1 to \<open>INT_MAX\<close> MB never faults while the VM's index counter has room.  Either
  nothing changes, or the VM gets one device under a fresh index, granted by the pool.
\<close>

lemma alloc_mem_correct:
  assumes inv: "rm_inv s" and sz: "0 < sz" "sz \<le> INT_MAX"
    and room: "\<And>k. vm_mngr_get_instance v (rm_vms s) = Some k \<Longrightarrow> VM_memdev_counter (vm_at s k) < INT_MAX"
  shows "\<exists>r s'. vm_mngr_instance_alloc_mem os nid v sz s = Inr (r, s') \<and> rm_inv s' \<and>
           (case r of
              None \<Rightarrow> s' = s\<lparr>rm_world := rm_world s'\<rparr>
            | Some a \<Rightarrow>
                0 \<le> vmr_memdev_idx a \<and> vmr_memdev_idx a < INT_MAX \<and>
                vm_ledger (rm_vms s) (v, vmr_memdev_idx a) = None \<and>
                (\<exists>q. memory_pool_allocate_segments nid v sz (rm_pool s) = Inr (Some q, rm_pool s') \<and>
                     vm_ledger (rm_vms s') = (vm_ledger (rm_vms s))((v, vmr_memdev_idx a) \<mapsto> q) \<and>
                     vmr_dev_path a = take 63 (req_dev_path q) \<and> vmr_offset_mb a = req_offset_mb q \<and>
                     vmr_size_mb a = req_size_mb q \<and> vmr_align_mb a = req_align_mb q))"
proof (cases "vm_mngr_get_instance v (rm_vms s)")
  case None
  with inv show ?thesis by (simp add: vm_mngr_instance_alloc_mem_def)
next
  case (Some k)
  let ?m = "rm_vms s" and ?VM = "vm_at s k"
  obtain ok w where mal: "os_malloc os sizeof_memory_dev (rm_world s) = (ok, w)" by (metis surj_pair)
  have mwf: "mngr_wf ?m" using inv by (simp add: rm_inv_def)
  note k = get_instanceD [OF Some mwf]
  have led: "ledger_inv pool_wf pool_owner req_span req_valid (rm_pool s) (vm_ledger ?m)"
    using inv by (simp add: rm_inv_def)
  then have pwf: "pool_wf (rm_pool s)" by (simp add: ledger_inv_def)
  obtain ret p where al: "memory_pool_allocate_segments nid v sz (rm_pool s) = Inr (ret, p)"
    using pool.alloc_total [OF pwf sz] by (metis surj_pair)
  show ?thesis
  proof (cases "ok \<and> ret \<noteq> None")
    case False
    have "p = rm_pool s" if "ret = None" using pool.alloc_None [OF pwf sz al [unfolded that]] .
    then have "vm_mngr_instance_alloc_mem os nid v sz s = Inr (None, s\<lparr>rm_world := w\<rparr>)"
      using Some mal al False by (auto simp: vm_mngr_instance_alloc_mem_def Let_def)
    with inv show ?thesis by simp
  next
    case True
    then obtain q where q: "ret = Some q" by auto
    define c V where "c = VM_memdev_counter ?VM" and "V = with_dev q ?VM"
    define a where "a = \<lparr>vmr_dev_path = take 63 (req_dev_path q), vmr_offset_mb = req_offset_mb q,
        vmr_size_mb = req_size_mb q, vmr_align_mb = req_align_mb q, vmr_memdev_idx = c\<rparr>"
    define s' where "s' = s\<lparr>rm_pool := p, rm_world := w, rm_vms := mngr_put k V ?m\<rparr>"
    have wfVM: "vm_wf ?VM" using k(4) by (simp add: vm_at_def)
    have c: "0 \<le> c" "c < INT_MAX" "in_int (c + 1)"
      using wfVM room [OF Some] by (auto simp: vm_wf_def c_def in_int_def INT_MIN_def)
    have run: "vm_mngr_instance_alloc_mem os nid v sz s = Inr (Some a, s')"
      using Some mal al True q c k(1)
      by (simp add: vm_mngr_instance_alloc_mem_def vm_mngr_get_new_memdev_idx_def Let_def c_add_def with_dev_def
          c_def s'_def V_def a_def vm_at_def snprintf_def DEV_PATH_LEN_def mngr_put_def)
    note put = put_devs [OF Some mwf, of V, folded vm_at_def [of s k]]
    note dev = with_dev_wf(1,3) [OF wfVM, where q = q, folded V_def c_def] with_dev_wf(2) [OF wfVM, folded c_def]
    have V: "VM_id V = VM_id ?VM" "VM_initialized V = VM_initialized ?VM" "VM_running V = VM_running ?VM"
      by (simp_all add: V_def)
    note put = put [OF V dev(1)]
    have fresh: "vm_ledger ?m (v, c) = None" using dev(3) by (simp add: put(4))
    have led_eq: "vm_ledger (mngr_put k V ?m) = (vm_ledger ?m)((v, c) \<mapsto> q)"
      by (auto simp: fun_eq_iff put(3,4) dev(2))
    from pool.ledger_alloc [OF led sz al [unfolded q] fresh]
    have "rm_inv s'" using inv put(1,2) by (simp add: rm_inv_def s'_def led_eq)
    then show ?thesis using run fresh led_eq al q c(1,2) by (simp add: s'_def a_def)
  qed
qed

text \<open>
  Releasing an attached device always succeeds, whatever the history: its segments become
  free and the device is gone.  An unknown device changes nothing.
\<close>

lemma free_mem_correct:
  assumes inv: "rm_inv s"
  shows "\<exists>s'. rm_inv s' \<and>
           (case vm_mngr_instance_get_mem v i (rm_vms s) of
              None \<Rightarrow> vm_mngr_instance_free_mem v i s = Inr (-1, s)
            | Some q \<Rightarrow>
                vm_mngr_instance_free_mem v i s = Inr (0, s') \<and>
                vm_ledger (rm_vms s') = (vm_ledger (rm_vms s))((v, i) := None) \<and>
                pool_owner (rm_pool s') =
                  (\<lambda>x. if x \<in> req_span (rm_pool s) q then None else pool_owner (rm_pool s) x))"
proof (cases "vm_mngr_instance_get_mem v i (rm_vms s)")
  case None
  then have "vm_mngr_instance_free_mem v i s = Inr (-1, s)"
    by (auto simp: vm_mngr_instance_free_mem_def vm_mngr_instance_get_mem_def vm_at_def split: option.splits)
  with None inv show ?thesis by auto
next
  case (Some q)
  let ?m = "rm_vms s"
  from Some obtain k d where k: "vm_mngr_get_instance v ?m = Some k"
    and d: "find_memdev i (vm_at s k) = Some d" "memory_req d = q"
    by (auto simp: vm_mngr_instance_get_mem_def vm_at_def split: option.splits)
  let ?VM = "vm_at s k"
  have mwf: "mngr_wf ?m" using inv by (simp add: rm_inv_def)
  note kk = get_instanceD [OF k mwf]
  have wfVM: "vm_wf ?VM" using kk(4) by (simp add: vm_at_def)
  have led: "ledger_inv pool_wf pool_owner req_span req_valid (rm_pool s) (vm_ledger ?m)"
    using inv by (simp add: rm_inv_def)
  have entry: "vm_ledger ?m (v, i) = Some q" using Some by (simp add: vm_ledger_def)
  from led have pwf: "pool_wf (rm_pool s)" and val: "req_valid (rm_pool s) q"
    and ex: "ledger_exact (pool_owner (rm_pool s)) (req_span (rm_pool s)) (vm_ledger ?m)"
    using entry by (auto simp: ledger_inv_def)
  from pool.release_owned [OF pwf val ledger_owned [OF ex entry]] obtain p where
    p: "release_request v q (rm_pool s) = Inr (0, p)"
      "pool_owner p = (\<lambda>x. if x \<in> req_span (rm_pool s) q then None else pool_owner (rm_pool s) x)"
    by blast
  from pool.ledger_release [OF led entry] p(1) have
    led': "ledger_inv pool_wf pool_owner req_span req_valid p ((vm_ledger ?m)((v, i) := None))" by auto
  define V where "V = without_dev d ?VM"
  define s' where "s' = put_vm k V (s\<lparr>rm_pool := p\<rparr>)"
  have run: "vm_mngr_instance_free_mem v i s = Inr (0, s')"
    using k d p(1)
    by (simp add: vm_mngr_instance_free_mem_def release_request_def Let_def s'_def V_def without_dev_def)
  note dev = without_dev_wf [OF wfVM d(1), folded V_def]
  have V: "VM_id V = VM_id ?VM" "VM_initialized V = VM_initialized ?VM" "VM_running V = VM_running ?VM"
    by (simp_all add: V_def)
  note put = put_devs [OF k mwf, of V, folded vm_at_def [of s k], OF V dev(1)]
  have led_eq: "vm_ledger (mngr_put k V ?m) = (vm_ledger ?m)((v, i) := None)"
    by (auto simp: fun_eq_iff put(3,4) dev(2))
  have "rm_inv s'" using inv put(1,2) led' by (simp add: rm_inv_def s'_def put_vm_def led_eq)
  with run led_eq p(2) Some show ?thesis by (auto simp: s'_def put_vm_def)
qed

end
