(* ===== verification/VmMonitor.thy ===== *)
theory VmMonitor
  imports VmCorrect
begin

text \<open>
  What the VM manager reports and what its periodic updates do: the dump is the full listing cut
  to the buffer, and the updates keep the invariant of the process and do not fault as long as
  the kernel answers reads of open counters.
\<close>

section \<open>The dump\<close>

definition vm_listing :: "vm_instance \<Rightarrow> string" where
  "vm_listing VM = dump_vm_line VM @ concat (map dump_dev_line (VM_attached_devs VM))"

definition vms_listing :: "vm_instance_manager \<Rightarrow> string" where
  "vms_listing m =
     ''VM Count: '' @ show_int (mngr_count m) @ [newline] @
     (if mngr_count m = 0 then ''No VM created.'' @ [newline]
      else concat (map vm_listing (filter VM_initialized (mngr_VMs m))))"

text \<open>The buffer holds the text as far as it fits, and the offset is the text's length, or both
  are past the end.\<close>

definition written :: "int \<Rightarrow> string \<Rightarrow> string \<times> int \<Rightarrow> bool" where
  "written n t st \<longleftrightarrow> fst st = take (nat (n - 1)) t \<and> min n (snd st) = min n (int (length t))"

lemma written_append:
  assumes "written n t st" "snd st < n"
  shows "written n (t @ u) (append_fmt n u st)"
proof -
  from assms have "holds_text n t st" by (auto simp: written_def holds_text_def)
  from holds_text_append [OF this assms(2)] show ?thesis by (simp add: written_def holds_text_def)
qed

lemma written_full:
  assumes "written n t st" "n \<le> snd st"
  shows "written n (t @ u) st"
proof -
  from assms have "n \<le> int (length t)" by (simp add: written_def min_def split: if_splits)
  with assms show ?thesis by (auto simp: written_def)
qed

lemma written_devs:
  assumes "written n t st" "snd st < n"
  shows "written n (t @ concat (map dump_dev_line ds)) (dump_devs n ds st)"
  using assms
proof (induction ds arbitrary: t st)
  case Nil
  then show ?case by simp
next
  case (Cons d ds)
  let ?st = "append_fmt n (dump_dev_line d) st"
  note w = written_append [OF Cons.prems, of "dump_dev_line d"]
  show ?case
  proof (cases "n \<le> snd ?st")
    case True
    with written_full [OF w True] show ?thesis by (simp add: Let_def)
  next
    case False
    with Cons.IH [OF w] show ?thesis by (simp add: Let_def)
  qed
qed

lemma written_vms:
  assumes "written n t st"
  shows "written n (t @ concat (map vm_listing (filter VM_initialized VMs))) (dump_vms n VMs st)"
  using assms
proof (induction VMs arbitrary: t st)
  case Nil
  then show ?case by simp
next
  case (Cons VM VMs)
  show ?case
  proof (cases "snd st < n")
    case False
    with written_full [OF Cons.prems] show ?thesis by simp
  next
    case lt: True
    show ?thesis
    proof (cases "VM_initialized VM")
      case False
      with lt Cons show ?thesis by simp
    next
      case True
      let ?st = "append_fmt n (dump_vm_line VM) st"
      note w = written_append [OF Cons.prems lt, of "dump_vm_line VM"]
      show ?thesis
      proof (cases "n \<le> snd ?st")
        case stop: True
        with True lt written_full [OF w stop] show ?thesis by (simp add: Let_def vm_listing_def)
      next
        case False
        with written_devs [OF w, of "VM_attached_devs VM"]
        have "written n (t @ vm_listing VM) (dump_devs n (VM_attached_devs VM) ?st)"
          by (simp add: vm_listing_def)
        from Cons.IH [OF this] True lt False show ?thesis by (simp add: Let_def)
      qed
    qed
  qed
qed

lemma dump_state_text:
  assumes "0 < n"
  shows "vm_mngr_dump_state n m = Some (take (nat (n - 1)) (vms_listing m))"
proof -
  let ?h = "''VM Count: '' @ show_int (mngr_count m) @ [newline]"
  define h where "h = append_fmt n ?h ([], 0)"
  have "written n [] ([], 0)" by (simp add: written_def)
  from written_append [OF this, of ?h] assms have w: "written n ?h h" by (simp add: h_def)
  have dump: "vm_mngr_dump_state n m =
      (if n \<le> snd h then Some (fst h)
       else if mngr_count m = 0 then Some (fst (append_fmt n (''No VM created.'' @ [newline]) h))
       else Some (fst (dump_vms n (mngr_VMs m) h)))"
    using assms by (simp add: vm_mngr_dump_state_def h_def Let_def)
  consider (full) "n \<le> snd h" | (none) "snd h < n" "mngr_count m = 0"
    | (some) "snd h < n" "mngr_count m \<noteq> 0" by linarith
  then show ?thesis
  proof cases
    case full
    from written_full [OF w this, of "drop (length ?h) (vms_listing m)"]
    show ?thesis unfolding dump using full by (simp add: written_def vms_listing_def)
  next
    case none
    from written_append [OF w none(1), of "''No VM created.'' @ [newline]"] none
    show ?thesis unfolding dump by (simp add: written_def vms_listing_def)
  next
    case some
    from written_vms [OF w, of "mngr_VMs m"] some
    show ?thesis unfolding dump by (simp add: written_def vms_listing_def)
  qed
qed

section \<open>The periodic updates\<close>

lemma put_counters:
  assumes inv: "rm_inv s" and i: "VM_running (vm_at s i)" "i < nat MAX_NUM_VM"
    and V: "perf_frame (vm_at s i) V" "VM_perf_event_fds V = VM_perf_event_fds (vm_at s i)"
  shows "rm_inv ((put_vm i V s)\<lparr>rm_world := w\<rparr>)"
proof -
  let ?v = "VM_id (vm_at s i)"
  have mwf: "mngr_wf (rm_vms s)" using inv by (simp add: rm_inv_def)
  then have len: "length (mngr_VMs (rm_vms s)) = nat MAX_NUM_VM"
    and dist: "distinct (live_ids (mngr_VMs (rm_vms s)))" and "slot_wf (vm_at s i)"
    using i(2) by (auto simp: mngr_wf_def list_all_length vm_at_def)
  with i(1) have init: "VM_initialized (vm_at s i)" and wf: "vm_wf (vm_at s i)"
    by (auto simp: slot_wf_def)
  have get: "vm_mngr_get_instance ?v (rm_vms s) = Some i"
    using find_vm_nth [OF dist] i(2) len init by (simp add: vm_mngr_get_instance_def vm_at_def)
  have cores: "VM_num_cores V = VM_num_cores (vm_at s i)" using V(1) by (simp add: perf_frame_def)
  have "perf_live (vm_at s i)" using wf i(1) by (simp add: vm_wf_def)
  then have "perf_live V"
    using fds_upto_cong [OF fun_cong [OF V(2)] cores] by (simp add: perf_live_def cores)
  then have wfV: "vm_wf V" by (intro vm_wf_frame [OF V(1) wf] impI)
  have run: "VM_running V" using V(1) i(1) by (simp add: perf_frame_def)
  then have self: "V\<lparr>VM_running := True\<rparr> = V" by simp
  have awf: "agents_wf (rm_agents s)" using inv by (simp add: rm_inv_def)
  have up: "agent_up (rm_agents s) u = (if u = ?v then True else agent_up (rm_agents s) u)" for u
    using not_running_down [OF inv get] i(1) by simp
  have wfV': "vm_wf (V\<lparr>VM_running := True\<rparr>)" using wfV by (simp only: self)
  have "rm_inv ((put_vm i (V\<lparr>VM_running := True\<rparr>) s)\<lparr>rm_agents := rm_agents s, rm_world := w\<rparr>)"
    by (rule put_frame [OF inv get V(1) wfV' awf up])
  moreover have "(put_vm i V s)\<lparr>rm_agents := rm_agents s, rm_world := w\<rparr> = (put_vm i V s)\<lparr>rm_world := w\<rparr>"
    by (simp add: put_vm_def)
  ultimately show ?thesis by (simp only: self)
qed

lemma put_vm_at: "i < length (mngr_VMs (rm_vms s)) \<Longrightarrow>
    vm_at ((put_vm i V s)\<lparr>rm_world := w\<rparr>) k = (if k = i then V else vm_at s k)"
  by (simp add: vm_at_def put_vm_def mngr_put_def nth_list_update)

lemma table_length: "rm_inv s \<Longrightarrow> length (mngr_VMs (rm_vms s)) = nat MAX_NUM_VM"
  by (simp add: rm_inv_def mngr_wf_def)

lemma table_live: "rm_inv s \<Longrightarrow> VM_running (vm_at s i) \<Longrightarrow> i < nat MAX_NUM_VM \<Longrightarrow> perf_live (vm_at s i)"
  by (auto simp: rm_inv_def mngr_wf_def list_all_length vm_at_def slot_wf_def vm_wf_def)

text \<open>
  One round of the counters: with a kernel that answers reads, no fault, and each running VM's
  cumulative counts grow by its deltas.
\<close>

lemma update_perf_counters_correct:
  fixes os :: "'a os" and s :: "'a rm_state"
  assumes inv: "rm_inv s" and os: "perf_reads_ok os"
  shows "\<exists>s'. vm_mngr_update_perf_counters os s = Inr s' \<and> rm_inv s' \<and>
           (mngr_count (rm_vms s) \<noteq> 0 \<longrightarrow>
             (\<forall>k < nat MAX_NUM_VM. perf_frame (vm_at s k) (vm_at s' k) \<and>
               (if VM_running (vm_at s k) then counts_grow (vm_at s k) (vm_at s' k)
                else vm_at s' k = vm_at s k)))"
proof (cases "mngr_count (rm_vms s) = 0")
  case True
  with inv show ?thesis by (simp add: vm_mngr_update_perf_counters_def)
next
  case False
  let ?f = "\<lambda>i s. if \<not> VM_running (vm_at s i) then Inr s
                   else bindE (vm_perf_update os (vm_at s i, rm_world s)) (\<lambda>(VM, w).
                        Inr ((put_vm i VM s)\<lparr>rm_world := w\<rparr>))"
  let ?N = "[0..<nat MAX_NUM_VM]"
  let ?P = "\<lambda>pre s'. rm_inv s' \<and> (\<forall>k < nat MAX_NUM_VM. perf_frame (vm_at s k) (vm_at s' k) \<and>
      (if VM_running (vm_at s k) \<and> k \<in> set pre then counts_grow (vm_at s k) (vm_at s' k)
       else vm_at s' k = vm_at s k))"
  have "\<exists>s'. foldE ?f ?N s = Inr s' \<and> ?P ?N s'"
  proof (rule foldE_total [where P = ?P])
    show "?P [] s" using inv by simp
  next
    fix pre i rest and t :: "'a rm_state"
    assume split: "?N = pre @ i # rest" and P: "?P pre t"
    have i: "i < nat MAX_NUM_VM" using split by (metis atLeastLessThan_iff in_set_conv_decomp set_upt)
    have "distinct ?N" by (rule distinct_upt)
    then have npre: "i \<notin> set pre" unfolding split by simp
    with P i have at: "vm_at t i = vm_at s i" by simp
    show "\<exists>t'. ?f i t = Inr t' \<and> ?P (pre @ [i]) t'"
    proof (cases "VM_running (vm_at t i)")
      case False
      with P at show ?thesis by auto
    next
      case True
      have invt: "rm_inv t" using P by simp
      from perf_update_ok [OF table_live [OF invt True i] os] obtain V w where
        V: "vm_perf_update os (vm_at t i, rm_world t) = Inr (V, w)" by blast
      note upd = perf_update_counts [OF V]
      define t' where "t' = (put_vm i V t)\<lparr>rm_world := w\<rparr>"
      have "rm_inv t'" unfolding t'_def using put_counters [OF invt True i] upd by blast
      moreover have "vm_at t' k = (if k = i then V else vm_at t k)" for k
        unfolding t'_def by (rule put_vm_at) (simp add: table_length [OF invt] i)
      moreover have "?f i t = Inr t'" using True V by (simp add: t'_def)
      ultimately show ?thesis using P at upd True npre by auto
    qed
  qed
  with False show ?thesis by (auto simp: vm_mngr_update_perf_counters_def)
qed

lemma update_metrics_correct:
  fixes s :: "'a rm_state"
  assumes inv: "rm_inv s"
  shows "\<exists>s'. vm_mngr_update_metrics s = Inr s' \<and> rm_inv s'"
proof (cases "mngr_count (rm_vms s) = 0")
  case True
  with inv show ?thesis by (simp add: vm_mngr_update_metrics_def)
next
  case False
  let ?f = "\<lambda>i s :: 'a rm_state. if \<not> VM_running (vm_at s i) then Inr s
                   else Inr (put_vm i (vm_update_metrics (vm_at s i)) s)"
  let ?N = "[0..<nat MAX_NUM_VM]"
  have "\<exists>s'. foldE ?f ?N s = Inr s' \<and> rm_inv s'"
  proof (rule foldE_total [where P = "\<lambda>_. rm_inv"])
    fix pre i rest and t :: "'a rm_state"
    assume split: "?N = pre @ i # rest" and invt: "rm_inv t"
    have i: "i < nat MAX_NUM_VM" using split by (metis atLeastLessThan_iff in_set_conv_decomp set_upt)
    have "rm_inv ((put_vm i (vm_update_metrics (vm_at t i)) t)\<lparr>rm_world := rm_world t\<rparr>)"
      if "VM_running (vm_at t i)" using put_counters [OF invt that i] by simp
    then show "\<exists>t'. ?f i t = Inr t' \<and> rm_inv t'" using invt by (simp add: put_vm_def)
  qed (rule inv)
  with False show ?thesis by (simp add: vm_mngr_update_metrics_def)
qed

end
