(* ===== verification/VmSpec.thy ===== *)
theory VmSpec
  imports VmCorrect
begin

text \<open>
  What the resource manager promises, without its tables: a set of VMs, the running ones among
  them, and a ledger of grants that do not overlap.  The state machine \<open>spec_step\<close> says how these
  may change, \<open>vm_spec_of\<close> reads them off the state of the process, and every operation of the VM
  manager is one step of the machine or none.
\<close>

section \<open>Grants\<close>

text \<open>
  Seen from outside, a grant is a range of megabytes of a device.  Two grants on one device never
  overlap, and none leaves its device.
\<close>

definition grants_apart :: "memory_request \<Rightarrow> memory_request \<Rightarrow> bool" where
  "grants_apart q r \<longleftrightarrow>
     req_node_id q \<noteq> req_node_id r \<or>
     req_offset_mb q + req_size_mb q \<le> req_offset_mb r \<or>
     req_offset_mb r + req_size_mb r \<le> req_offset_mb q"

definition grant_inside :: "memory_pool \<Rightarrow> memory_request \<Rightarrow> bool" where
  "grant_inside p q \<longleftrightarrow>
     0 \<le> req_node_id q \<and> nat (req_node_id q) < length (g_mem_devs p) \<and>
     0 \<le> req_offset_mb q \<and> 0 < req_size_mb q \<and>
     req_offset_mb q + req_size_mb q \<le> dax_total_size_mb (g_mem_devs p ! nat (req_node_id q))"

lemma req_span_shape:
  assumes "pool_wf p" "req_valid p q"
  defines "seg \<equiv> g_segment_size_mb p"
  obtains a n where "req_offset_mb q = a * seg" "req_size_mb q = n * seg" "0 \<le> a" "0 < n" "0 < seg"
    "req_span p q = Pair (req_node_id q) ` {a..<a + n}"
    "a + n \<le> dax_total_segments (g_mem_devs p ! nat (req_node_id q))"
    "0 \<le> req_node_id q" "nat (req_node_id q) < length (g_mem_devs p)"
proof -
  have seg: "0 < seg" using assms(1) by (simp add: seg_def pool_seg_pos)
  from assms(2) have val: "seg dvd req_offset_mb q" "seg dvd req_size_mb q" "0 \<le> req_offset_mb q"
    "0 < req_size_mb q" "0 \<le> req_node_id q" "nat (req_node_id q) < length (g_mem_devs p)"
    "(req_offset_mb q + req_size_mb q) div seg \<le> dax_total_segments (g_mem_devs p ! nat (req_node_id q))"
    by (auto simp: req_valid_def Let_def seg_def)
  then obtain a n where an: "req_offset_mb q = a * seg" "req_size_mb q = n * seg"
    by (metis dvd_div_mult_self)
  with val seg have "0 \<le> a" "0 < n" by (auto simp: zero_le_mult_iff zero_less_mult_iff)
  moreover have "(req_offset_mb q + req_size_mb q) div seg = a + n"
    using seg by (simp add: an flip: distrib_right)
  ultimately show thesis
    using that [of a n] an seg val by (simp add: req_span_def flip: seg_def)
qed

lemma grants_apart_of_spans:
  assumes "pool_wf p" "req_valid p q" "req_valid p r" "req_span p q \<inter> req_span p r = {}"
  shows "grants_apart q r"
proof -
  obtain a n where q: "req_offset_mb q = a * g_segment_size_mb p" "req_size_mb q = n * g_segment_size_mb p"
    "0 < n" "0 < g_segment_size_mb p" "req_span p q = Pair (req_node_id q) ` {a..<a + n}"
    using req_span_shape [OF assms(1,2)] by metis
  obtain b m where r: "req_offset_mb r = b * g_segment_size_mb p" "req_size_mb r = m * g_segment_size_mb p"
    "0 < m" "req_span p r = Pair (req_node_id r) ` {b..<b + m}"
    using req_span_shape [OF assms(1,3)] by metis
  show ?thesis
  proof (cases "req_node_id q = req_node_id r")
    case True
    have "x \<in> {a..<a + n} \<Longrightarrow> x \<notin> {b..<b + m}" for x
      using assms(4) True unfolding q(5) r(4) by blast
    then have "\<not> (max a b < a + n \<and> max a b < b + m)" by (meson atLeastLessThan_iff max.cobounded1 max.cobounded2)
    then have "a + n \<le> b \<or> b + m \<le> a" using q(3) r(3) by linarith
    then have "(a + n) * g_segment_size_mb p \<le> b * g_segment_size_mb p \<or>
        (b + m) * g_segment_size_mb p \<le> a * g_segment_size_mb p"
      using q(4) by (auto intro: mult_right_mono)
    then show ?thesis by (simp add: grants_apart_def q(1,2) r(1,2) distrib_right)
  qed (simp add: grants_apart_def)
qed

lemma grant_inside_valid:
  assumes "pool_wf p" "req_valid p q"
  shows "grant_inside p q"
proof -
  let ?seg = "g_segment_size_mb p" and ?d = "g_mem_devs p ! nat (req_node_id q)"
  obtain a n where q: "req_offset_mb q = a * ?seg" "req_size_mb q = n * ?seg" "0 \<le> a" "0 < n" "0 < ?seg"
    "a + n \<le> dax_total_segments ?d" "0 \<le> req_node_id q" "nat (req_node_id q) < length (g_mem_devs p)"
    using req_span_shape [OF assms] by metis
  have "dev_wf ?seg ?d" using pool_dev_wf [OF assms(1) q(8)] .
  then have "dax_total_segments ?d * ?seg \<le> dax_total_size_mb ?d" by (simp add: dev_wf_def)
  moreover have "(a + n) * ?seg \<le> dax_total_segments ?d * ?seg" using q(5,6) by (intro mult_right_mono) auto
  ultimately show ?thesis using q by (auto simp: grant_inside_def distrib_right)
qed

lemma rm_inv_grants:
  assumes inv: "rm_inv s" and q: "vm_mngr_instance_get_mem v i (rm_vms s) = Some q"
  shows "grant_inside (rm_pool s) q"
    and "vm_mngr_instance_get_mem w j (rm_vms s) = Some r \<Longrightarrow> (v, i) \<noteq> (w, j) \<Longrightarrow> grants_apart q r"
proof -
  have led: "ledger_inv pool_wf pool_owner req_span req_valid (rm_pool s) (vm_ledger (rm_vms s))"
    using inv by (simp add: rm_inv_def)
  then have pwf: "pool_wf (rm_pool s)" by (simp add: ledger_inv_def)
  have val: "req_valid (rm_pool s) r" if "vm_mngr_instance_get_mem w j (rm_vms s) = Some r" for w j r
    using led that by (auto simp: ledger_inv_def vm_ledger_def)
  show "grant_inside (rm_pool s) q" by (rule grant_inside_valid [OF pwf val [OF q]])
  show "grants_apart q r" if r: "vm_mngr_instance_get_mem w j (rm_vms s) = Some r" and "(v, i) \<noteq> (w, j)"
  proof (rule grants_apart_of_spans [OF pwf val [OF q] val [OF r]])
    have "vm_ledger (rm_vms s) (v, i) = Some q" "vm_ledger (rm_vms s) (w, j) = Some r"
      using q r by (simp_all add: vm_ledger_def)
    from pool.ledger_isolated [OF led this] that(2)
    show "req_span (rm_pool s) q \<inter> req_span (rm_pool s) r = {}" by auto
  qed
qed

section \<open>The specification\<close>

record vm_spec =
  sp_vms :: "int set"
  sp_running :: "int set"
  sp_grants :: "memory_request ledger"

definition spec_start :: vm_spec where
  "spec_start = \<lparr>sp_vms = {}, sp_running = {}, sp_grants = Map.empty\<rparr>"

text \<open>\<open>fits\<close> says which requests lie on a device of the pool.\<close>

inductive spec_step :: "(memory_request \<Rightarrow> bool) \<Rightarrow> vm_spec \<Rightarrow> vm_spec \<Rightarrow> bool"
  for fits :: "memory_request \<Rightarrow> bool" where
  Create: "v \<notin> sp_vms a \<Longrightarrow> card (sp_vms a) < 16 \<Longrightarrow>
    spec_step fits a (a\<lparr>sp_vms := insert v (sp_vms a)\<rparr>)"
| Destroy: "v \<in> sp_vms a \<Longrightarrow> v \<notin> sp_running a \<Longrightarrow>
    spec_step fits a (a\<lparr>sp_vms := sp_vms a - {v},
                        sp_grants := (\<lambda>k. if fst k = v then None else sp_grants a k)\<rparr>)"
| Start: "v \<in> sp_vms a \<Longrightarrow> v \<notin> sp_running a \<Longrightarrow> 0 \<le> v \<Longrightarrow> v < 16 \<Longrightarrow>
    spec_step fits a (a\<lparr>sp_running := insert v (sp_running a)\<rparr>)"
| Stop: "v \<in> sp_running a \<Longrightarrow> spec_step fits a (a\<lparr>sp_running := sp_running a - {v}\<rparr>)"
| Grant: "v \<in> sp_vms a \<Longrightarrow> sp_grants a (v, i) = None \<Longrightarrow> fits q \<Longrightarrow>
    (\<And>k r. sp_grants a k = Some r \<Longrightarrow> grants_apart q r) \<Longrightarrow>
    spec_step fits a (a\<lparr>sp_grants := (sp_grants a)((v, i) \<mapsto> q)\<rparr>)"
| Free: "sp_grants a (v, i) = Some q \<Longrightarrow>
    spec_step fits a (a\<lparr>sp_grants := (sp_grants a)((v, i) := None)\<rparr>)"

text \<open>The machine is safe by itself.\<close>

definition spec_safe :: "(memory_request \<Rightarrow> bool) \<Rightarrow> vm_spec \<Rightarrow> bool" where
  "spec_safe fits a \<longleftrightarrow>
     finite (sp_vms a) \<and> card (sp_vms a) \<le> 16 \<and> sp_running a \<subseteq> sp_vms a \<and>
     (\<forall>v i q. sp_grants a (v, i) = Some q \<longrightarrow> v \<in> sp_vms a \<and> fits q) \<and>
     (\<forall>k k' q r. sp_grants a k = Some q \<longrightarrow> sp_grants a k' = Some r \<longrightarrow> k \<noteq> k' \<longrightarrow> grants_apart q r)"

lemma grants_apart_sym: "grants_apart q r \<Longrightarrow> grants_apart r q"
  by (auto simp: grants_apart_def)

lemma spec_step_safe: "spec_step fits a b \<Longrightarrow> spec_safe fits a \<Longrightarrow> spec_safe fits b"
proof (induction rule: spec_step.induct)
  case (Destroy v a)
  then have "card (sp_vms a) \<le> 16" by (simp add: spec_safe_def)
  then have "card (sp_vms a - {v}) \<le> 16" using card_Diff1_le [of "sp_vms a" v] by linarith
  with Destroy show ?case by (auto simp: spec_safe_def split: if_splits)
next
  case (Grant v a i q)
  then show ?case by (auto simp: spec_safe_def dest: grants_apart_sym split: if_splits)
qed (auto simp: spec_safe_def card_insert_if split: if_splits)

section \<open>Abstraction\<close>

definition vm_spec_of :: "'w rm_state \<Rightarrow> vm_spec" where
  "vm_spec_of s =
     \<lparr>sp_vms = {v. vm_mngr_check_exit v (rm_vms s)}, sp_running = {v. vm_running (rm_vms s) v},
      sp_grants = vm_ledger (rm_vms s)\<rparr>"

lemma vm_spec_of_world [simp]: "vm_spec_of (s\<lparr>rm_world := w\<rparr>) = vm_spec_of s"
  by (simp add: vm_spec_of_def)

lemma vm_spec_of_simps [simp]:
  "sp_vms (vm_spec_of s) = {v. vm_mngr_check_exit v (rm_vms s)}"
  "sp_running (vm_spec_of s) = {v. vm_running (rm_vms s) v}"
  "sp_grants (vm_spec_of s) = vm_ledger (rm_vms s)"
  by (simp_all add: vm_spec_of_def)

text \<open>One operation simulates at most one step and keeps the pool's devices and the invariant.\<close>

definition sim :: "'w rm_state \<Rightarrow> 'w rm_state \<Rightarrow> bool" where
  "sim s s' \<longleftrightarrow> rm_inv s' \<and> req_valid (rm_pool s') = req_valid (rm_pool s) \<and>
     (vm_spec_of s' = vm_spec_of s \<or> spec_step (req_valid (rm_pool s)) (vm_spec_of s) (vm_spec_of s'))"

lemma sim_refl [simp]: "sim s s = rm_inv s"
  by (simp add: sim_def)

lemma sim_world [simp]: "sim (s\<lparr>rm_world := w\<rparr>) s' = sim s s'" "sim s (s'\<lparr>rm_world := w\<rparr>) = sim s s'"
  by (simp_all add: sim_def)

lemma count_vms:
  assumes "mngr_wf m"
  shows "finite {v. vm_mngr_check_exit v m}" "int (card {v. vm_mngr_check_exit v m}) = mngr_count m"
proof -
  have "{v. vm_mngr_check_exit v m} = set (live_ids (mngr_VMs m))"
    using find_vm_None by (auto simp: vm_mngr_check_exit_def vm_mngr_get_instance_def)
  with assms show "finite {v. vm_mngr_check_exit v m}" "int (card {v. vm_mngr_check_exit v m}) = mngr_count m"
    by (simp_all add: mngr_wf_def distinct_card)
qed

lemma sim_same_pool:
  assumes "rm_inv s'" "rm_pool s' = rm_pool s" "vm_ledger (rm_vms s') = vm_ledger (rm_vms s)"
    and "vm_spec_of s' = vm_spec_of s \<or> spec_step (req_valid (rm_pool s)) (vm_spec_of s) (vm_spec_of s')"
  shows "sim s s'"
  using assms by (simp add: sim_def)

lemma create_sim:
  assumes "rm_inv s" "vm_mngr_instance_create v cs (rm_vms s) = Inr (r, m)"
  shows "sim s (s\<lparr>rm_vms := m\<rparr>)"
proof -
  let ?s = "s\<lparr>rm_vms := m\<rparr>"
  have wf: "mngr_wf (rm_vms s)" using assms(1) by (simp add: rm_inv_def)
  note c = create_correct [OF wf assms(2)]
  show ?thesis
  proof (cases "mngr_count (rm_vms s) = MAX_NUM_VM \<or> vm_mngr_check_exit v (rm_vms s)")
    case True
    with c have "m = rm_vms s" by simp
    with assms(1) show ?thesis by simp
  next
    case False
    have "mngr_count (rm_vms s) < MAX_NUM_VM" using False mngr_wf_count [OF wf] by auto
    with count_vms(2) [OF wf] have card: "card (sp_vms (vm_spec_of s)) < 16" by (simp add: MAX_NUM_VM_def)
    have "{w. vm_mngr_check_exit w m} = insert v {w. vm_mngr_check_exit w (rm_vms s)}"
      using c False by auto
    then have "vm_spec_of ?s = (vm_spec_of s)\<lparr>sp_vms := insert v (sp_vms (vm_spec_of s))\<rparr>"
      using c by (simp add: vm_spec_of_def)
    then show ?thesis
      using spec_step.Create [of v "vm_spec_of s"] False card create_inv [OF assms] c
      by (intro sim_same_pool) simp_all
  qed
qed

lemma destroy_spec:
  assumes inv: "rm_inv s" and run: "vm_mngr_instance_destroy v s = Inr (r, s')"
    and True: "vm_mngr_check_exit v (rm_vms s) \<and> \<not> vm_running (rm_vms s) v"
  shows "vm_spec_of s' = (vm_spec_of s)\<lparr>sp_vms := sp_vms (vm_spec_of s) - {v},
      sp_grants := (\<lambda>k. if fst k = v then None else sp_grants (vm_spec_of s) k)\<rparr>"
    and "req_valid (rm_pool s') = req_valid (rm_pool s)" "r = 0" "rm_inv s'"
proof -
  from True destroy_correct [OF inv, of v] run have d: "rm_inv s'"
    "\<And>w. vm_mngr_get_instance w (rm_vms s') = (if w = v then None else vm_mngr_get_instance w (rm_vms s))"
    "vm_ledger (rm_vms s') = (\<lambda>k. if fst k = v then None else vm_ledger (rm_vms s) k)" "r = 0" by auto
  have "pool_wf (rm_pool s)" using inv by (simp add: rm_inv_def ledger_inv_def)
  from memory_pool_release_vm_correct [OF this, of v] obtain p where
    p: "memory_pool_release_vm_memory v (rm_pool s) = Inr p" "req_valid p = req_valid (rm_pool s)" by blast
  from True obtain k where k: "vm_mngr_get_instance v (rm_vms s) = Some k"
    by (auto simp: vm_mngr_check_exit_def)
  have mwf: "mngr_wf (rm_vms s)" using inv by (simp add: rm_inv_def)
  have id: "VM_id (vm_at s k) = v" using get_instanceD [OF k mwf] by (simp add: vm_at_def)
  from run k True p(1) id have "rm_pool s' = p" "mngr_VMs (rm_vms s') =
      (mngr_VMs (rm_vms s))[k := (vm_at s k)\<lparr>VM_core_set := [], VM_initialized := False\<rparr>]"
    by (auto simp: vm_mngr_instance_destroy_def vm_running_def vm_at_def bindE_eq_Inr Let_def mngr_put_def)
  moreover have "vm_running (rm_vms s') w = vm_running (rm_vms s) w" for w
  proof (cases "vm_mngr_get_instance w (rm_vms s)")
    case None
    with d(2) [of w] show ?thesis by (simp add: vm_running_def)
  next
    case (Some j)
    have "w \<noteq> v \<Longrightarrow> j \<noteq> k" using get_instanceD(2) [OF Some mwf] get_instanceD(2) [OF k mwf] by auto
    with Some d(2) [of w] True calculation(2) show ?thesis
      by (cases "w = v") (simp_all add: vm_running_def)
  qed
  moreover have "{w. vm_mngr_check_exit w (rm_vms s')} = {w. vm_mngr_check_exit w (rm_vms s)} - {v}"
    using d(2) by (auto simp: vm_mngr_check_exit_def)
  ultimately show "vm_spec_of s' = (vm_spec_of s)\<lparr>sp_vms := sp_vms (vm_spec_of s) - {v},
      sp_grants := (\<lambda>k. if fst k = v then None else sp_grants (vm_spec_of s) k)\<rparr>"
    "req_valid (rm_pool s') = req_valid (rm_pool s)" "r = 0" "rm_inv s'"
    using d(1,3,4) p(2) by (simp_all add: vm_spec_of_def cong: if_cong)
qed

lemma destroy_sim:
  assumes inv: "rm_inv s" and run: "vm_mngr_instance_destroy v s = Inr (r, s')"
  shows "sim s s'"
proof (cases "vm_mngr_check_exit v (rm_vms s) \<and> \<not> vm_running (rm_vms s) v")
  case False
  with destroy_correct [OF inv, of v] run inv show ?thesis by auto
next
  case True
  then have "v \<in> sp_vms (vm_spec_of s)" "v \<notin> sp_running (vm_spec_of s)" by simp_all
  with destroy_spec [OF inv run True] show ?thesis
    using spec_step.Destroy [of v "vm_spec_of s" "req_valid (rm_pool s)"] by (simp add: sim_def)
qed

text \<open>Start and stop replace an entry by one of the same VM with the same devices.\<close>

lemma put_table:
  assumes "vm_mngr_get_instance v m = Some k" "mngr_wf m" "perf_frame (mngr_VMs m ! k) (V\<lparr>VM_running := b\<rparr>)"
  shows "vm_mngr_get_instance w (mngr_put k V m) = vm_mngr_get_instance w m"
    and "vm_ledger (mngr_put k V m) = vm_ledger m"
proof -
  note k = get_instanceD [OF assms(1,2)]
  have V: "VM_id V = v" "VM_initialized V" "VM_attached_devs V = VM_attached_devs (mngr_VMs m ! k)"
    using assms(3) k by (simp_all add: perf_frame_def)
  have find: "find_vm v (mngr_VMs m) = Some k" using assms(1) by (simp add: vm_mngr_get_instance_def)
  show get: "vm_mngr_get_instance w (mngr_put k V m) = vm_mngr_get_instance w m" for w
    using find_vm_put(1) [OF find V(1,2)] by (simp add: vm_mngr_get_instance_def mngr_put_def)
  have "find_memdev i (mngr_VMs (mngr_put k V m) ! j) = find_memdev i (mngr_VMs m ! j)" for i j
    using k(1) V(3) by (simp add: mngr_put_def nth_list_update find_memdev_def)
  then show "vm_ledger (mngr_put k V m) = vm_ledger m"
    by (auto simp: vm_ledger_def vm_mngr_instance_get_mem_def get fun_eq_iff split: option.split)
qed

lemma start_entry:
  assumes inv: "rm_inv s" and run: "vm_mngr_instance_start os v s = Inr (r, s')"
    and get: "vm_mngr_get_instance v (rm_vms s) = Some k" "\<not> VM_running (vm_at s k)"
  shows "\<exists>V b. rm_vms s' = mngr_put k V (rm_vms s) \<and> perf_frame (vm_at s k) (V\<lparr>VM_running := b\<rparr>) \<and>
           0 \<le> v \<and> v < MAX_NUM_VM"
proof -
  from start_result [OF inv run get] obtain V b ag w w1 w2 ret where
    V: "s' = (put_vm k (V\<lparr>VM_running := b\<rparr>) s)\<lparr>rm_agents := ag, rm_world := w\<rparr>" "perf_frame (vm_at s k) V"
    and ga: "guest_agent_init os v (rm_agents s, w1) = Inr (ret, ag, w2)" by metis
  have "(V\<lparr>VM_running := b\<rparr>)\<lparr>VM_running := False\<rparr> = V" using V(2) get(2) by (simp add: perf_frame_def)
  then have "perf_frame (vm_at s k) ((V\<lparr>VM_running := b\<rparr>)\<lparr>VM_running := False\<rparr>)" using V(2) by simp
  with V(1) agent_init_range [OF ga] show ?thesis
    by (intro exI [of _ "V\<lparr>VM_running := b\<rparr>"] exI [of _ False]) (simp add: put_vm_def)
qed

lemma start_spec:
  assumes inv: "rm_inv s" and run: "vm_mngr_instance_start os v s = Inr (r, s')"
  shows "vm_spec_of s' = vm_spec_of s \<and> (r = 0 \<longleftrightarrow> v \<in> sp_running (vm_spec_of s)) \<or>
    r = 0 \<and> v \<in> sp_vms (vm_spec_of s) \<and> v \<notin> sp_running (vm_spec_of s) \<and> 0 \<le> v \<and> v < 16 \<and>
    vm_spec_of s' = (vm_spec_of s)\<lparr>sp_running := insert v (sp_running (vm_spec_of s))\<rparr>"
proof (cases "\<exists>k. vm_mngr_get_instance v (rm_vms s) = Some k \<and> \<not> VM_running (vm_at s k)")
  case False
  with run have "s' = s" by (auto simp: vm_mngr_instance_start_def split: option.splits)
  with start_inv [OF inv run] show ?thesis by simp
next
  case True
  then obtain k where k: "vm_mngr_get_instance v (rm_vms s) = Some k" "\<not> VM_running (vm_at s k)" by blast
  have wf: "mngr_wf (rm_vms s)" using inv by (simp add: rm_inv_def)
  from start_entry [OF inv run k] obtain V b where
    V: "rm_vms s' = mngr_put k V (rm_vms s)" "perf_frame (vm_at s k) (V\<lparr>VM_running := b\<rparr>)"
      "0 \<le> v" "v < MAX_NUM_VM" by blast
  note tab = put_table [OF k(1) wf V(2) [unfolded vm_at_def]]
  note st = start_inv [OF inv run]
  have off: "\<not> vm_running (rm_vms s) v" using k by (simp add: vm_running_def vm_at_def)
  have on: "vm_running (rm_vms s') u \<longleftrightarrow> u = v \<and> r = 0 \<or> vm_running (rm_vms s) u" for u
    using st off by (cases "u = v") simp_all
  have "vm_spec_of s' = (if r = 0 then (vm_spec_of s)\<lparr>sp_running := insert v (sp_running (vm_spec_of s))\<rparr>
      else vm_spec_of s)"
    using on tab by (auto simp: vm_spec_of_def vm_mngr_check_exit_def V(1) [symmetric])
  then show ?thesis using off k V(3,4) by (simp add: vm_mngr_check_exit_def MAX_NUM_VM_def)
qed

lemma start_sim:
  assumes inv: "rm_inv s" and run: "vm_mngr_instance_start os v s = Inr (r, s')"
  shows "sim s s'"
  using start_spec [OF assms] start_inv [OF assms] spec_step.Start [of v "vm_spec_of s" "req_valid (rm_pool s)"]
  by (auto simp: sim_def)

lemma stop_spec:
  assumes inv: "rm_inv s" and run: "vm_mngr_instance_stop os v s = Inr (r, s')"
  shows "vm_spec_of s' = (vm_spec_of s)\<lparr>sp_running := sp_running (vm_spec_of s) - {v}\<rparr>"
proof (cases "\<exists>k. vm_mngr_get_instance v (rm_vms s) = Some k \<and> VM_running (vm_at s k)")
  case False
  with run have "s' = s" by (auto simp: vm_mngr_instance_stop_def split: option.splits)
  moreover have "v \<notin> sp_running (vm_spec_of s)"
    using False by (auto simp: vm_running_def vm_at_def split: option.splits)
  ultimately show ?thesis by simp
next
  case True
  then obtain k where k: "vm_mngr_get_instance v (rm_vms s) = Some k" "VM_running (vm_at s k)" by blast
  have wf: "mngr_wf (rm_vms s)" using inv by (simp add: rm_inv_def)
  from run k obtain V ag w1 w2 where
    V: "vm_perf_counter_teardown os ((vm_at s k)\<lparr>VM_running := False\<rparr>, w1) = Inr (V, w2)"
      "rm_vms s' = mngr_put k V (rm_vms s)"
    by (auto simp: vm_mngr_instance_stop_def bindE_eq_Inr Let_def put_vm_def)
  from perf_teardown_frame [OF V(1)] k(2) have "perf_frame (vm_at s k) (V\<lparr>VM_running := True\<rparr>)"
    by (simp add: perf_frame_def)
  note tab = put_table [OF k(1) wf this [unfolded vm_at_def]]
  have "vm_running (rm_vms s') u \<longleftrightarrow> u \<noteq> v \<and> vm_running (rm_vms s) u" for u
    using stop_inv [OF inv run] by (cases "u = v") simp_all
  then show ?thesis
    using tab by (auto simp: vm_spec_of_def vm_mngr_check_exit_def V(2) [symmetric])
qed

lemma stop_sim:
  assumes inv: "rm_inv s" and run: "vm_mngr_instance_stop os v s = Inr (r, s')"
  shows "sim s s'"
proof (cases "v \<in> sp_running (vm_spec_of s)")
  case True
  then show ?thesis
    using spec_step.Stop [OF True] stop_spec [OF assms] stop_inv [OF assms] by (simp add: sim_def)
next
  case False
  then have "vm_spec_of s' = vm_spec_of s" using stop_spec [OF assms] by simp
  then show ?thesis using stop_inv [OF assms] by (simp add: sim_def)
qed

text \<open>Allocation and release keep the entry's VM and whether it runs.\<close>

lemma put_alive:
  assumes "vm_mngr_get_instance v m = Some k" "mngr_wf m"
    and V: "VM_id V = v" "VM_initialized V" "VM_running V = VM_running (mngr_VMs m ! k)"
  shows "vm_mngr_check_exit w (mngr_put k V m) = vm_mngr_check_exit w m"
    and "vm_running (mngr_put k V m) w = vm_running m w"
proof -
  note k = get_instanceD [OF assms(1,2)]
  have find: "find_vm v (mngr_VMs m) = Some k" using assms(1) by (simp add: vm_mngr_get_instance_def)
  have get: "vm_mngr_get_instance w (mngr_put k V m) = vm_mngr_get_instance w m" for w
    using find_vm_put(1) [OF find V(1,2)] by (simp add: vm_mngr_get_instance_def mngr_put_def)
  then show "vm_mngr_check_exit w (mngr_put k V m) = vm_mngr_check_exit w m"
    by (simp add: vm_mngr_check_exit_def)
  have "VM_running (mngr_VMs (mngr_put k V m) ! j) = VM_running (mngr_VMs m ! j)" for j
    using k(1) V(3) by (simp add: mngr_put_def nth_list_update)
  then show "vm_running (mngr_put k V m) w = vm_running m w"
    by (simp add: vm_running_def get split: option.split)
qed

lemma alloc_mem_inv:
  assumes inv: "rm_inv s" and sz: "0 < sz" "sz \<le> INT_MAX"
    and run: "vm_mngr_instance_alloc_mem os nid v sz s = Inr (r, s')"
  shows "rm_inv s'"
proof (cases "\<forall>k. vm_mngr_get_instance v (rm_vms s) = Some k \<longrightarrow> VM_memdev_counter (vm_at s k) < INT_MAX")
  case True
  then obtain r1 s1 where "vm_mngr_instance_alloc_mem os nid v sz s = Inr (r1, s1)" "rm_inv s1"
    using alloc_mem_correct [OF inv sz, of v os nid] by blast
  with run show ?thesis by simp
next
  case False
  then obtain k where k: "vm_mngr_get_instance v (rm_vms s) = Some k"
    "INT_MAX \<le> VM_memdev_counter (vm_at s k)" by auto
  have full: "c_add (VM_memdev_counter (mngr_VMs (rm_vms s) ! k)) 1 = Inl SignedOverflow"
    using k(2) by (simp add: c_add_def ck_def in_int_def vm_at_def)
  have pwf: "pool_wf (rm_pool s)" using inv by (simp add: rm_inv_def ledger_inv_def)
  obtain ret p where al: "memory_pool_allocate_segments nid v sz (rm_pool s) = Inr (ret, p)"
    using pool.alloc_total [OF pwf sz] by (metis surj_pair)
  obtain ok w where mal: "os_malloc os sizeof_memory_dev (rm_world s) = (ok, w)" by (metis surj_pair)
  have "p = rm_pool s" if "ret = None" using pool.alloc_None [OF pwf sz al [unfolded that]] .
  then have "s' = s\<lparr>rm_world := w\<rparr>"
    using run k(1) al mal full
    by (auto simp: vm_mngr_instance_alloc_mem_def vm_mngr_get_new_memdev_idx_def Let_def
        split: if_splits option.splits)
  with inv show ?thesis by simp
qed

lemma alloc_entry:
  assumes "vm_mngr_instance_alloc_mem os nid v sz s = Inr (Some a, s')" "mngr_wf (rm_vms s)"
  shows "\<exists>k V. vm_mngr_get_instance v (rm_vms s) = Some k \<and> rm_vms s' = mngr_put k V (rm_vms s) \<and>
           VM_id V = v \<and> VM_initialized V \<and> VM_running V = VM_running (mngr_VMs (rm_vms s) ! k) \<and>
           VM_memdev_counter (vm_at s k) < INT_MAX"
proof -
  from assms(1) obtain k where k: "vm_mngr_get_instance v (rm_vms s) = Some k"
    by (auto simp: vm_mngr_instance_alloc_mem_def split: option.splits)
  note kk = get_instanceD [OF k assms(2)]
  show ?thesis
    using assms(1) k kk
    by (auto simp: vm_mngr_instance_alloc_mem_def vm_mngr_get_new_memdev_idx_def Let_def bindE_eq_Inr c_add_def
        ck_eq_Inr in_int_def vm_at_def mngr_put_def split: if_splits option.splits prod.splits)
      (intro exI conjI, rule refl, simp_all)
qed

lemma alloc_spec:
  assumes inv: "rm_inv s" and sz: "0 < sz" "sz \<le> INT_MAX"
    and run: "vm_mngr_instance_alloc_mem os nid v sz s = Inr (r, s')"
  shows "case r of
      None \<Rightarrow> s' = s\<lparr>rm_world := rm_world s'\<rparr>
    | Some a \<Rightarrow> \<exists>q. v \<in> sp_vms (vm_spec_of s) \<and> sp_grants (vm_spec_of s) (v, vmr_memdev_idx a) = None \<and>
        req_valid (rm_pool s) q \<and> (\<forall>x u. sp_grants (vm_spec_of s) x = Some u \<longrightarrow> grants_apart q u) \<and>
        vm_spec_of s' = (vm_spec_of s)\<lparr>sp_grants := (sp_grants (vm_spec_of s))((v, vmr_memdev_idx a) \<mapsto> q)\<rparr> \<and>
        rm_inv s' \<and> req_valid (rm_pool s') = req_valid (rm_pool s) \<and>
        0 \<le> vmr_memdev_idx a \<and> vmr_memdev_idx a < INT_MAX \<and>
        memory_pool_allocate_segments nid v sz (rm_pool s) = Inr (Some q, rm_pool s') \<and>
        vmr_dev_path a = take 63 (req_dev_path q) \<and> vmr_offset_mb a = req_offset_mb q \<and>
        vmr_size_mb a = req_size_mb q \<and> vmr_align_mb a = req_align_mb q"
proof (cases r)
  case None
  have "s' = s\<lparr>rm_world := rm_world s'\<rparr>"
  proof -
    have pwf: "pool_wf (rm_pool s)" using inv by (simp add: rm_inv_def ledger_inv_def)
    have "p = rm_pool s" if "memory_pool_allocate_segments nid v sz (rm_pool s) = Inr (None, p)" for p
      by (rule pool.alloc_None [OF pwf sz that])
    with run None show ?thesis
      by (auto simp: vm_mngr_instance_alloc_mem_def bindE_eq_Inr Let_def split: option.splits prod.splits if_splits)
  qed
  with None show ?thesis by simp
next
  case (Some a)
  have wf: "mngr_wf (rm_vms s)" using inv by (simp add: rm_inv_def)
  from alloc_entry [OF run [unfolded Some] wf] obtain k V where
    V: "vm_mngr_get_instance v (rm_vms s) = Some k" "rm_vms s' = mngr_put k V (rm_vms s)"
      "VM_id V = v" "VM_initialized V" "VM_running V = VM_running (mngr_VMs (rm_vms s) ! k)"
      "VM_memdev_counter (vm_at s k) < INT_MAX" by blast
  note alive = put_alive [OF V(1) wf V(3-5)]
  from alloc_mem_correct [OF inv sz, of v os nid] V(1,6) run Some obtain q where
    q: "rm_inv s'" "vm_ledger (rm_vms s) (v, vmr_memdev_idx a) = None"
      "memory_pool_allocate_segments nid v sz (rm_pool s) = Inr (Some q, rm_pool s')"
      "vm_ledger (rm_vms s') = (vm_ledger (rm_vms s))((v, vmr_memdev_idx a) \<mapsto> q)"
      "0 \<le> vmr_memdev_idx a" "vmr_memdev_idx a < INT_MAX" "vmr_dev_path a = take 63 (req_dev_path q)"
      "vmr_offset_mb a = req_offset_mb q" "vmr_size_mb a = req_size_mb q" "vmr_align_mb a = req_align_mb q"
    by auto
  have "pool_wf (rm_pool s)" using inv by (simp add: rm_inv_def ledger_inv_def)
  from pool.alloc_frame [OF this sz q(3)] have valid: "req_valid (rm_pool s') = req_valid (rm_pool s)"
    "req_valid (rm_pool s) q" by auto
  have apart: "grants_apart q u" if u: "vm_ledger (rm_vms s) x = Some u" for x u
  proof -
    have "x \<noteq> (v, vmr_memdev_idx a)" using u q(2) by auto
    moreover have "vm_ledger (rm_vms s') (v, vmr_memdev_idx a) = Some q" by (simp add: q(4))
    moreover have "vm_ledger (rm_vms s') x = Some u" using u calculation(1) by (simp add: q(4))
    ultimately show ?thesis
      using rm_inv_grants(2) [OF q(1), of v "vmr_memdev_idx a" q "fst x" "snd x" u]
      by (auto simp: vm_ledger_def split: prod.splits)
  qed
  have "vm_spec_of s' = (vm_spec_of s)\<lparr>sp_grants := (sp_grants (vm_spec_of s))((v, vmr_memdev_idx a) \<mapsto> q)\<rparr>"
    using alive q(4) by (simp add: vm_spec_of_def V(2) [symmetric])
  moreover have "v \<in> sp_vms (vm_spec_of s)" using V(1) by (simp add: vm_mngr_check_exit_def)
  ultimately show ?thesis using Some q valid apart by auto
qed

lemma alloc_sim:
  assumes inv: "rm_inv s" and sz: "0 < sz" "sz \<le> INT_MAX"
    and run: "vm_mngr_instance_alloc_mem os nid v sz s = Inr (r, s')"
  shows "sim s s'"
proof (cases r)
  case None
  with alloc_spec [OF assms] obtain w where "s' = s\<lparr>rm_world := w\<rparr>" by auto
  with inv show ?thesis by simp
next
  case (Some a)
  with alloc_spec [OF assms] obtain q where q: "v \<in> sp_vms (vm_spec_of s)"
    "sp_grants (vm_spec_of s) (v, vmr_memdev_idx a) = None" "req_valid (rm_pool s) q"
    "\<And>x u. sp_grants (vm_spec_of s) x = Some u \<Longrightarrow> grants_apart q u"
    "vm_spec_of s' = (vm_spec_of s)\<lparr>sp_grants := (sp_grants (vm_spec_of s))((v, vmr_memdev_idx a) \<mapsto> q)\<rparr>"
    "rm_inv s'" "req_valid (rm_pool s') = req_valid (rm_pool s)" by auto
  from spec_step.Grant [of v "vm_spec_of s" "vmr_memdev_idx a" "req_valid (rm_pool s)" q] q show ?thesis
    by (simp add: sim_def)
qed

lemma free_spec:
  assumes inv: "rm_inv s" and run: "vm_mngr_instance_free_mem v i s = Inr (r, s')"
  shows "rm_inv s' \<and> req_valid (rm_pool s') = req_valid (rm_pool s) \<and>
    r = (if sp_grants (vm_spec_of s) (v, i) = None then -1 else 0) \<and>
    vm_spec_of s' = (vm_spec_of s)\<lparr>sp_grants := (sp_grants (vm_spec_of s))((v, i) := None)\<rparr>"
proof (cases "vm_mngr_instance_get_mem v i (rm_vms s)")
  case None
  with free_mem_correct [OF inv, of v i] run have "r = -1" "s' = s" by auto
  moreover have entry: "vm_ledger (rm_vms s) (v, i) = None" using None by (simp add: vm_ledger_def)
  then have "(vm_ledger (rm_vms s))((v, i) := None) = vm_ledger (rm_vms s)" by auto
  ultimately show ?thesis using inv entry by (simp add: vm_spec_of_def)
next
  case (Some q)
  with free_mem_correct [OF inv, of v i] run have f: "rm_inv s'" "r = 0"
    "vm_ledger (rm_vms s') = (vm_ledger (rm_vms s))((v, i) := None)" by auto
  have wf: "mngr_wf (rm_vms s)" using inv by (simp add: rm_inv_def)
  from Some obtain k d where k: "vm_mngr_get_instance v (rm_vms s) = Some k"
    and d: "find_memdev i (vm_at s k) = Some d" "memory_req d = q"
    by (auto simp: vm_mngr_instance_get_mem_def vm_at_def split: option.splits)
  have led: "ledger_inv pool_wf pool_owner req_span req_valid (rm_pool s) (vm_ledger (rm_vms s))"
    using inv by (simp add: rm_inv_def)
  have entry: "vm_ledger (rm_vms s) (v, i) = Some q" using Some by (simp add: vm_ledger_def)
  from led entry have pwf: "pool_wf (rm_pool s)" and val: "req_valid (rm_pool s) q"
    and ex: "ledger_exact (pool_owner (rm_pool s)) (req_span (rm_pool s)) (vm_ledger (rm_vms s))"
    by (auto simp: ledger_inv_def)
  from pool.release_owned [OF pwf val ledger_owned [OF ex entry]] obtain p where
    p: "release_request v q (rm_pool s) = Inr (0, p)" "req_valid p = req_valid (rm_pool s)" by blast
  define V where "V = (vm_at s k)\<lparr>VM_attached_devs := remove1 d (VM_attached_devs (vm_at s k))\<rparr>"
  have s': "s' = put_vm k V (s\<lparr>rm_pool := p\<rparr>)"
    using run k d p(1) by (simp add: vm_mngr_instance_free_mem_def release_request_def Let_def V_def)
  have "VM_id V = v" "VM_initialized V" "VM_running V = VM_running (mngr_VMs (rm_vms s) ! k)"
    using get_instanceD [OF k wf] by (simp_all add: V_def vm_at_def)
  note alive = put_alive [OF k wf this]
  have vms: "rm_vms s' = mngr_put k V (rm_vms s)" "rm_pool s' = p" by (simp_all add: s' put_vm_def)
  have "vm_spec_of s' = (vm_spec_of s)\<lparr>sp_grants := (sp_grants (vm_spec_of s))((v, i) := None)\<rparr>"
    using alive f(3) by (simp add: vm_spec_of_def vms(1) [symmetric])
  then show ?thesis using entry f(1,2) p(2) by (simp add: vms(2))
qed

lemma free_sim:
  assumes inv: "rm_inv s" and run: "vm_mngr_instance_free_mem v i s = Inr (r, s')"
  shows "sim s s'"
proof (cases "sp_grants (vm_spec_of s) (v, i)")
  case None
  then have "(sp_grants (vm_spec_of s))((v, i) := None) = sp_grants (vm_spec_of s)" by auto
  with free_spec [OF assms] show ?thesis by (simp add: sim_def)
next
  case (Some q)
  with free_spec [OF assms] spec_step.Free [OF Some, of "req_valid (rm_pool s)"] show ?thesis by (simp add: sim_def)
qed

end
