(* ===== verification/Handlers.thy ===== *)
theory Handlers
  imports ResourceManager VmMonitor VmSpec
begin

text \<open>
  What a request does to the state, once for every relation between the state before and after:
  a relation that the operations of the VM manager respect, and that does not look at the world, is
  respected by every handler, by the dispatch, by \<open>serve\<close> and by the treatment of a client.
\<close>

section \<open>Relations respected by the operations\<close>

locale respected =
  fixes os :: "'w os" and R :: "'w rm_state \<Rightarrow> 'w rm_state \<Rightarrow> bool"
  assumes same: "rm_inv s \<Longrightarrow> R s s"
    and world: "R (s\<lparr>rm_world := w\<rparr>) s' = R s s'" "R s (s'\<lparr>rm_world := w\<rparr>) = R s s'"
    and create: "rm_inv s \<Longrightarrow> vm_mngr_instance_create v cs (rm_vms s) = Inr (r, m) \<Longrightarrow> R s (s\<lparr>rm_vms := m\<rparr>)"
    and alloc: "rm_inv s \<Longrightarrow> 0 < sz \<Longrightarrow> sz \<le> INT_MAX \<Longrightarrow>
      vm_mngr_instance_alloc_mem os nid v sz s = Inr (a, s') \<Longrightarrow> R s s'"
    and free: "rm_inv s \<Longrightarrow> vm_mngr_instance_free_mem v i s = Inr (r, s') \<Longrightarrow> R s s'"
    and destroy: "rm_inv s \<Longrightarrow> vm_mngr_instance_destroy v s = Inr (r, s') \<Longrightarrow> R s s'"
    and start: "rm_inv s \<Longrightarrow> vm_mngr_instance_start os v s = Inr (r, s') \<Longrightarrow> R s s'"
    and stop: "rm_inv s \<Longrightarrow> vm_mngr_instance_stop os v s = Inr (r, s') \<Longrightarrow> R s s'"

definition keeps ::
    "('w rm_state \<Rightarrow> 'w rm_state \<Rightarrow> bool) \<Rightarrow> 'w rm_state \<Rightarrow> ('r \<times> 'w rm_state) res \<Rightarrow> bool" where
  "keeps R s m \<longleftrightarrow> ensures m (\<lambda>(r, s'). R s s')"

lemma malloc_ensures: "(\<And>w. Q (s\<lparr>rm_world := w\<rparr>)) \<Longrightarrow> ensures (rpc_malloc os s) Q"
  by (cases "fst (os_malloc os (nat BUFFER_SIZE) (rm_world s))")
    (simp_all add: rpc_malloc_def case_prod_beta)

lemma scan_ints:
  "(\<And>vs. (\<And>i. SInt i \<in> set vs \<Longrightarrow> in_int i) \<Longrightarrow> Q vs) \<Longrightarrow> ensures (sscanf t fs) Q"
  by (rule ensuresI) (use sscanf_in_int in blast)

lemma ints2_Some: "ints2 vs = Some (a, b) \<longleftrightarrow> vs = [SInt a, SInt b]"
  by (induction vs rule: ints2.induct) auto

lemma ints3_Some: "ints3 vs = Some (a, b, c) \<longleftrightarrow> vs = [SInt a, SInt b, SInt c]"
  by (induction vs rule: ints3.induct) auto

lemma int_text_Some: "int_text vs = Some (a, t) \<longleftrightarrow> vs = [SInt a, SStr t]"
  by (induction vs rule: int_text.induct) auto

section \<open>They are respected by every request\<close>

context respected
begin

lemma create_ensures:
  "rm_inv s \<Longrightarrow> (\<And>r m. R s (s\<lparr>rm_vms := m\<rparr>) \<Longrightarrow> Q (r, m)) \<Longrightarrow>
     ensures (vm_mngr_instance_create v cs (rm_vms s)) Q"
  by (rule ensuresI) (use create in fastforce)

lemma alloc_ensures:
  "rm_inv s \<Longrightarrow> 0 < sz \<Longrightarrow> sz \<le> INT_MAX \<Longrightarrow> (\<And>r s'. R s s' \<Longrightarrow> Q (r, s')) \<Longrightarrow>
     ensures (vm_mngr_instance_alloc_mem os nid v sz s) Q"
  by (rule ensuresI) (use alloc in fastforce)

lemma free_ensures:
  "rm_inv s \<Longrightarrow> (\<And>r s'. R s s' \<Longrightarrow> Q (r, s')) \<Longrightarrow> ensures (vm_mngr_instance_free_mem v i s) Q"
  by (rule ensuresI) (use free in fastforce)

lemma destroy_ensures:
  "rm_inv s \<Longrightarrow> (\<And>r s'. R s s' \<Longrightarrow> Q (r, s')) \<Longrightarrow> ensures (vm_mngr_instance_destroy v s) Q"
  by (rule ensuresI) (use destroy in fastforce)

lemma start_ensures:
  "rm_inv s \<Longrightarrow> (\<And>r s'. R s s' \<Longrightarrow> Q (r, s')) \<Longrightarrow> ensures (vm_mngr_instance_start os v s) Q"
  by (rule ensuresI) (use start in fastforce)

lemma stop_ensures:
  "rm_inv s \<Longrightarrow> (\<And>r s'. R s s' \<Longrightarrow> Q (r, s')) \<Longrightarrow> ensures (vm_mngr_instance_stop os v s) Q"
  by (rule ensuresI) (use stop in fastforce)

lemma queries:
  assumes "rm_inv s"
  shows "keeps R s (rpc_handle_get_mem_info os js args s)" "keeps R s (rpc_handle_get_mem_pool os s)"
    "keeps R s (rpc_handle_get_vms os s)" "keeps R s (rpc_handle_get_num_nodes os s)"
    "keeps R s (rpc_handle_get_node_info os args s)"
  using same [OF assms]
  by (auto simp: keeps_def world rpc_handle_get_mem_info_def rpc_handle_get_mem_pool_def rpc_handle_get_vms_def
      rpc_handle_get_num_nodes_def rpc_handle_get_node_info_def Let_def split: option.split prod.split
      intro!: ensures_any [where m = "sscanf _ _"] ensures_any [where m = "guest_agent_get_meminfo _ _ _ _"]
        malloc_ensures)

lemma plugging:
  assumes "rm_inv s"
  shows "keeps R s (rpc_handle_attach_mem os js args s)" "keeps R s (rpc_handle_detach_mem os js args s)"
  using same [OF assms]
  by (auto simp: keeps_def world rpc_handle_attach_mem_def rpc_handle_detach_mem_def split: option.split
      intro!: ensures_any [where m = "sscanf _ _"] malloc_ensures
        ensures_any [where m = "qemu_agent_hotplug_memory _ _ _ _ _"]
        ensures_any [where m = "qemu_agent_hotunplug_memory _ _ _ _ _"])

lemma handle_alloc: "rm_inv s \<Longrightarrow> keeps R s (rpc_handle_alloc_mem os args s)"
  by (auto simp: keeps_def world same rpc_handle_alloc_mem_def ints3_Some in_int_def split: option.split
      intro!: scan_ints malloc_ensures alloc_ensures)

lemma handle_free: "rm_inv s \<Longrightarrow> keeps R s (rpc_handle_free_mem os args s)"
  by (auto simp: keeps_def world same rpc_handle_free_mem_def split: option.split
      intro!: ensures_any [where m = "sscanf _ _"] malloc_ensures free_ensures)

lemma handle_create: "rm_inv s \<Longrightarrow> keeps R s (rpc_handle_create_vm os args s)"
  by (auto simp: keeps_def rpc_handle_create_vm_def world same split: option.split
      intro!: ensures_any [where m = "sscanf _ _"] malloc_ensures create_ensures)

lemma vm_command:
  assumes "rm_inv s" and "\<And>v s Q. rm_inv s \<Longrightarrow> (\<And>r s'. R s s' \<Longrightarrow> Q (r, s')) \<Longrightarrow> ensures (op v s) Q"
  shows "keeps R s (rpc_vm_command os verb op args s)"
  using assms(1)
  by (auto simp: keeps_def rpc_vm_command_def world same split: option.split
      intro!: ensures_any [where m = "sscanf _ _"] malloc_ensures assms(2))

lemma handle_vm:
  assumes "rm_inv s"
  shows "keeps R s (rpc_handle_destroy_vm os args s)"
    and "keeps R s (rpc_handle_start_vm os args s)"
    and "keeps R s (rpc_handle_stop_vm os args s)"
  unfolding rpc_handle_destroy_vm_def rpc_handle_start_vm_def rpc_handle_stop_vm_def
  by (rule vm_command [OF assms destroy_ensures] vm_command [OF assms start_ensures]
      vm_command [OF assms stop_ensures]; assumption)+

lemma with_args: "(\<And>a. keeps R s (h a s)) \<Longrightarrow> keeps R s (with_args args h s)"
  by (simp add: with_args_def keeps_def split: option.split)

lemma dispatch:
  assumes inv: "rm_inv s"
  shows "keeps R s (rpc_dispatch os js cmd args s)"
proof -
  have "keeps R s (Inr (r, s))" for r :: reply using same [OF inv] by (simp add: keeps_def)
  then show ?thesis unfolding rpc_dispatch_def
    by (intro if_split [where P = "keeps R s", THEN iffD2] conjI impI with_args queries plugging
        handle_alloc handle_free handle_create handle_vm inv)
qed

lemma served: "rm_inv s \<Longrightarrow> ensures (serve os js buffer args s) (\<lambda>(t, args, s'). R s s')"
  using dispatch [of s js] same [of s]
  by (auto simp: serve_def keeps_def ensures_def [of "rpc_dispatch _ _ _ _ _"] split: option.split
      intro!: ensures_any [where m = "scan_request _ _"] ensuresI [where m = "rpc_dispatch _ _ _ _ _"]
        ensures_any [where m = "reply_text _"])

lemma client:
  assumes inv: "rm_inv s"
  shows "ensures (rpc_client os js fd (args, s)) (\<lambda>(args, s'). R s s')"
proof -
  have "ensures (serve os js buffer args (s\<lparr>rm_world := w\<rparr>)) (\<lambda>(response, args, s'). R s s')" for buffer w
    using inv served [of "s\<lparr>rm_world := w\<rparr>"] by (simp add: world)
  then show ?thesis using same [OF inv]
    by (auto simp: rpc_client_def world Let_def case_prod_beta ensures_def [of "serve _ _ _ _ _"]
        intro!: ensures_any [where m = "request_text _"] ensuresI [where m = "serve _ _ _ _ _"])
qed

end

text \<open>Every request is at most one step of the specification, and so keeps the invariant.\<close>

interpretation sims: respected os sim for os
  by unfold_locales
    (simp_all add: create_sim alloc_sim free_sim destroy_sim start_sim stop_sim)

lemmas serve_inv = sims.served
lemmas client_inv = sims.client

end
