(* ===== verification/RmCorrect.thy ===== *)
theory RmCorrect
  imports Handlers
begin

text \<open>
  Correctness of the server: a successful initialisation of the pool establishes \<open>rm_inv\<close>, the
  shutdown leaves no VM and no allocated segment; grants as ranges of
  megabytes; requests on the wire.
\<close>

section \<open>Start-up\<close>

lemma memory_pool_init_wf:
  assumes run: "memory_pool_init cfg empty_pool = Inr (0, p)"
    and devs: "g_mem_devs p \<noteq> [] \<or> 0 < g_segment_size_mb p"
    and fits: "list_all (\<lambda>d. dax_total_segments d \<le> MAX_SEGMENTS) (g_mem_devs p)"
  shows "pool_wf p \<and> (\<forall>x. pool_owner p x = None)"
proof -
  from run obtain q ds cfgtext where q: "cfg = Some cfgtext" "load_lines cfgtext empty_pool = Inr (0, q)"
    "init_devs (g_segment_size_mb q) 0 (g_mem_devs q) = Inr ds" "p = q\<lparr>g_mem_devs := ds\<rparr>"
    by (auto simp: memory_pool_init_def init_memory_resource_def memory_pool_load_config_def
        bindE_eq_Inr split: option.splits if_splits)
  have "cfg_ok empty_pool" by (simp add: cfg_ok_def empty_pool_def MAX_DEVICES_def INT_MAX_def)
  from load_lines_cfg_ok [OF q(2) this] have ok: "0 \<le> g_segment_size_mb q" "g_segment_size_mb q \<le> INT_MAX"
    "int (length (g_mem_devs q)) \<le> MAX_DEVICES"
    "list_all (\<lambda>d. 0 < dax_total_size_mb d \<and> dax_total_size_mb d \<le> INT_MAX) (g_mem_devs q)"
    by (auto simp: cfg_ok_def)
  have pos: "0 < g_segment_size_mb q"
  proof (rule ccontr)
    assume "\<not> 0 < g_segment_size_mb q"
    with ok(1) have zero: "g_segment_size_mb q = 0" by simp
    with devs q(4) have "ds \<noteq> []" by auto
    with q(3) zero show False by (cases "g_mem_devs q") (auto simp: init_dev_def)
  qed
  note ds = init_devs_eq [OF pos ok(4), of 0]
  have p: "p = \<lparr>g_mem_devs = initialised_all (g_segment_size_mb q) 0 (g_mem_devs q),
                g_segment_size_mb = g_segment_size_mb q\<rparr>"
    using q(3,4) ds by simp
  have "dax_total_size_mb (g_mem_devs q ! k) div g_segment_size_mb q \<le> MAX_SEGMENTS"
    if "k < length (g_mem_devs q)" for k
    using fits that by (simp add: p list_all_length initialised_all_nth initialised_def)
  with ok(4) have fit: "list_all (\<lambda>d. 0 < dax_total_size_mb d \<and> dax_total_size_mb d \<le> INT_MAX \<and>
      dax_total_size_mb d div g_segment_size_mb q \<le> MAX_SEGMENTS) (g_mem_devs q)"
    by (simp add: list_all_length)
  show ?thesis using pool_wf_initialised [OF pos ok(2,3) fit] by (simp add: p)
qed

definition start_state :: "memory_pool \<Rightarrow> 'w \<Rightarrow> 'w rm_state" where
  "start_state p w = \<lparr>rm_pool = p, rm_vms = zero_mngr, rm_agents = zero_agents, rm_world = w\<rparr>"

lemma find_vm_zero: "find_vm v (replicate n zero_vm) = None"
  by (simp add: find_vm_None live_ids_def zero_vm_def)

lemma rm_inv_init:
  assumes "pool_wf p" "\<And>x. pool_owner p x = None"
  shows "rm_inv (start_state p w)"
proof -
  have get: "vm_mngr_get_instance v zero_mngr = None" for v
    by (simp add: vm_mngr_get_instance_def zero_mngr_def find_vm_zero)
  then have "vm_ledger zero_mngr = Map.empty"
    by (auto simp: vm_ledger_def vm_mngr_instance_get_mem_def fun_eq_iff)
  with assms get zero_mngr_wf agents_wf_zero show ?thesis
    by (auto simp: rm_inv_def start_state_def ledger_inv_def ledger_exact_def vm_running_def agent_up_def
        zero_agents_def zero_agent_def)
qed

section \<open>Shutdown\<close>

lemma get_instance_at:
  assumes "rm_inv s" "i < nat MAX_NUM_VM" "VM_initialized (vm_at s i)"
  shows "vm_mngr_get_instance (VM_id (vm_at s i)) (rm_vms s) = Some i"
  using assms find_vm_nth [of "mngr_VMs (rm_vms s)" i]
  by (simp add: rm_inv_def mngr_wf_def vm_mngr_get_instance_def vm_at_def)

lemma empty_table:
  assumes inv: "rm_inv s" and "mngr_count (rm_vms s) = 0" and k: "k < nat MAX_NUM_VM"
  shows "\<not> VM_initialized (vm_at s k) \<and> \<not> VM_running (vm_at s k)"
proof -
  have "vm_at s k \<in> set (mngr_VMs (rm_vms s))" using k table_length [OF inv] by (simp add: vm_at_def)
  moreover have "list_all slot_wf (mngr_VMs (rm_vms s))" using inv by (simp add: rm_inv_def mngr_wf_def)
  moreover have "live_ids (mngr_VMs (rm_vms s)) = []" using assms by (simp add: rm_inv_def mngr_wf_def)
  ultimately show ?thesis by (auto simp: live_ids_def filter_empty_conv list_all_iff slot_wf_def)
qed

lemma stop_entry:
  assumes "vm_mngr_instance_stop os v s = Inr (r, s')" "vm_mngr_get_instance v (rm_vms s) = Some k"
  shows "\<exists>V. rm_vms s' = mngr_put k V (rm_vms s) \<and> \<not> VM_running V"
proof (cases "VM_running (vm_at s k)")
  case False
  with assms have "s' = s" by (simp add: vm_mngr_instance_stop_def)
  with False show ?thesis by (intro exI [of _ "vm_at s k"]) (simp add: mngr_put_def vm_at_def)
next
  case True
  with assms obtain V ag w1 w2 where
    V: "vm_perf_counter_teardown os ((vm_at s k)\<lparr>VM_running := False\<rparr>, w1) = Inr (V, w2)"
    and s': "s' = (put_vm k V s)\<lparr>rm_agents := ag, rm_world := w2\<rparr>"
    by (auto simp: vm_mngr_instance_stop_def bindE_eq_Inr Let_def)
  from perf_teardown_frame [OF V] have "\<not> VM_running V" by (simp add: perf_frame_def)
  with s' show ?thesis by (auto simp: put_vm_def)
qed

lemma stop_total:
  assumes inv: "rm_inv s" and os: "perf_reads_ok os" "perf_closes_ok os"
  shows "\<exists>r s'. vm_mngr_instance_stop os v s = Inr (r, s')"
proof (cases "vm_mngr_get_instance v (rm_vms s)")
  case None
  then show ?thesis by (simp add: vm_mngr_instance_stop_def)
next
  case (Some k)
  let ?VM = "vm_at s k"
  have mwf: "mngr_wf (rm_vms s)" using inv by (simp add: rm_inv_def)
  note k = get_instanceD [OF Some mwf]
  show ?thesis
  proof (cases "VM_running ?VM")
    case False
    with Some show ?thesis by (simp add: vm_mngr_instance_stop_def)
  next
    case True
    have link: "agents.linked (rm_agents s) (agent_up (rm_agents s))"
      using inv by (simp add: agents.linked_def rm_inv_def)
    have "agent_up (rm_agents s) v" using not_running_down [OF inv Some] True by simp
    from agents.linked_close [OF link this, of os "os_usleep os 1000 (rm_world s)"] obtain ag w1 where
      cl: "guest_agent_cleanup os v (rm_agents s, os_usleep os 1000 (rm_world s)) = Inr (ag, w1)" by blast
    have "perf_live ?VM" using k(4) True by (simp add: vm_wf_def vm_at_def)
    then have "perf_live (?VM\<lparr>VM_running := False\<rparr>)"
      using fds_upto_cong [of "?VM\<lparr>VM_running := False\<rparr>" _ ?VM] by (simp add: perf_live_def)
    from perf_teardown_ok [OF this os] obtain V w2 where
      "vm_perf_counter_teardown os (?VM\<lparr>VM_running := False\<rparr>, w1) = Inr (V, w2)" by blast
    moreover have "VM_id ?VM = v" using k by (simp add: vm_at_def)
    ultimately show ?thesis using Some True cl by (simp add: vm_mngr_instance_stop_def Let_def)
  qed
qed

lemma start_total:
  assumes inv: "rm_inv s" and os: "perf_opens_ok os" "perf_reads_ok os" "perf_closes_ok os"
    and v: "0 \<le> v" "v < MAX_NUM_VM"
    and cores: "\<And>k ids. vm_mngr_get_instance v (rm_vms s) = Some k \<Longrightarrow>
          core_ids (VM_core_set (vm_at s k)) = Inr ids \<Longrightarrow> ids \<noteq> [] \<and> (\<forall>c \<in> set ids. 0 \<le> c)"
  shows "\<exists>r s'. vm_mngr_instance_start os v s = Inr (r, s')"
proof (cases "vm_mngr_get_instance v (rm_vms s)")
  case None
  then show ?thesis by (simp add: vm_mngr_instance_start_def)
next
  case (Some k)
  let ?VM = "vm_at s k"
  have mwf: "mngr_wf (rm_vms s)" using inv by (simp add: rm_inv_def)
  note k = get_instanceD [OF Some mwf]
  from k(4) obtain ids where ids: "core_ids (VM_core_set ?VM) = Inr ids"
    "VM_num_cores ?VM = int (length ids)" "VM_num_cores ?VM \<le> INT_MAX" by (auto simp: vm_wf_def vm_at_def)
  from cores [OF Some ids(1)] have ne: "ids \<noteq> []" "\<And>c. c \<in> set ids \<Longrightarrow> 0 \<le> c" by auto
  obtain V w1 where st: "vm_perf_counter_setup os (?VM, rm_world s) = Inr (V, w1)"
    using perf_setup_ok [OF os(1) ids ne] by blast
  from perf_setup_live [OF st ids(1,2)] have live: "perf_live V" by simp
  have awf: "agents_wf (rm_agents s)" using inv by (simp add: rm_inv_def)
  from guest_agent_init_correct [OF awf v, of os w1] obtain ret ag w2 where
    ga: "guest_agent_init os v (rm_agents s, w1) = Inr (ret, ag, w2)" by blast
  from perf_teardown_ok [OF live os(2,3)] obtain U w3 where
    "vm_perf_counter_teardown os (V, w2) = Inr (U, w3)" by blast
  moreover have "VM_initialized ?VM" using k by (simp add: vm_at_def)
  ultimately show ?thesis using Some st ga by (auto simp: vm_mngr_instance_start_def Let_def)
qed

lemma stop_all:
  fixes s :: "'w rm_state"
  assumes inv: "rm_inv s" and os: "perf_reads_ok os" "perf_closes_ok os"
  shows "\<exists>s'. vm_mngr_for_each_vm_running (vm_stop os) s = Inr s' \<and> rm_inv s' \<and>
           (\<forall>k < nat MAX_NUM_VM. \<not> VM_running (vm_at s' k))"
proof (cases "mngr_count (rm_vms s) = 0")
  case True
  with empty_table [OF inv] inv show ?thesis by (simp add: vm_mngr_for_each_vm_running_def)
next
  case False
  let ?N = "[0..<nat MAX_NUM_VM]"
  let ?f = "\<lambda>i t :: 'w rm_state. if \<not> VM_initialized (vm_at t i) \<or> \<not> VM_running (vm_at t i) then Inr t
                   else vm_stop os i t"
  let ?P = "\<lambda>pre t. rm_inv t \<and> (\<forall>k \<in> set pre. \<not> VM_running (vm_at t k))"
  have "\<exists>s'. foldE ?f ?N s = Inr s' \<and> ?P ?N s'"
  proof (rule foldE_total [where P = ?P])
    fix pre i rest and t :: "'w rm_state"
    assume split: "?N = pre @ i # rest" and P: "?P pre t"
    have i: "i < nat MAX_NUM_VM" using split by (metis atLeastLessThan_iff in_set_conv_decomp set_upt)
    have invt: "rm_inv t" using P by simp
    then have run_init: "VM_running (vm_at t i) \<longrightarrow> VM_initialized (vm_at t i)"
      using i by (auto simp: rm_inv_def mngr_wf_def list_all_length slot_wf_def vm_at_def)
    show "\<exists>t'. ?f i t = Inr t' \<and> ?P (pre @ [i]) t'"
    proof (cases "VM_running (vm_at t i)")
      case False
      with P show ?thesis by auto
    next
      case True
      with run_init have get: "vm_mngr_get_instance (VM_id (vm_at t i)) (rm_vms t) = Some i"
        using get_instance_at [OF invt i] by blast
      from stop_total [OF invt os] obtain r t' where
        st: "vm_mngr_instance_stop os (VM_id (vm_at t i)) t = Inr (r, t')" by blast
      from stop_entry [OF st get] obtain V where V: "rm_vms t' = mngr_put i V (rm_vms t)" "\<not> VM_running V"
        by blast
      have "vm_at t' k = (if k = i then V else vm_at t k)" for k
        using V(1) i table_length [OF invt] by (simp add: vm_at_def mngr_put_def nth_list_update)
      moreover have "rm_inv t'" using stop_inv [OF invt st] by blast
      ultimately show ?thesis using True run_init st P V(2) by (auto simp: vm_stop_def)
    qed
  qed (use inv in simp)
  with False show ?thesis by (auto simp: vm_mngr_for_each_vm_running_def)
qed

lemma destroy_entry:
  assumes "vm_mngr_instance_destroy v s = Inr (r, s')" "vm_mngr_get_instance v (rm_vms s) = Some k"
    "\<not> VM_running (vm_at s k)"
  shows "\<exists>V. mngr_VMs (rm_vms s') = (mngr_VMs (rm_vms s))[k := V] \<and> \<not> VM_initialized V \<and> \<not> VM_running V"
  using assms by (auto simp: vm_mngr_instance_destroy_def bindE_eq_Inr Let_def mngr_put_def
      intro!: exI [of _ "(vm_at s k)\<lparr>VM_core_set := [], VM_initialized := False\<rparr>"])

lemma destroy_all:
  fixes s :: "'w rm_state"
  assumes inv: "rm_inv s" and halt: "\<And>k. k < nat MAX_NUM_VM \<Longrightarrow> \<not> VM_running (vm_at s k)"
  shows "\<exists>s'. vm_mngr_for_each_vm vm_destroy s = Inr s' \<and> rm_inv s' \<and>
           (\<forall>k < nat MAX_NUM_VM. \<not> VM_initialized (vm_at s' k))"
proof (cases "mngr_count (rm_vms s) = 0")
  case True
  with empty_table [OF inv] inv show ?thesis by (simp add: vm_mngr_for_each_vm_def)
next
  case False
  let ?N = "[0..<nat MAX_NUM_VM]"
  let ?f = "\<lambda>i t :: 'w rm_state. if \<not> VM_initialized (vm_at t i) then Inr t else vm_destroy i t"
  let ?P = "\<lambda>pre t. rm_inv t \<and> (\<forall>k < nat MAX_NUM_VM. \<not> VM_running (vm_at t k)) \<and>
              (\<forall>k \<in> set pre. \<not> VM_initialized (vm_at t k))"
  have "\<exists>s'. foldE ?f ?N s = Inr s' \<and> ?P ?N s'"
  proof (rule foldE_total [where P = ?P])
    fix pre i rest and t :: "'w rm_state"
    assume split: "?N = pre @ i # rest" and P: "?P pre t"
    have i: "i < nat MAX_NUM_VM" using split by (metis atLeastLessThan_iff in_set_conv_decomp set_upt)
    have invt: "rm_inv t" using P by simp
    show "\<exists>t'. ?f i t = Inr t' \<and> ?P (pre @ [i]) t'"
    proof (cases "VM_initialized (vm_at t i)")
      case False
      with P show ?thesis by auto
    next
      case True
      note get = get_instance_at [OF invt i True]
      obtain r t' where d: "vm_mngr_instance_destroy (VM_id (vm_at t i)) t = Inr (r, t')" "rm_inv t'"
        using destroy_correct [OF invt] by blast
      from P i have "\<not> VM_running (vm_at t i)" by simp
      from destroy_entry [OF d(1) get this] obtain V where
        V: "mngr_VMs (rm_vms t') = (mngr_VMs (rm_vms t))[i := V]" "\<not> VM_initialized V" "\<not> VM_running V"
        by blast
      have "vm_at t' k = (if k = i then V else vm_at t k)" for k
        using V(1) i table_length [OF invt] by (simp add: vm_at_def nth_list_update)
      with True d P V(2,3) show ?thesis by (auto simp: vm_destroy_def)
    qed
  qed (use inv halt in simp)
  with False show ?thesis by (auto simp: vm_mngr_for_each_vm_def)
qed

text \<open>After the shutdown no VM is left, no agent is connected and the pool is free.\<close>

lemma shutdown_correct:
  assumes inv: "rm_inv s" and os: "perf_reads_ok os" "perf_closes_ok os"
  shows "\<exists>s'. release_vms os s = Inr s' \<and> mngr_count (rm_vms s') = 0 \<and>
           (\<forall>v. \<not> vm_mngr_check_exit v (rm_vms s')) \<and> (\<forall>v. \<not> agent_up (rm_agents s') v) \<and>
           (\<forall>x. pool_owner (rm_pool s') x = None)"
proof -
  from stop_all [OF inv os] obtain s1 where
    s1: "vm_mngr_for_each_vm_running (vm_stop os) s = Inr s1" "rm_inv s1"
      "\<And>k. k < nat MAX_NUM_VM \<Longrightarrow> \<not> VM_running (vm_at s1 k)" by blast
  from destroy_all [OF s1(2,3)] obtain s2 where
    s2: "vm_mngr_for_each_vm vm_destroy s1 = Inr s2" "rm_inv s2"
      "\<And>k. k < nat MAX_NUM_VM \<Longrightarrow> \<not> VM_initialized (vm_at s2 k)" by blast
  have none: "live_ids (mngr_VMs (rm_vms s2)) = []"
    using s2(3) table_length [OF s2(2)]
    by (auto simp: live_ids_def filter_empty_conv in_set_conv_nth vm_at_def)
  then have get: "vm_mngr_get_instance v (rm_vms s2) = None" for v
    by (simp add: vm_mngr_get_instance_def find_vm_None)
  from s2(2) have led: "ledger_inv pool_wf pool_owner req_span req_valid (rm_pool s2) (vm_ledger (rm_vms s2))"
    by (simp add: rm_inv_def)
  have "vm_ledger (rm_vms s2) (v, i) = None" for v i
    by (simp add: vm_ledger_def vm_mngr_instance_get_mem_def get)
  from pool.ledger_no_entry [OF led this] have "pool_owner (rm_pool s2) x = None" for x
    by (cases "pool_owner (rm_pool s2) x") auto
  moreover have "mngr_count (rm_vms s2) = 0" using s2(2) none by (simp add: rm_inv_def mngr_wf_def)
  moreover have "\<not> agent_up (rm_agents s2) v" for v
    using s2(2) get by (simp add: rm_inv_def vm_running_def)
  ultimately show ?thesis using s1(1) s2(1) get by (simp add: release_vms_def vm_mngr_check_exit_def)
qed

section \<open>The allocation request on the wire\<close>

definition alloc_args :: "int \<Rightarrow> int \<Rightarrow> int \<Rightarrow> string" where
  "alloc_args nid vid size_mb =
     ''nid='' @ show_int nid @ '' vid='' @ show_int vid @ '' size='' @ show_int size_mb"

lemma sscanf_Ws_lits: "t \<noteq> [] \<Longrightarrow> \<not> is_space (hd t) \<Longrightarrow> sscanf (CHR '' '' # t @ r) (Ws # fs) = sscanf (t @ r) fs"
  by (cases t) simp_all

lemma scan_field_int:
  "in_int i \<Longrightarrow> no_digit_first r \<Longrightarrow>
     sscanf (k @ show_int i @ r) (lits k @ Dec # fs) = bindE (sscanf r fs) (\<lambda>vs. Inr (SInt i # vs))"
  by (simp add: sscanf_lits sscanf_Dec_show del: sscanf.simps(2-6))

lemma scan_next_int:
  assumes "k \<noteq> []" "\<not> is_space (hd k)" "in_int i" "no_digit_first r"
  shows "sscanf (CHR '' '' # k @ show_int i @ r) (Ws # lits k @ Dec # fs) =
     bindE (sscanf r fs) (\<lambda>vs. Inr (SInt i # vs))"
  using sscanf_Ws_lits [of k "show_int i @ r" "lits k @ Dec # fs"] scan_field_int [OF assms(3,4), of k fs] assms(1,2)
  by (simp del: sscanf.simps)

lemma scan_alloc_args:
  assumes "in_int nid" "in_int vid" "in_int size_mb"
  shows "sscanf (alloc_args nid vid size_mb) fmt_alloc = Inr [SInt nid, SInt vid, SInt size_mb]"
  using scan_field_int [OF assms(1), of "'' vid='' @ show_int vid @ '' size='' @ show_int size_mb" "''nid=''"]
    scan_next_int [OF _ _ assms(2), of "''vid=''" "'' size='' @ show_int size_mb"]
    scan_next_int [OF _ _ assms(3), of "''size=''" "[]" "[]"]
  by (simp add: alloc_args_def fmt_alloc_def is_digit_def is_space_def del: sscanf.simps(2-6))

text \<open>The reply names the grant; it is never cut.\<close>

definition grant_text :: "int \<Rightarrow> memory_request \<Rightarrow> string" where
  "grant_text i q =
     ''id=mem'' @ show_int i @ '',mem-path='' @ req_dev_path q @ '',size='' @ show_int (req_size_mb q) @
     ''M,align='' @ show_int (req_align_mb q) @ ''M,offset='' @ show_int (req_offset_mb q) @ ''M''"

lemma granted_fields:
  assumes "pool_wf p" "0 < sz" "sz \<le> INT_MAX"
    "memory_pool_allocate_segments nid v sz p = Inr (Some q, p')"
  shows "req_node_id q = nid \<and> req_size_mb q = sz \<and> length (req_dev_path q) \<le> 63 \<and>
         in_int (req_offset_mb q) \<and> in_int (req_align_mb q)"
proof -
  from memory_pool_allocate_eq [OF assms(1-3), of nid v] assms(4) have
    "req_node_id q = nid" "req_size_mb q = sz" "length (req_dev_path q) \<le> 63"
    "req_align_mb q = g_segment_size_mb p" by (auto split: if_splits)
  moreover have "req_valid p q" using memory_pool_allocate_Some(1) [OF assms] by simp
  then have "in_int (req_offset_mb q)" by (auto simp: req_valid_def Let_def intro: in_int_nonneg)
  moreover have "in_int (g_segment_size_mb p)"
    using pool_seg_pos [OF assms(1)] pool_seg_int [OF assms(1)] by (intro in_int_nonneg) auto
  ultimately show ?thesis by simp
qed

lemma rpc_text_grant:
  assumes "in_int i" "length (req_dev_path q) \<le> 63" "in_int (req_size_mb q)" "in_int (req_align_mb q)"
    "in_int (req_offset_mb q)"
  shows "rpc_text (grant_text i q) = RText (grant_text i q)"
proof -
  have "length (grant_text i q) \<le> 1000"
    using assms(2) show_int_length [OF assms(1)] show_int_length [OF assms(3)]
      show_int_length [OF assms(4)] show_int_length [OF assms(5)]
    by (simp add: grant_text_def)
  then show ?thesis by (simp add: rpc_text_def snprintf_def BUFFER_SIZE_def)
qed

section \<open>Requests\<close>

text \<open>A command word with arguments, and the word alone.\<close>

lemma scan_command:
  assumes "is_word cmd" "length cmd \<le> 63" "a \<noteq> []" "\<not> is_space (hd a)" "newline \<notin> set a" "length a < 1024"
  shows "scan_request (cmd @ '' '' @ a) b = Inr (Some (cmd, Some a))"
proof -
  have sp: "is_space CHR '' ''" by (simp add: is_space_def)
  have "dropWhile is_space ('' '' @ a) = a" using assms(3,4) sp by (cases a) simp_all
  moreover have "takeWhile (\<lambda>c. c \<noteq> CHR 0x0A) a = a" using assms(5) by (auto simp: newline_def)
  ultimately have "sscanf ('' '' @ a) [Ws, Rest 1024] = Inr [SStr a]"
    using assms(3,6) by (simp add: Let_def takeWhile_eq_all_conv [THEN iffD2])
  moreover have "sscanf (cmd @ '' '' @ a) (Str (Some 63) 64 # [Ws, Rest 1024]) =
      bindE (sscanf ('' '' @ a) [Ws, Rest 1024]) (\<lambda>vs. Inr (SStr cmd # vs))"
    using assms(1,2) sp by (intro sscanf_word) simp_all
  ultimately show ?thesis by (simp add: scan_request_def fmt_command_def BUFFER_SIZE_def)
qed

lemma scan_bare_command:
  assumes "is_word cmd" "length cmd \<le> 63"
  shows "scan_request cmd b = Inr (Some (cmd, b))"
proof -
  have "sscanf (cmd @ []) (Str (Some 63) 64 # [Ws, Rest 1024]) =
      bindE (sscanf [] [Ws, Rest 1024]) (\<lambda>vs. Inr (SStr cmd # vs))"
    using assms by (intro sscanf_word) simp_all
  then show ?thesis by (simp add: scan_request_def fmt_command_def BUFFER_SIZE_def)
qed

lemma word_newline_free: "is_word w \<Longrightarrow> newline \<notin> set w"
  using word_no_newline by (simp add: newline_def)

lemma alloc_args_shape:
  assumes "in_int nid" "in_int vid" "in_int sz"
  shows "hd (alloc_args nid vid sz) = CHR ''n''" "alloc_args nid vid sz \<noteq> []"
    "newline \<notin> set (alloc_args nid vid sz)" "length (alloc_args nid vid sz) < 1024"
proof -
  show "hd (alloc_args nid vid sz) = CHR ''n''" "alloc_args nid vid sz \<noteq> []"
    by (simp_all add: alloc_args_def)
  show "newline \<notin> set (alloc_args nid vid sz)"
    using word_newline_free [OF show_int_word] by (auto simp: alloc_args_def newline_def)
  show "length (alloc_args nid vid sz) < 1024"
    using show_int_length [OF assms(1)] show_int_length [OF assms(2)] show_int_length [OF assms(3)]
    by (simp add: alloc_args_def)
qed

text \<open>The argument of the commands that name a VM.\<close>

lemma scan_vid: "in_int v \<Longrightarrow> sscanf (''vid='' @ show_int v) fmt_vid = Inr [SInt v]"
  using sscanf_lits [of "''vid=''" "show_int v" "[Dec]"] sscanf_Dec_show [of v "[]" "[]"]
  by (simp add: fmt_vid_def del: sscanf.simps(2-6))

end
