(* ===== verification/ClientCorrect.thy ===== *)
theory ClientCorrect
  imports ResourceClient RmCorrect
begin

text \<open>
  Client and server together: a request of the client is scanned by the server into the words the
  client was given and served whatever an earlier request left behind, and an answer of the server
  fits the client's buffer.
\<close>

section \<open>From the client to the server\<close>

text \<open>What a shell passes as arguments: no NUL, no newline, and the first does not start with a
  white space.\<close>

definition args_ok :: "string list \<Rightarrow> bool" where
  "args_ok args \<longleftrightarrow>
     list_all (\<lambda>a. CHR 0x00 \<notin> set a \<and> newline \<notin> set a) args \<and>
     (case args of [] \<Rightarrow> True | a # _ \<Rightarrow> a \<noteq> [] \<and> \<not> is_space (hd a))"

lemma spaced_Cons: "args \<noteq> [] \<Longrightarrow> spaced (a # args) = a @ '' '' @ spaced args"
  by (cases args) simp_all

lemma spaced_chars: "c \<in> set (spaced args) \<Longrightarrow> c = CHR '' '' \<or> (\<exists>a \<in> set args. c \<in> set a)"
  by (induction args rule: spaced.induct) auto

lemma spaced_start: "args_ok args \<Longrightarrow> args \<noteq> [] \<Longrightarrow> spaced args \<noteq> [] \<and> \<not> is_space (hd (spaced args))"
  by (cases args rule: spaced.cases) (auto simp: args_ok_def)

lemma client_argc_known:
  assumes "client_argc cmd = Some n"
  shows "cmd \<in> {''get-mem-info'', ''get-mem-pool'', ''get-vms'', ''get-num-nodes'', ''get-node-info'',
    ''alloc-mem'', ''free-mem'', ''attach-mem'', ''detach-mem'', ''create-vm'', ''destroy-vm'',
    ''start-vm'', ''stop-vm''}"
proof (rule ccontr)
  assume "\<not> ?thesis"
  then have "client_argc cmd = None" by (simp add: client_argc_def)
  with assms show False by simp
qed

lemma client_actions:
  assumes "client_argc cmd = Some n"
  shows "is_word cmd \<and> length cmd \<le> 63 \<and> CHR 0x00 \<notin> set cmd"
  using client_argc_known [OF assms]
  by (elim insertE emptyE; hypsubst) (simp_all add: is_word_def is_space_def)

lemma client_unknown:
  assumes "client_argc cmd = None"
  shows "rpc_dispatch os js cmd args s = Inr (RText ''Invalid command'', s)"
proof -
  have "cmd \<notin> {''get-mem-info'', ''get-mem-pool'', ''get-vms'', ''get-num-nodes'', ''get-node-info'',
    ''alloc-mem'', ''free-mem'', ''attach-mem'', ''detach-mem'', ''create-vm'', ''destroy-vm'',
    ''start-vm'', ''stop-vm''}"
  proof
    assume "cmd \<in> {''get-mem-info'', ''get-mem-pool'', ''get-vms'', ''get-num-nodes'', ''get-node-info'',
      ''alloc-mem'', ''free-mem'', ''attach-mem'', ''detach-mem'', ''create-vm'', ''destroy-vm'',
      ''start-vm'', ''stop-vm''}"
    then have "client_argc cmd \<noteq> None"
      by (elim insertE emptyE; hypsubst) (simp_all add: client_argc_def)
    with assms show False by simp
  qed
  then show ?thesis by (simp add: rpc_dispatch_def)
qed

text \<open>A command the client sends alone is one the server gives no arguments to.\<close>

lemma bare_dispatch:
  assumes "client_argc cmd = Some 2"
  shows "rpc_dispatch os js cmd a s = rpc_dispatch os js cmd b s"
  using client_argc_known [OF assms(1)] assms
  by (elim insertE emptyE; hypsubst) (simp_all add: rpc_dispatch_def client_argc_def)

lemma client_command_Inr:
  assumes "client_command cmd args = Inr t"
  shows "client_argc cmd = Some (2 + length args) \<and> t = take 1023 (spaced (cmd # args))"
  using assms by (auto simp: client_command_def snprintf_def BUFFER_SIZE_def split: option.splits if_splits)

lemma client_scanned:
  assumes cmd: "client_command cmd args = Inr t" and len: "length (spaced (cmd # args)) < 1024" and ok: "args_ok args"
  shows "t = spaced (cmd # args) \<and> request_text (Some t) = Inr t \<and>
    scan_request t old = Inr (Some (cmd, if args = [] then old else Some (spaced args)))"
proof -
  note c = client_command_Inr [OF cmd]
  then have t: "t = spaced (cmd # args)" using len by simp
  have "client_argc cmd = Some (2 + length args)" using c by simp
  note w = client_actions [OF this]
  have chars: "CHR 0x00 \<notin> set (spaced args)" "newline \<notin> set (spaced args)"
    using ok spaced_chars [of _ args] by (auto simp: args_ok_def list_all_iff newline_def)
  have "CHR 0x00 \<notin> set t" using chars(1) w by (cases "args = []") (auto simp: t spaced_Cons)
  then have "request_text (Some t) = Inr t"
    using len by (auto simp: t request_text_def BUFFER_SIZE_def c_str_def takeWhile_eq_all_conv)
  moreover have "scan_request t old = Inr (Some (cmd, if args = [] then old else Some (spaced args)))"
  proof (cases "args = []")
    case True
    then show ?thesis using w by (simp add: t scan_bare_command)
  next
    case False
    then show ?thesis
      using w chars(2) spaced_start [OF ok False] len scan_command [of cmd "spaced args"]
      by (simp add: t spaced_Cons)
  qed
  ultimately show ?thesis using t by simp
qed

section \<open>From the server to the client\<close>

definition reply_fits :: "reply \<Rightarrow> bool" where
  "reply_fits r = (case r of RNull \<Rightarrow> True | RText t \<Rightarrow> length t < 1024 | RRaw bs \<Rightarrow> length bs \<le> 1024)"

lemma reply_fits_simps [simp]:
  "reply_fits RNull"
  "reply_fits (RText t) \<longleftrightarrow> length t < 1024"
  "reply_fits (RRaw bs) \<longleftrightarrow> length bs \<le> 1024"
  "reply_fits (rpc_text t)"
  by (simp_all add: reply_fits_def rpc_text_def snprintf_def BUFFER_SIZE_def)

definition replies :: "(reply \<times> 's) res \<Rightarrow> bool" where
  "replies m \<longleftrightarrow> ensures m (\<lambda>(r, s). reply_fits r)"

lemma c_str_length: "length (c_str bs) \<le> length bs" and c_str_nul: "CHR 0x00 \<notin> set (c_str bs)"
  by (auto simp: c_str_def length_takeWhile_le dest: set_takeWhileD)

lemma c_str_shorter: "CHR 0x00 \<in> set bs \<Longrightarrow> length (c_str bs) < length bs"
  unfolding c_str_def by (induction bs) auto

lemma reply_text_fits: "reply_fits r \<Longrightarrow> reply_text r = Inr t \<Longrightarrow> length t < 1024"
  using c_str_shorter by (cases r) (fastforce simp: reply_text_def read_recv_buffer_def split: if_splits)+

lemma send_guest_length:
  assumes "send_guest_cmd os v cmd st = Inr (Some bs, w)"
  shows "length bs \<le> 1024"
proof -
  from guest_answer [OF assms] obtain fd u where
    bs: "bs = (case fst (sys_recv os fd (nat BUFFER_SIZE) u) of None \<Rightarrow> [] | Some bs \<Rightarrow> bs)" by blast
  show ?thesis
    by (cases "sys_recv os fd (nat BUFFER_SIZE) u")
      (auto simp: bs BUFFER_SIZE_def split: option.split dest: sys_recv_length)
qed

lemma get_meminfo_fits: "guest_agent_get_meminfo os js v st = Inr (Some bs, w) \<Longrightarrow> length bs \<le> 1024"
  by (auto simp: guest_agent_get_meminfo_def bindE_eq_Inr dest: send_guest_length)

lemma dump_fits: "vm_mngr_dump_state BUFFER_SIZE m = Some t \<Longrightarrow> length t < 1024"
  using dump_state_text [of BUFFER_SIZE m] by (auto simp: BUFFER_SIZE_def)

lemma usage_fits: "length (memory_pool_get_usage BUFFER_SIZE p) < 1024"
  by (simp add: get_usage_text BUFFER_SIZE_def)

lemmas any_result = ensures_any [where m = "sscanf _ _"] ensures_any [where m = "rpc_malloc _ _"]
  ensures_any [where m = "vm_mngr_instance_alloc_mem _ _ _ _ _"]
  ensures_any [where m = "vm_mngr_instance_free_mem _ _ _"]
  ensures_any [where m = "vm_mngr_instance_create _ _ _"]
  ensures_any [where m = "qemu_agent_hotplug_memory _ _ _ _ _"]
  ensures_any [where m = "qemu_agent_hotunplug_memory _ _ _ _ _"]

lemma plain_replies:
  "replies (rpc_handle_get_mem_pool os s)"
  "replies (rpc_handle_get_num_nodes os s)"
  "replies (rpc_handle_get_node_info os args s)"
  "replies (rpc_handle_alloc_mem os args s)"
  "replies (rpc_handle_free_mem os args s)"
  "replies (rpc_handle_attach_mem os js args s)"
  "replies (rpc_handle_detach_mem os js args s)"
  "replies (rpc_handle_create_vm os args s)"
  "replies (rpc_vm_command os verb op args s)"
  by (auto simp: replies_def rpc_handle_get_mem_pool_def rpc_handle_get_num_nodes_def
      rpc_handle_get_node_info_def rpc_handle_alloc_mem_def rpc_handle_free_mem_def
      rpc_handle_attach_mem_def rpc_handle_detach_mem_def rpc_handle_create_vm_def rpc_vm_command_def
      memory_not_found_def usage_fits split: option.split
      intro!: any_result ensures_any [where m = "op _ _"])

lemma get_vms_replies: "replies (rpc_handle_get_vms os s)"
  by (auto simp: replies_def rpc_handle_get_vms_def Let_def split: prod.split option.split dest: dump_fits)

lemma get_mem_info_replies: "replies (rpc_handle_get_mem_info os js args s)"
  by (auto simp: replies_def rpc_handle_get_mem_info_def split: option.split
      intro!: any_result ensuresI [where m = "guest_agent_get_meminfo _ _ _ _"]
      dest: get_meminfo_fits)

lemmas handler_replies = plain_replies get_vms_replies get_mem_info_replies

lemma dispatch_replies: "replies (rpc_dispatch os js cmd args s)"
proof -
  have "replies (Inr (RText ''Invalid command'', s))" by (simp add: replies_def)
  moreover have "(\<And>a. replies (h a s)) \<Longrightarrow> replies (with_args args h s)" for h
    by (simp add: with_args_def replies_def split: option.split)
  ultimately show ?thesis
    unfolding rpc_dispatch_def rpc_handle_destroy_vm_def rpc_handle_start_vm_def rpc_handle_stop_vm_def
    by (intro if_split [where P = replies, THEN iffD2] conjI impI) (simp_all add: handler_replies)
qed

lemma serve_fits:
  assumes "serve os js buffer args s = Inr (t, args', s')"
  shows "length t < 1024"
proof -
  from assms consider "t = ''Invalid command''"
    | cmd a r where "rpc_dispatch os js cmd a s = Inr (r, s')" "reply_text r = Inr t"
    by (auto simp: serve_def bindE_eq_Inr split: option.splits prod.splits)
  then show ?thesis
  proof cases
    case 2
    with dispatch_replies [of os js cmd a s] have "reply_fits r" by (simp add: replies_def)
    with 2 show ?thesis by (simp add: reply_text_fits)
  qed simp
qed

end
