(* ===== verification/GuestMonitor.thy ===== *)
theory GuestMonitor
  imports VmManager PoolConfig
begin

text \<open>
  The monitor of \<open>src/guest_monitor.c\<close>: its configuration, the upload to a time series database,
  and the body of the monitor loop over the running VMs.

  \<^item> The file's global variables are the record \<open>monitor_state\<close>.  They are written at start, and
    \<open>g_time_now_s\<close> once per round.  An unset string is \<open>None\<close>; \<open>monitor_thread\<close> says
    whether the thread was created.
  \<^item> libcurl is the parameter \<open>curl_lib\<close>; the handle is either there or not, a header list is the
    list of its lines.
  \<^item> A handler of the walks over the VMs gets the index of the entry, as in \<open>VmManager\<close>.
\<close>

section \<open>State\<close>

record monitor_state =
  monitor_interval_in_second :: "32 word"
  enable_cloud_db :: bool
  influxdb_url :: "string option"
  influxdb_token :: "string option"
  use_proxy :: bool
  proxy_addr :: "string option"
  g_curl :: bool
  g_headers :: "string list"
  g_time_now_s :: "64 word"
  monitor_thread :: bool

definition initial_monitor :: monitor_state where
  "initial_monitor = \<lparr>monitor_interval_in_second = 1, enable_cloud_db = False, influxdb_url = None,
     influxdb_token = None, use_proxy = False, proxy_addr = None, g_curl = False, g_headers = [],
     g_time_now_s = 0, monitor_thread = False\<rparr>"

record 'w curl_lib =
  curl_easy_init :: "'w \<Rightarrow> bool \<times> 'w"
  curl_slist_append :: "string list \<Rightarrow> string \<Rightarrow> string list"
  curl_setopt_url :: "string option \<Rightarrow> 'w \<Rightarrow> 'w"
  curl_setopt_httpheader :: "string list \<Rightarrow> 'w \<Rightarrow> 'w"
  curl_setopt_proxy :: "string option \<Rightarrow> 'w \<Rightarrow> 'w"
  curl_setopt_postfields :: "string \<Rightarrow> 'w \<Rightarrow> 'w"
  curl_easy_perform :: "'w \<Rightarrow> bool \<times> 'w"
  curl_easy_cleanup :: "'w \<Rightarrow> 'w"
  curl_slist_free_all :: "string list \<Rightarrow> 'w \<Rightarrow> 'w"

section \<open>Configuration\<close>

definition config_true :: "string \<Rightarrow> bool" where
  "config_true v \<longleftrightarrow> v = ''true'' \<or> v = ''1''"

definition monitor_words :: "string \<Rightarrow> string list res" where
  "monitor_words line =
     bindE (sscanf line [Str None 32, Ws, Str None 256, Ws, Str None 256]) (\<lambda>vs.
     Inr (scanned_strings vs))"

definition monitor_setting :: "string \<Rightarrow> string \<Rightarrow> monitor_state \<Rightarrow> monitor_state res" where
  "monitor_setting key value1 gm =
     (if key = ''enable_clouddb'' then Inr (gm\<lparr>enable_cloud_db := config_true value1\<rparr>)
      else if key = ''influxdb_url'' then Inr (gm\<lparr>influxdb_url := Some value1\<rparr>)
      else if key = ''influxdb_token'' then Inr (gm\<lparr>influxdb_token := Some value1\<rparr>)
      else if key = ''use_proxy'' then Inr (gm\<lparr>use_proxy := config_true value1\<rparr>)
      else if key = ''proxy_addr'' then Inr (gm\<lparr>proxy_addr := Some value1\<rparr>)
      else if key = ''monitor_interval_second'' then
        bindE (atoi value1) (\<lambda>n. Inr (gm\<lparr>monitor_interval_in_second := word_of_int n\<rparr>))
      else Inr gm)"

definition monitor_line :: "string \<Rightarrow> monitor_state \<Rightarrow> monitor_state res" where
  "monitor_line line gm =
     (if is_section_line line then Inr gm
      else bindE (monitor_words line) (\<lambda>ws.
        case ws of key # value1 # others \<Rightarrow> monitor_setting key value1 gm | _ \<Rightarrow> Inr gm))"

function monitor_lines :: "string \<Rightarrow> monitor_state \<Rightarrow> monitor_state res" where
  "monitor_lines cfg gm =
     (case fgets 512 cfg of
        None \<Rightarrow> Inr gm
      | Some (line, rest) \<Rightarrow> bindE (monitor_line line gm) (monitor_lines rest))"
  by pat_completeness auto
termination
  by (relation "measure (\<lambda>(cfg, gm). length cfg)") (auto dest: fgets_shorter)

declare monitor_lines.simps [simp del]

definition guest_monitor_load_config ::
    "string option \<Rightarrow> monitor_state \<Rightarrow> (int \<times> monitor_state) res" where
  "guest_monitor_load_config config_file gm =
     (case config_file of
        None \<Rightarrow> Inr (-1, gm)
      | Some txt \<Rightarrow> bindE (monitor_lines txt gm) (\<lambda>gm. Inr (0, gm)))"

section \<open>The database client\<close>

text \<open>Printing an unset token through \<open>%s\<close> is undefined.\<close>

definition cloud_db_client_init ::
    "'w curl_lib \<Rightarrow> monitor_state \<Rightarrow> 'w \<Rightarrow> (int \<times> monitor_state \<times> 'w) res" where
  "cloud_db_client_init lib gm w =
     (let (ok, w) = curl_easy_init lib w; gm = gm\<lparr>g_curl := ok\<rparr> in
      if \<not> ok then Inr (-1, gm, w)
      else
        case influxdb_token gm of
          None \<Rightarrow> Inl BadPointer
        | Some token \<Rightarrow>
            let hs = curl_slist_append lib (g_headers gm) ''Content-Type: text/plain'';
                auth_header = fst (snprintf 512 (''Authorization: Token '' @ token));
                gm = gm\<lparr>g_headers := curl_slist_append lib hs auth_header\<rparr>;
                w = curl_setopt_url lib (influxdb_url gm) w;
                w = curl_setopt_httpheader lib (g_headers gm) w;
                w = (if use_proxy gm then curl_setopt_proxy lib (proxy_addr gm) w else w)
            in Inr (0, gm, w))"

text \<open>The freed strings and handles are not looked at again: the process is about to exit.\<close>

definition cloud_db_client_cleanup :: "'w curl_lib \<Rightarrow> monitor_state \<Rightarrow> 'w \<Rightarrow> 'w" where
  "cloud_db_client_cleanup lib gm w =
     (let w = (if g_headers gm \<noteq> [] then curl_slist_free_all lib (g_headers gm) w else w)
      in if g_curl gm then curl_easy_cleanup lib w else w)"

definition cloud_db_client_send :: "'w curl_lib \<Rightarrow> monitor_state \<Rightarrow> string \<Rightarrow> 'w \<Rightarrow> 'w" where
  "cloud_db_client_send lib gm data w =
     (if \<not> g_curl gm then w
      else snd (curl_easy_perform lib (curl_setopt_postfields lib data w)))"

section \<open>Uploads\<close>

definition INFLUXDB_DATA_LENGTH :: int where "INFLUXDB_DATA_LENGTH = 256"
definition MAX_BW_THRESHOLD_GB :: "64 word" where "MAX_BW_THRESHOLD_GB = 250"
definition MIN_BW_THRESHOLD_GB :: "64 word" where "MIN_BW_THRESHOLD_GB = 2"

text \<open>\<open>%lu\<close>, and \<open>%f\<close> with its six decimals; the sign of a NaN is not kept.\<close>

definition show_u64 :: "64 word \<Rightarrow> string" where
  "show_u64 x = show_nat (unat x)"

fun show_f :: "cdouble \<Rightarrow> string" where
  "show_f DNaN = ''nan''"
| "show_f (DInf s) = (if s then ''-inf'' else ''inf'')"
| "show_f (DFin q) =
     (let n = nat (round_half_even (\<bar>q\<bar> * 1000000)); frac = show_nat (n mod 1000000) in
      (if q < 0 then ''-'' else []) @ show_nat (n div 1000000) @ ''.'' @
      replicate (6 - length frac) CHR ''0'' @ frac)"

definition guest_memory_text :: "int \<Rightarrow> int \<Rightarrow> int \<Rightarrow> int \<Rightarrow> int \<Rightarrow> 64 word \<Rightarrow> string" where
  "guest_memory_text vm_id index mem_free mem_total mem_available now =
     ''guest_memory,vm_id='' @ show_int vm_id @ '',node='' @ show_int index @ '' memory_free='' @
     show_int mem_free @ '',memory_total='' @ show_int mem_total @ '',memory_available='' @
     show_int mem_available @ '' '' @ show_u64 now"

definition upload_meminfo ::
    "'j json_lib \<Rightarrow> 'w curl_lib \<Rightarrow> monitor_state \<Rightarrow> int \<Rightarrow> 'j option \<Rightarrow> 'w \<Rightarrow> 'w" where
  "upload_meminfo js lib gm vm_id meminfo w =
     (let field = (\<lambda>k. json_object_get_int js (json_object_object_get js meminfo k)) in
      cloud_db_client_send lib gm
        (fst (snprintf INFLUXDB_DATA_LENGTH
           (guest_memory_text vm_id (field ''index'') (field ''mem-free'') (field ''mem-total'')
              (field ''mem-available'') (g_time_now_s gm)))) w)"

text \<open>A text that does not parse has no members.\<close>

definition upload_vm_cp_to_cloud_db ::
    "'j json_lib \<Rightarrow> 'w curl_lib \<Rightarrow> monitor_state \<Rightarrow> int \<Rightarrow> string \<Rightarrow> 'w \<Rightarrow> 'w" where
  "upload_vm_cp_to_cloud_db js lib gm vm_id json_str w =
     (case json_tokener_parse js json_str of
        None \<Rightarrow> w
      | Some parsed \<Rightarrow>
          case json_object_object_get_ex js parsed ''return'' of
            None \<Rightarrow> w
          | Some ret \<Rightarrow>
              case json_object_object_get_ex js ret ''meminfo-list'' of
                None \<Rightarrow> w
              | Some infos \<Rightarrow>
                  fold (\<lambda>i. upload_meminfo js lib gm vm_id (json_object_array_get_idx js infos i))
                    [0..<json_object_array_length js infos] w)"

definition vm_bandwidth_text :: "vm_instance \<Rightarrow> 64 word \<Rightarrow> string" where
  "vm_bandwidth_text VM now =
     ''vm_bandwidth,vm_id='' @ show_int (VM_id VM) @ '' bandwidth_local='' @
     show_u64 (VM_mem_bw_local VM) @ '',bandwidth_remote='' @ show_u64 (VM_mem_bw_remote VM) @
     '' '' @ show_u64 now"

definition upload_vm_bw_to_cloud_db ::
    "'w curl_lib \<Rightarrow> monitor_state \<Rightarrow> vm_instance \<Rightarrow> 'w \<Rightarrow> 'w" where
  "upload_vm_bw_to_cloud_db lib gm VM w =
     (if MAX_BW_THRESHOLD_GB < MB_TO_GB (VM_mem_bw VM) then w
      else cloud_db_client_send lib gm
             (fst (snprintf INFLUXDB_DATA_LENGTH (vm_bandwidth_text VM (g_time_now_s gm)))) w)"

definition vm_latency_text :: "vm_instance \<Rightarrow> 64 word \<Rightarrow> string" where
  "vm_latency_text VM now =
     (let latency_valid = (\<not> (MAX_BW_THRESHOLD_GB < MB_TO_GB (VM_mem_bw VM) \<or>
                              MB_TO_GB (VM_mem_bw VM) < MIN_BW_THRESHOLD_GB)) in
      ''vm_latency,vm_id='' @ show_int (VM_id VM) @ '' l3_miss_latency='' @
      show_f (if latency_valid then VM_cur_metrics VM LOAD_L3_MISS_LAT else DFin 0) @
      '' '' @ show_u64 now)"

definition upload_vm_latency_to_cloud_db ::
    "'w curl_lib \<Rightarrow> monitor_state \<Rightarrow> vm_instance \<Rightarrow> 'w \<Rightarrow> 'w" where
  "upload_vm_latency_to_cloud_db lib gm VM w =
     cloud_db_client_send lib gm
       (fst (snprintf INFLUXDB_DATA_LENGTH (vm_latency_text VM (g_time_now_s gm)))) w"

section \<open>The rounds over the running VMs\<close>

text \<open>The memory and per-core figures of the PCM library; nothing is printed.\<close>

definition get_sys_mem_bw_usage :: "'w pcm_lib \<Rightarrow> 'w \<Rightarrow> core_metrics \<times> 'w" where
  "get_sys_mem_bw_usage pcm w = perf_agent_get_metrics pcm False w"

definition accumulate_bw_per_core :: "core_metrics \<Rightarrow> int \<Rightarrow> vm_instance \<Rightarrow> vm_instance res" where
  "accumulate_bw_per_core cm core_id VM =
     bindE (arr_get MAX_CORES (core_local_bw cm) core_id) (\<lambda>l.
     bindE (arr_get MAX_CORES (core_remote_bw cm) core_id) (\<lambda>r.
     Inr (VM\<lparr>VM_mem_bw_local := VM_mem_bw_local VM + l,
             VM_mem_bw_remote := VM_mem_bw_remote VM + r\<rparr>)))"

text \<open>The division of a \<open>uint64_t\<close> by the interval, a \<open>uint32_t\<close>.\<close>

definition div_interval :: "64 word \<Rightarrow> 32 word \<Rightarrow> 64 word res" where
  "div_interval x interval = (if interval = 0 then Inl DivByZero else Inr (x div ucast interval))"

definition vm_mem_bw :: "monitor_state \<Rightarrow> core_metrics \<Rightarrow> vm_instance \<Rightarrow> vm_instance res" where
  "vm_mem_bw gm cm VM =
     bindE (vm_mngr_for_each_core (VM_core_set VM) (accumulate_bw_per_core cm)
              (VM\<lparr>VM_mem_bw_local := 0, VM_mem_bw_remote := 0\<rparr>)) (\<lambda>VM.
     bindE (div_interval (VM_mem_bw_local VM) (monitor_interval_in_second gm)) (\<lambda>l.
     bindE (div_interval (VM_mem_bw_remote VM) (monitor_interval_in_second gm)) (\<lambda>r.
     Inr (VM\<lparr>VM_mem_bw_local := l, VM_mem_bw_remote := r, VM_mem_bw := l + r\<rparr>))))"

definition get_vm_mem_bw ::
    "'w curl_lib \<Rightarrow> monitor_state \<Rightarrow> core_metrics \<Rightarrow> nat \<Rightarrow> 'w rm_state \<Rightarrow> 'w rm_state res" where
  "get_vm_mem_bw lib gm cm k s =
     bindE (vm_mem_bw gm cm (vm_at s k)) (\<lambda>VM.
     let s = put_vm k VM s in
     Inr (if enable_cloud_db gm
          then s\<lparr>rm_world := upload_vm_bw_to_cloud_db lib gm VM (rm_world s)\<rparr> else s))"

definition get_vm_mem_latency ::
    "'w curl_lib \<Rightarrow> monitor_state \<Rightarrow> nat \<Rightarrow> 'w rm_state \<Rightarrow> 'w rm_state res" where
  "get_vm_mem_latency lib gm k s =
     Inr (if enable_cloud_db gm
          then s\<lparr>rm_world := upload_vm_latency_to_cloud_db lib gm (vm_at s k) (rm_world s)\<rparr> else s)"

text \<open>Only the upload looks at the answer, which is a receive buffer read as a string.\<close>

definition get_vm_mem_cp ::
    "'w os \<Rightarrow> 'j json_lib \<Rightarrow> 'w curl_lib \<Rightarrow> monitor_state \<Rightarrow> nat \<Rightarrow> 'w rm_state \<Rightarrow> 'w rm_state res" where
  "get_vm_mem_cp os js lib gm k s =
     (let vm_id = VM_id (vm_at s k) in
      bindE (guest_agent_get_meminfo os js vm_id (rm_agents s, rm_world s)) (\<lambda>(response, w).
      let s = s\<lparr>rm_world := w\<rparr> in
      case response of
        None \<Rightarrow> Inr s
      | Some bs \<Rightarrow>
          if enable_cloud_db gm then
            bindE (read_recv_buffer bs) (\<lambda>txt.
            Inr (s\<lparr>rm_world := upload_vm_cp_to_cloud_db js lib gm vm_id txt (rm_world s)\<rparr>))
          else Inr s))"

text \<open>The body of the monitor's loop.\<close>

definition monitor_round ::
    "'w os \<Rightarrow> 'j json_lib \<Rightarrow> 'w pcm_lib \<Rightarrow> 'w curl_lib \<Rightarrow> monitor_state \<times> 'w rm_state \<Rightarrow>
       (monitor_state \<times> 'w rm_state) res" where
  "monitor_round os js pcm lib st =
     (let (gm, s) = st;
          (now, w) = os_clock os (rm_world s);
          gm = gm\<lparr>g_time_now_s := now\<rparr>;
          (cm, w) = get_sys_mem_bw_usage pcm w in
      bindE (vm_mngr_for_each_vm_running (get_vm_mem_cp os js lib gm) (s\<lparr>rm_world := w\<rparr>)) (\<lambda>s.
      bindE (vm_mngr_for_each_vm_running (get_vm_mem_bw lib gm cm) s) (\<lambda>s.
      bindE (vm_mngr_update_perf_counters os s) (\<lambda>s.
      bindE (vm_mngr_update_metrics s) (\<lambda>s.
      bindE (vm_mngr_for_each_vm_running (get_vm_mem_latency lib gm) s) (\<lambda>s.
      Inr (gm, s\<lparr>rm_world := os_usleep os (unat (SECOND_TO_US (monitor_interval_in_second gm)))
                              (rm_world s)\<rparr>)))))))"

text \<open>The loop, left after \<open>n\<close> rounds: \<open>running\<close> is cleared by the shutdown.\<close>

definition monitor_rounds ::
    "'w os \<Rightarrow> 'j json_lib \<Rightarrow> 'w pcm_lib \<Rightarrow> 'w curl_lib \<Rightarrow> nat \<Rightarrow> monitor_state \<times> 'w rm_state \<Rightarrow>
       (monitor_state \<times> 'w rm_state) res" where
  "monitor_rounds os js pcm lib n = foldE (\<lambda>_. monitor_round os js pcm lib) [0..<n]"

section \<open>Start and stop\<close>

definition guest_monitor_server_start ::
    "'w os \<Rightarrow> 'w pcm_lib \<Rightarrow> 'w curl_lib \<Rightarrow> string option \<Rightarrow> monitor_state \<Rightarrow> 'w \<Rightarrow>
       (int \<times> monitor_state \<times> 'w) res" where
  "guest_monitor_server_start os pcm lib config_file gm w =
     bindE (guest_monitor_load_config config_file gm) (\<lambda>(ret, gm).
     if ret \<noteq> 0 then Inr (-1, gm, w)
     else
       bindE (if enable_cloud_db gm then cloud_db_client_init lib gm w else Inr (0, gm, w))
         (\<lambda>(ret, gm, w).
       if ret \<noteq> 0 then Inr (-1, gm, w)
       else
         let (ret, w) = perf_agent_init pcm w in
         if ret \<noteq> 0 then Inr (-1, gm, w)
         else
           let (ret, w) = os_pthread_create os w in
           if ret \<noteq> 0 then Inr (-1, gm, w) else Inr (0, gm\<lparr>monitor_thread := True\<rparr>, w)))"

text \<open>
  Joining a thread that was never created is undefined.  The join of one that was returns when the
  thread has left its loop, which looks at \<open>running\<close> after every round; here it is a call that returns.
\<close>

definition guest_monitor_server_stop ::
    "'w os \<Rightarrow> 'w pcm_lib \<Rightarrow> 'w curl_lib \<Rightarrow> monitor_state \<Rightarrow> 'w \<Rightarrow> 'w res" where
  "guest_monitor_server_stop os pcm lib gm w =
     bindE (guardE (monitor_thread gm) BadPointer) (\<lambda>_.
     let w = perf_agent_cleanup pcm (os_pthread_join os w)
     in Inr (if enable_cloud_db gm then cloud_db_client_cleanup lib gm w else w))"

end
