(* ===== verification/MonitorConfig.thy ===== *)
theory MonitorConfig
  imports GuestMonitor
begin

text \<open>
  The configuration file, which the pool and the monitor each read for themselves: a written file
  with the lines of both is read back by both, each skipping the other's lines.
\<close>

section \<open>Lines of the file\<close>

definition render_setting :: "string \<times> string \<Rightarrow> string" where
  "render_setting kv = fst kv @ '' '' @ snd kv @ [newline]"

definition show_bool :: "bool \<Rightarrow> string" where
  "show_bool b = (if b then ''true'' else ''false'')"

text \<open>The settings of the monitor as it reads them; the interval is a number of seconds.\<close>

record monitor_settings =
  set_interval :: int
  set_clouddb :: bool
  set_url :: string
  set_token :: string
  set_use_proxy :: bool
  set_proxy :: string

definition setting_lines :: "monitor_settings \<Rightarrow> (string \<times> string) list" where
  "setting_lines c =
     [(''monitor_interval_second'', show_int (set_interval c)),
      (''enable_clouddb'', show_bool (set_clouddb c)),
      (''influxdb_url'', set_url c), (''influxdb_token'', set_token c),
      (''use_proxy'', show_bool (set_use_proxy c)), (''proxy_addr'', set_proxy c)]"

definition settings_ok :: "monitor_settings \<Rightarrow> bool" where
  "settings_ok c \<longleftrightarrow> in_int (set_interval c) \<and>
     list_all (\<lambda>w. is_word w \<and> length w < 128) [set_url c, set_token c, set_proxy c]"

definition apply_settings :: "monitor_settings \<Rightarrow> monitor_state \<Rightarrow> monitor_state" where
  "apply_settings c gm = gm\<lparr>monitor_interval_in_second := word_of_int (set_interval c),
     enable_cloud_db := set_clouddb c, influxdb_url := Some (set_url c),
     influxdb_token := Some (set_token c), use_proxy := set_use_proxy c,
     proxy_addr := Some (set_proxy c)\<rparr>"

text \<open>The file: the segment size, the settings of the monitor, the devices.\<close>

definition config_file_text :: "int \<Rightarrow> monitor_settings \<Rightarrow> dev_entry list \<Rightarrow> string" where
  "config_file_text seg c es =
     render_segment_size seg @ concat (map render_setting (setting_lines c)) @ concat (map render_dev es)"

lemma is_word_show_bool [simp]: "is_word (show_bool b)"
  by (simp add: show_bool_def is_word_def is_space_def)

lemma config_true_show_bool [simp]: "config_true (show_bool b) = b"
  by (simp add: config_true_def show_bool_def)

text \<open>A setting of the file: a key no section line starts with, and words that fit both readers.\<close>

definition line_ok :: "string \<times> string \<Rightarrow> bool" where
  "line_ok kv \<longleftrightarrow> is_word (fst kv) \<and> length (fst kv) < 32 \<and> hd (fst kv) \<notin> {CHR ''#'', CHR ''[''} \<and>
     is_word (snd kv) \<and> length (snd kv) < 128"

lemma monitor_keys:
  "is_word ''monitor_interval_second''" "is_word ''enable_clouddb''" "is_word ''influxdb_url''"
  "is_word ''influxdb_token''" "is_word ''use_proxy''" "is_word ''proxy_addr''"
  by (simp_all add: is_word_def is_space_def)

lemma setting_lines_ok: "settings_ok c \<Longrightarrow> list_all line_ok (setting_lines c)"
  using show_int_length [of "set_interval c"] monitor_keys is_word_show_bool
  by (simp add: setting_lines_def settings_ok_def line_ok_def) (simp add: show_bool_def)

lemma setting_line_fgets:
  assumes "line_ok kv"
  shows "fgets 512 (render_setting kv @ r) = Some (render_setting kv, r)"
proof -
  have "list_all (\<lambda>c. c \<noteq> newline) (fst kv @ '' '' @ snd kv)"
    using assms word_no_nl by (simp add: line_ok_def) (simp add: newline_def)
  moreover have "length (fst kv @ '' '' @ snd kv) \<le> 510" using assms by (simp add: line_ok_def)
  ultimately show ?thesis using word_line_fgets [of "fst kv @ '' '' @ snd kv" r] by (simp add: render_setting_def)
qed

lemma setting_not_section: "line_ok kv \<Longrightarrow> \<not> is_section_line (render_setting kv)"
  by (cases "fst kv") (auto simp: line_ok_def is_section_line_def starts_with_def render_setting_def is_word_def)

section \<open>The monitor's reading\<close>

lemma monitor_words_2:
  assumes "is_word k" "length k < 32" "is_word v" "length v < 256"
  shows "monitor_words (k @ '' '' @ v @ [newline]) = Inr [k, v]"
  using assms
  by (simp add: monitor_words_def sscanf_word newline_def sscanf_Str_Nil del: sscanf.simps(5))

lemma monitor_words_3:
  assumes "is_word k" "length k < 32" "is_word v1" "length v1 < 256" "is_word v2" "length v2 < 256"
  shows "monitor_words (k @ '' '' @ v1 @ '' '' @ v2 @ '' '' @ r) = Inr [k, v1, v2]"
  using assms
  by (simp add: monitor_words_def sscanf_word del: sscanf.simps(5))

lemma monitor_lines_step:
  assumes "fgets 512 (line @ r) = Some (line, r)" "monitor_line line gm = Inr gm'"
  shows "monitor_lines (line @ r) gm = monitor_lines r gm'"
  using assms by (simp add: monitor_lines.simps [of "line @ r"])

lemma monitor_line_setting:
  assumes "line_ok kv"
  shows "monitor_line (render_setting kv) gm = monitor_setting (fst kv) (snd kv) gm"
  using assms setting_not_section [OF assms] monitor_words_2 [of "fst kv" "snd kv"]
  by (simp add: monitor_line_def render_setting_def line_ok_def)

lemma monitor_lines_settings:
  assumes "list_all line_ok kvs"
  shows "monitor_lines (concat (map render_setting kvs) @ r) gm =
           bindE (foldE (\<lambda>(k, v). monitor_setting k v) kvs gm) (monitor_lines r)"
  using assms
proof (induction kvs arbitrary: gm)
  case (Cons kv kvs)
  then have kv: "line_ok kv" by simp
  let ?r = "concat (map render_setting kvs) @ r"
  have "monitor_lines (render_setting kv @ ?r) gm = bindE (monitor_setting (fst kv) (snd kv) gm) (monitor_lines ?r)"
    using setting_line_fgets [OF kv, of ?r] monitor_line_setting [OF kv]
    by (simp add: monitor_lines.simps [of "render_setting kv @ ?r"])
  moreover have "monitor_lines ?r = (\<lambda>gm. bindE (foldE (\<lambda>(k, v). monitor_setting k v) kvs gm) (monitor_lines r))"
    using Cons by (simp add: fun_eq_iff)
  ultimately show ?case by (cases kv; cases "monitor_setting (fst kv) (snd kv) gm") simp_all
qed simp

lemma settings_applied:
  assumes "in_int (set_interval c)"
  shows "foldE (\<lambda>(k, v). monitor_setting k v) (setting_lines c) gm = Inr (apply_settings c gm)"
  using atoi_show [OF assms]
  by (simp add: setting_lines_def monitor_setting_def apply_settings_def)

lemma monitor_skips_segment_size:
  assumes "in_int seg"
  shows "monitor_lines (render_segment_size seg @ r) gm = monitor_lines r gm"
proof -
  have ok: "line_ok (''segment_size_mb'', show_int seg)"
    using show_int_length [OF assms] is_word_lits(1) by (simp add: line_ok_def)
  have eq: "render_segment_size seg = render_setting (''segment_size_mb'', show_int seg)"
    by (simp add: render_segment_size_def render_setting_def)
  show ?thesis unfolding eq
    using monitor_lines_step [OF setting_line_fgets [OF ok], of gm gm r] monitor_line_setting [OF ok, of gm]
    by (simp add: monitor_setting_def)
qed

lemma monitor_skips_dev:
  assumes "entry_ok e"
  shows "monitor_lines (render_dev e @ r) gm = monitor_lines r gm"
proof -
  obtain path sz tier dax where e: "e = (path, sz, tier, dax)" by (cases e)
  with assms have path: "is_word path" "length path < 64" and int: "in_int sz"
    by (auto simp: entry_ok_def intro: in_intI)
  have "monitor_words (''dev'' @ '' '' @ (''path='' @ path) @ '' '' @ (''size_mb='' @ show_int sz) @ '' '' @
          (''tier_id='' @ show_int tier @ '' dax_id='' @ show_int dax @ [newline]))
          = Inr [''dev'', ''path='' @ path, ''size_mb='' @ show_int sz]"
    using path show_int_length [OF int]
    by (intro monitor_words_3 is_word_append) (simp_all add: is_word_lits)
  then have words: "monitor_words (render_dev e) = Inr [''dev'', ''path='' @ path, ''size_mb='' @ show_int sz]"
    by (simp add: render_dev_def e)
  have "\<not> is_section_line (render_dev e)" using not_section_line(2) by (simp add: render_dev_def e)
  with words have "monitor_line (render_dev e) gm = Inr gm" by (simp add: monitor_line_def monitor_setting_def)
  with monitor_lines_step [OF dev_line_fgets [OF assms]] show ?thesis by simp
qed

lemma monitor_skips_devs:
  "list_all entry_ok es \<Longrightarrow> monitor_lines (concat (map render_dev es)) gm = Inr gm"
proof (induction es)
  case Nil
  show ?case by (simp add: monitor_lines.simps fgets_def)
qed (simp add: monitor_skips_dev)

lemma monitor_reads_config:
  assumes "0 < seg" "seg \<le> INT_MAX" "settings_ok c" "list_all entry_ok es"
  shows "guest_monitor_load_config (Some (config_file_text seg c es)) gm = Inr (0, apply_settings c gm)"
proof -
  have seg: "in_int seg" and int: "in_int (set_interval c)"
    using assms(1-3) by (auto simp: settings_ok_def intro: in_intI)
  from monitor_lines_settings [OF setting_lines_ok [OF assms(3)]] settings_applied [OF int]
  show ?thesis
    by (simp add: guest_monitor_load_config_def config_file_text_def monitor_skips_segment_size [OF seg]
        monitor_skips_devs [OF assms(4)])
qed

section \<open>The pool's reading\<close>

lemma pool_skips_setting:
  assumes "line_ok kv" "fst kv \<notin> {''segment_size_mb'', ''dev''}"
  shows "load_lines (render_setting kv @ r) p = load_lines r p"
proof -
  have "load_line (render_setting kv) p = Inr (True, p)"
    using assms setting_not_section [OF assms(1)] config_words_2 [of "fst kv" "snd kv"]
    by (simp add: load_line_def render_setting_def line_ok_def)
  from load_lines_step [OF setting_line_fgets [OF assms(1)] this] show ?thesis .
qed

lemma pool_skips_settings:
  "list_all line_ok kvs \<Longrightarrow> list_all (\<lambda>kv. fst kv \<notin> {''segment_size_mb'', ''dev''}) kvs \<Longrightarrow>
     load_lines (concat (map render_setting kvs) @ r) p = load_lines r p"
  by (induction kvs) (simp_all add: pool_skips_setting)

lemma pool_reads_config:
  assumes "0 < seg" "seg \<le> INT_MAX" "settings_ok c" "list_all entry_ok es" "int (length es) \<le> MAX_DEVICES"
  shows "memory_pool_init (Some (config_file_text seg c es)) empty_pool =
           memory_pool_init (Some (config_text seg es)) empty_pool"
proof -
  have "list_all (\<lambda>kv. fst kv \<notin> {''segment_size_mb'', ''dev''}) (setting_lines c)" by (simp add: setting_lines_def)
  note skip = pool_skips_settings [OF setting_lines_ok [OF assms(3)] this]
  have "in_int seg" using assms(1,2) by (intro in_intI) auto
  note line = load_lines_step [OF segment_size_fgets [OF this] load_render_segment_size [OF assms(1,2)]]
  have "load_lines (config_file_text seg c es) p = load_lines (config_text seg es) p" for p
    using assms(1,2) by (simp add: config_file_text_def config_text_def line skip)
  then show ?thesis by (simp add: memory_pool_init_def init_memory_resource_def memory_pool_load_config_def)
qed

text \<open>
  The two readers disagree on how long a word may be.  A value of 128 to 255 characters is a
  setting for the monitor and an overflow of a stack buffer for the pool.
\<close>

lemma long_setting_overflows:
  assumes "is_word k" "length k < 32" "hd k \<notin> {CHR ''#'', CHR ''[''}" "is_word v" "128 \<le> length v" "length v < 256"
  shows "monitor_line (render_setting (k, v)) gm = monitor_setting k v gm"
    and "load_line (render_setting (k, v)) p = Inl OutOfBounds"
proof -
  have sec: "\<not> is_section_line (render_setting (k, v))"
    using assms(1,3) by (cases k) (auto simp: is_section_line_def starts_with_def render_setting_def is_word_def)
  from monitor_words_2 [OF assms(1,2,4,6)] sec
  show "monitor_line (render_setting (k, v)) gm = monitor_setting k v gm"
    by (simp add: monitor_line_def render_setting_def)
  have "scan_token None (v @ [newline]) = v"
    using scan_token_word [OF assms(4), of "[newline]" None] by (simp add: newline_def)
  then have "sscanf ('' '' @ v @ [newline]) (Ws # Str None 128 # fs) = Inl OutOfBounds" for fs
    using assms(4,5) by (auto simp: Let_def)
  moreover have "sscanf (k @ '' '' @ v @ [newline]) (Str None 32 # fs) =
      bindE (sscanf ('' '' @ v @ [newline]) fs) (\<lambda>vs. Inr (SStr k # vs))" for fs
    using assms(1,2) by (intro sscanf_word) simp_all
  ultimately have "config_words (k @ '' '' @ v @ [newline]) = Inl OutOfBounds"
    by (simp add: config_words_def)
  with sec show "load_line (render_setting (k, v)) p = Inl OutOfBounds"
    by (simp add: load_line_def render_setting_def)
qed

end
