(* ===== verification/MonitorCorrect.thy ===== *)
theory MonitorCorrect
  imports GuestMonitor VmMonitor
begin

text \<open>
  Correctness of the monitor: what the bandwidth figures are, what the texts sent to the database
  look like, which hypotheses let a round run without a fault, and that a round keeps the
  invariant of the process.
\<close>

section \<open>Walks over the running VMs\<close>

lemma table_walk_total:
  assumes "P s" and "\<And>i t. i < nat MAX_NUM_VM \<Longrightarrow> P t \<Longrightarrow> \<exists>t'. f i t = Inr t' \<and> P t'"
  shows "\<exists>s'. foldE f [0..<nat MAX_NUM_VM] s = Inr s' \<and> P s'"
proof (rule foldE_total [where P = "\<lambda>_. P"])
  fix pre i rest t
  assume split: "[0..<nat MAX_NUM_VM] = pre @ i # rest" and "P t"
  then have "i < nat MAX_NUM_VM" by (metis atLeastLessThan_iff in_set_conv_decomp set_upt)
  with assms(2) \<open>P t\<close> show "\<exists>t'. f i t = Inr t' \<and> P t'" by blast
qed (rule assms(1))

text \<open>The walk up to the entry \<open>k\<close>; where a walk stops with a fault.\<close>

definition running_upto :: "(nat \<Rightarrow> 'w rm_state \<Rightarrow> 'w rm_state res) \<Rightarrow> nat \<Rightarrow> 'w rm_state \<Rightarrow> 'w rm_state res" where
  "running_upto h k =
     foldE (\<lambda>i s. if \<not> VM_initialized (vm_at s i) \<or> \<not> VM_running (vm_at s i) then Inr s else h i s) [0..<k]"

lemma running_walk_fault:
  assumes "vm_mngr_for_each_vm_running h s = Inl e"
  shows "\<exists>k t. k < nat MAX_NUM_VM \<and> running_upto h k s = Inr t \<and> VM_running (vm_at t k) \<and> h k t = Inl e"
proof -
  let ?f = "\<lambda>i s. if \<not> VM_initialized (vm_at s i) \<or> \<not> VM_running (vm_at s i) then Inr s else h i s"
  from assms have "foldE ?f [0..<nat MAX_NUM_VM] s = Inl e"
    by (simp add: vm_mngr_for_each_vm_running_def split: if_splits)
  from foldE_Inl [OF this] obtain pre k post t where
    f: "[0..<nat MAX_NUM_VM] = pre @ k # post" "foldE ?f pre s = Inr t" "?f k t = Inl e" by blast
  let ?n = "length pre"
  from arg_cong [OF f(1), of length] have n: "?n < nat MAX_NUM_VM" by simp
  from arg_cong [OF f(1), of "\<lambda>xs. xs ! ?n"] n have "k = ?n" by (simp add: nth_append)
  moreover from arg_cong [OF f(1), of "take ?n"] n have "pre = [0..<?n]" by (simp add: take_upt)
  ultimately have "k < nat MAX_NUM_VM" "pre = [0..<k]" using n by simp_all
  then show ?thesis using f(2,3) by (auto simp: running_upto_def split: if_splits)
qed

lemma running_upto_inv:
  assumes "running_upto h k s = Inr s'" "P s"
    and "\<And>i t t'. P t \<Longrightarrow> h i t = Inr t' \<Longrightarrow> P t'"
  shows "P s'"
  using assms(1) unfolding running_upto_def by (rule foldE_inv [where P = P]) (use assms(2,3) in \<open>auto split: if_splits\<close>)

lemma running_walk_yields:
  assumes "P s"
    and "\<And>i t. i < nat MAX_NUM_VM \<Longrightarrow> P t \<Longrightarrow> VM_initialized (vm_at t i) \<Longrightarrow> VM_running (vm_at t i) \<Longrightarrow>
           yields E (h i t) P"
  shows "yields E (vm_mngr_for_each_vm_running h s) P"
  using assms by (auto simp: vm_mngr_for_each_vm_running_def intro!: yields_foldE)

lemma running_walk_inv:
  assumes "vm_mngr_for_each_vm_running h s = Inr s'" "P s"
    and "\<And>i t t'. i < nat MAX_NUM_VM \<Longrightarrow> P t \<Longrightarrow> VM_initialized (vm_at t i) \<Longrightarrow> VM_running (vm_at t i) \<Longrightarrow>
           h i t = Inr t' \<Longrightarrow> P t'"
  shows "P s'"
proof (cases "mngr_count (rm_vms s) = 0")
  case True
  with assms(1,2) show ?thesis by (simp add: vm_mngr_for_each_vm_running_def)
next
  case False
  with assms(1) have "foldE (\<lambda>i s. if \<not> VM_initialized (vm_at s i) \<or> \<not> VM_running (vm_at s i) then Inr s
      else h i s) [0..<nat MAX_NUM_VM] s = Inr s'"
    by (simp add: vm_mngr_for_each_vm_running_def)
  then show ?thesis
    by (rule foldE_inv [where P = P]) (use assms(2,3) in \<open>auto split: if_splits\<close>)
qed

section \<open>Bandwidth\<close>

lemma perf_frame_bw [simp]:
  "perf_frame VM (VM'\<lparr>VM_mem_bw_local := l\<rparr>) = perf_frame VM VM'"
  "perf_frame VM (VM'\<lparr>VM_mem_bw_remote := l\<rparr>) = perf_frame VM VM'"
  "perf_frame VM (VM'\<lparr>VM_mem_bw := l\<rparr>) = perf_frame VM VM'"
  by (simp_all add: perf_frame_def)

definition measured_core :: "int \<Rightarrow> bool" where
  "measured_core c \<longleftrightarrow> 0 \<le> c \<and> c < MAX_CORES"

definition bw_sum :: "64 word arr \<Rightarrow> int list \<Rightarrow> 64 word" where
  "bw_sum bw ids = sum_list (map bw ids)"

lemma accumulate_cores:
  assumes "\<forall>c \<in> set ids. measured_core c"
  shows "foldE (accumulate_bw_per_core cm) ids VM =
           Inr (VM\<lparr>VM_mem_bw_local := VM_mem_bw_local VM + bw_sum (core_local_bw cm) ids,
                   VM_mem_bw_remote := VM_mem_bw_remote VM + bw_sum (core_remote_bw cm) ids\<rparr>)"
  using assms
proof (induction ids arbitrary: VM)
  case Nil
  show ?case by (simp add: bw_sum_def)
next
  case (Cons c ids)
  then show ?case by (simp add: accumulate_bw_per_core_def measured_core_def bw_sum_def add.assoc)
qed

lemma accumulate_stray:
  assumes "\<not> (\<forall>c \<in> set ids. measured_core c)"
  shows "foldE (accumulate_bw_per_core cm) ids VM = Inl OutOfBounds"
  using assms
proof (induction ids arbitrary: VM)
  case (Cons c ids)
  show ?case
  proof (cases "measured_core c")
    case True
    with Cons.prems have "\<not> (\<forall>c \<in> set ids. measured_core c)" by simp
    with Cons.IH True show ?thesis by (simp add: accumulate_bw_per_core_def measured_core_def)
  next
    case False
    then have "arr_get MAX_CORES (core_local_bw cm) c = Inl OutOfBounds"
      by (auto simp: measured_core_def arr_get_def)
    then show ?thesis by (simp add: accumulate_bw_per_core_def)
  qed
qed simp

text \<open>The figures of a VM, and what becomes of it in every case.\<close>

definition bw_figures :: "32 word \<Rightarrow> core_metrics \<Rightarrow> int list \<Rightarrow> vm_instance \<Rightarrow> vm_instance" where
  "bw_figures interval cm ids VM =
     (let l = bw_sum (core_local_bw cm) ids div ucast interval;
          r = bw_sum (core_remote_bw cm) ids div ucast interval
      in VM\<lparr>VM_mem_bw_local := l, VM_mem_bw_remote := r, VM_mem_bw := l + r\<rparr>)"

lemma vm_mem_bw_cases:
  assumes "core_ids (VM_core_set VM) = Inr ids"
  shows "vm_mem_bw gm cm VM =
           (if \<not> (\<forall>c \<in> set ids. measured_core c) then Inl OutOfBounds
            else if monitor_interval_in_second gm = 0 then Inl DivByZero
            else Inr (bw_figures (monitor_interval_in_second gm) cm ids VM))"
proof (cases "\<forall>c \<in> set ids. measured_core c")
  case False
  from accumulate_stray [OF this] False assms show ?thesis
    by (simp add: vm_mem_bw_def for_each_core_ids)
next
  case True
  from accumulate_cores [OF this] True assms show ?thesis
    by (simp add: vm_mem_bw_def for_each_core_ids div_interval_def bw_figures_def Let_def)
qed

lemma vm_mem_bw_frame:
  assumes "vm_mem_bw gm cm VM = Inr V"
  shows "perf_frame VM V \<and> VM_perf_event_fds V = VM_perf_event_fds VM"
proof -
  from assms obtain U where
    "vm_mngr_for_each_core (VM_core_set VM) (accumulate_bw_per_core cm)
       (VM\<lparr>VM_mem_bw_local := 0, VM_mem_bw_remote := 0\<rparr>) = Inr U"
    by (auto simp: vm_mem_bw_def bindE_eq_Inr)
  from for_each_core_Inr [OF this] obtain ids where "core_ids (VM_core_set VM) = Inr ids" by blast
  from vm_mem_bw_cases [OF this, of gm cm] assms show ?thesis
    by (auto simp: bw_figures_def Let_def split: if_splits)
qed

section \<open>Uploads\<close>

text \<open>No text is cut by its buffer of 256 bytes.\<close>

lemma show_u64_length: "length (show_u64 x) \<le> 20"
proof -
  have "unat x < 10 ^ 20" using unsigned_less [of x, where 'a = nat] by simp
  from show_nat_length [OF this] show ?thesis by (simp add: show_u64_def)
qed

lemma snprintf_whole: "int (length txt) < n \<Longrightarrow> fst (snprintf n txt) = txt"
  by (simp add: snprintf_def)

lemma vm_bandwidth_text_length:
  assumes "in_int (VM_id VM)"
  shows "int (length (vm_bandwidth_text VM now)) < INFLUXDB_DATA_LENGTH"
  using show_int_length [OF assms] show_u64_length [of "VM_mem_bw_local VM"]
    show_u64_length [of "VM_mem_bw_remote VM"] show_u64_length [of now]
  by (simp add: vm_bandwidth_text_def INFLUXDB_DATA_LENGTH_def)

lemma guest_memory_text_length:
  assumes "in_int v" "in_int i" "in_int f" "in_int tot" "in_int a"
  shows "int (length (guest_memory_text v i f tot a now)) < INFLUXDB_DATA_LENGTH"
  using assms [THEN show_int_length] show_u64_length [of now]
  by (simp add: guest_memory_text_def INFLUXDB_DATA_LENGTH_def)

lemma round_half_even_le: "q \<le> of_int n \<Longrightarrow> round_half_even q \<le> n"
proof -
  assume q: "q \<le> of_int n"
  show ?thesis
  proof (cases "q = of_int n")
    case False
    with q have "\<lfloor>q\<rfloor> < n" by (simp add: floor_less_iff)
    then show ?thesis by (auto simp: round_half_even_def Let_def)
  qed simp
qed

lemma show_f_length:
  assumes "metric_sane x"
  shows "length (show_f x) \<le> 10"
proof -
  consider "x = DNaN" | q where "x = DFin q" "0 \<le> q" "q \<le> 350" using assms by (auto simp: metric_sane_def)
  then show ?thesis
  proof cases
    case 2
    let ?n = "nat (round_half_even (\<bar>q\<bar> * 1000000))"
    have "\<bar>q\<bar> * 1000000 \<le> of_int 350000000" using 2 by simp
    from round_half_even_le [OF this] have "?n \<le> 350000000" by linarith
    from div_le_mono [OF this, of 1000000] have "?n div 1000000 < 10 ^ 3" by simp
    then have whole: "length (show_nat (?n div 1000000)) \<le> 3" by (rule show_nat_length) simp
    have "?n mod 1000000 < 10 ^ 6" by simp
    then have "length (show_nat (?n mod 1000000)) \<le> 6" by (rule show_nat_length) simp
    with whole 2 show ?thesis by (simp add: Let_def)
  qed simp
qed

lemma vm_latency_text_length:
  assumes "in_int (VM_id VM)" "metric_sane (VM_cur_metrics VM LOAD_L3_MISS_LAT)"
  shows "int (length (vm_latency_text VM now)) < INFLUXDB_DATA_LENGTH"
proof -
  have "metric_sane (DFin 0)" by (simp add: metric_sane_def)
  note l = show_f_length [OF this] show_f_length [OF assms(2)]
  show ?thesis
    using l show_int_length [OF assms(1)] show_u64_length [of now]
    by (simp add: vm_latency_text_def INFLUXDB_DATA_LENGTH_def Let_def del: show_f.simps)
qed

lemma bw_filter: "MAX_BW_THRESHOLD_GB < MB_TO_GB x \<longleftrightarrow> 257024 \<le> uint x"
proof -
  have "uint (MB_TO_GB x) = uint x div 1024" by (simp add: mb_to_gb uint_div)
  then show ?thesis by (simp add: word_less_def MAX_BW_THRESHOLD_GB_def) linarith
qed

lemma upload_bw_text:
  assumes "in_int (VM_id VM)"
  shows "upload_vm_bw_to_cloud_db lib gm VM w =
           (if 257024 \<le> uint (VM_mem_bw VM) then w
            else cloud_db_client_send lib gm (vm_bandwidth_text VM (g_time_now_s gm)) w)"
  by (simp add: upload_vm_bw_to_cloud_db_def bw_filter snprintf_whole [OF vm_bandwidth_text_length [OF assms]])

lemma upload_meminfo_text:
  assumes "in_int v" "\<And>j. in_int (json_object_get_int js j)"
  shows "upload_meminfo js lib gm v info w =
    cloud_db_client_send lib gm (guest_memory_text v (json_object_get_int js (json_object_object_get js info ''index''))
      (json_object_get_int js (json_object_object_get js info ''mem-free''))
      (json_object_get_int js (json_object_object_get js info ''mem-total''))
      (json_object_get_int js (json_object_object_get js info ''mem-available'')) (g_time_now_s gm)) w"
  by (simp add: upload_meminfo_def snprintf_whole [OF guest_memory_text_length [OF assms assms(2) assms(2) assms(2)]])

lemma upload_latency_text:
  assumes "in_int (VM_id VM)" "metric_sane (VM_cur_metrics VM LOAD_L3_MISS_LAT)"
  shows "upload_vm_latency_to_cloud_db lib gm VM w =
           cloud_db_client_send lib gm (vm_latency_text VM (g_time_now_s gm)) w"
  by (simp add: upload_vm_latency_to_cloud_db_def snprintf_whole [OF vm_latency_text_length [OF assms]])

section \<open>One VM\<close>

text \<open>The capacity and latency handlers only touch the world, whether or not they upload.\<close>

lemma get_vm_mem_cp_world:
  "get_vm_mem_cp os js lib gm k s = Inr s' \<Longrightarrow> \<exists>w. s' = s\<lparr>rm_world := w\<rparr>"
  by (auto simp: get_vm_mem_cp_def Let_def bindE_eq_Inr split: option.splits if_splits)

lemma get_vm_mem_latency_world:
  "\<exists>w. get_vm_mem_latency lib gm k s = Inr (s\<lparr>rm_world := w\<rparr>)"
  by (cases "enable_cloud_db gm") (auto simp: get_vm_mem_latency_def intro: exI [of _ "rm_world s"])

lemma get_vm_mem_bw_put:
  assumes "vm_mem_bw gm cm (vm_at s k) = Inr V"
  shows "\<exists>w. get_vm_mem_bw lib gm cm k s = Inr ((put_vm k V s)\<lparr>rm_world := w\<rparr>)"
proof -
  define w where "w = (if enable_cloud_db gm then upload_vm_bw_to_cloud_db lib gm V (rm_world s) else rm_world s)"
  have "get_vm_mem_bw lib gm cm k s = Inr ((put_vm k V s)\<lparr>rm_world := w\<rparr>)"
    using assms by (simp add: get_vm_mem_bw_def put_vm_def w_def)
  then show ?thesis by blast
qed

lemma get_vm_mem_bw_Inr:
  assumes "get_vm_mem_bw lib gm cm k s = Inr s'"
  obtains V w where "vm_mem_bw gm cm (vm_at s k) = Inr V" "s' = (put_vm k V s)\<lparr>rm_world := w\<rparr>"
proof -
  from assms obtain V where V: "vm_mem_bw gm cm (vm_at s k) = Inr V"
    by (auto simp: get_vm_mem_bw_def bindE_eq_Inr)
  from get_vm_mem_bw_put [OF V, of lib] assms that V show thesis by fastforce
qed

lemma get_vm_mem_bw_inv:
  assumes "get_vm_mem_bw lib gm cm k s = Inr s'" "rm_inv s" "VM_running (vm_at s k)" "k < nat MAX_NUM_VM"
  shows "rm_inv s'"
proof -
  from assms(1) obtain V w where
    V: "vm_mem_bw gm cm (vm_at s k) = Inr V" "s' = (put_vm k V s)\<lparr>rm_world := w\<rparr>"
    by (rule get_vm_mem_bw_Inr)
  from vm_mem_bw_frame [OF V(1)] show ?thesis
    unfolding V(2) by (intro put_counters [OF assms(2-4)]) auto
qed

section \<open>A round\<close>

text \<open>What a round needs of the VMs: PCM measures the cores of every running one.\<close>

definition vms_measured :: "'w rm_state \<Rightarrow> bool" where
  "vms_measured s \<longleftrightarrow>
     (\<forall>k < nat MAX_NUM_VM. VM_running (vm_at s k) \<longrightarrow>
        (\<exists>ids. core_ids (VM_core_set (vm_at s k)) = Inr ids \<and> (\<forall>c \<in> set ids. measured_core c)))"

definition round_ready :: "'w rm_state \<Rightarrow> bool" where
  "round_ready s \<longleftrightarrow> rm_inv s \<and> vms_measured s"

lemma round_ready_world [simp]: "round_ready (s\<lparr>rm_world := w\<rparr>) = round_ready s"
  by (simp add: round_ready_def vms_measured_def vm_at_def)

lemma round_ready_put:
  assumes "round_ready s" "rm_inv ((put_vm k V s)\<lparr>rm_world := w\<rparr>)" "perf_frame (vm_at s k) V"
    "k < nat MAX_NUM_VM"
  shows "round_ready ((put_vm k V s)\<lparr>rm_world := w\<rparr>)"
proof -
  have len: "k < length (mngr_VMs (rm_vms s))"
    using assms(1,4) table_length [of s] by (simp add: round_ready_def)
  show ?thesis
    using assms(1-3) put_vm_at [where V = V and w = w, OF len]
    by (auto simp: round_ready_def vms_measured_def perf_frame_def split: if_splits)
qed

lemma meminfo_sent:
  assumes "json_object_new_object js \<noteq> None"
  obtains cmd where "guest_agent_get_meminfo os js v st = send_guest_cmd os v cmd st"
  using assms by (auto simp: guest_agent_get_meminfo_def json_members_def)

lemma cp_ready: "round_ready s \<Longrightarrow> get_vm_mem_cp os js lib gm k s = Inr s' \<Longrightarrow> round_ready s'"
  by (auto dest!: get_vm_mem_cp_world)

text \<open>
  The one thing that can go wrong for such VMs: the buffer an agent's answer was received into is
  read as a string, but has no NUL.
\<close>

lemma cp_fault:
  assumes ready: "round_ready s" and k: "k < nat MAX_NUM_VM" and run: "VM_running (vm_at s k)"
    and js: "json_object_new_object js \<noteq> None" and fault: "get_vm_mem_cp os js lib gm k s = Inl e"
  shows "enable_cloud_db gm \<and>
    (\<exists>bs w. guest_agent_get_meminfo os js (VM_id (vm_at s k)) (rm_agents s, rm_world s) = Inr (Some bs, w) \<and>
       read_recv_buffer bs = Inl e)"
proof -
  let ?v = "VM_id (vm_at s k)"
  have inv: "rm_inv s" using ready by (simp add: round_ready_def)
  then have "VM_initialized (vm_at s k)" and dist: "distinct (live_ids (mngr_VMs (rm_vms s)))"
    using k run by (auto simp: rm_inv_def mngr_wf_def list_all_length vm_at_def slot_wf_def)
  then have "vm_mngr_get_instance ?v (rm_vms s) = Some k"
    using find_vm_nth [OF dist] k table_length [OF inv] by (simp add: vm_mngr_get_instance_def vm_at_def)
  with not_running_down [OF inv] run have "agent_up (rm_agents s) ?v" by blast
  then have get: "agent_get (rm_agents s) ?v = Inr (guest_agents (rm_agents s) ?v)"
    by (simp add: agent_up_def agent_get_def)
  obtain cmd where sent: "guest_agent_get_meminfo os js ?v (rm_agents s, rm_world s) =
      send_guest_cmd os ?v cmd (rm_agents s, rm_world s)" using js by (rule meminfo_sent)
  have "\<exists>x. send_guest_cmd os ?v cmd (rm_agents s, rm_world s) = Inr x"
    by (simp add: send_guest_cmd_def get case_prod_beta)
  then obtain r w where a: "guest_agent_get_meminfo os js ?v (rm_agents s, rm_world s) = Inr (r, w)"
    unfolding sent by auto
  with fault obtain bs where "r = Some bs" "enable_cloud_db gm" "read_recv_buffer bs = Inl e"
    by (cases r; cases "read_recv_buffer (the r)") (auto simp: get_vm_mem_cp_def Let_def split: if_splits)
  with a show ?thesis by simp
qed

lemma bw_ready:
  assumes ready: "round_ready s" and k: "k < nat MAX_NUM_VM" and run: "VM_running (vm_at s k)"
    and gm: "monitor_interval_in_second gm \<noteq> 0"
  shows "\<exists>s'. get_vm_mem_bw lib gm cm k s = Inr s' \<and> round_ready s'"
proof -
  from ready k run obtain ids where
    ids: "core_ids (VM_core_set (vm_at s k)) = Inr ids" "\<forall>c \<in> set ids. measured_core c"
    by (auto simp: round_ready_def vms_measured_def)
  from vm_mem_bw_cases [OF ids(1), of gm cm] ids(2) gm obtain V where
    V: "vm_mem_bw gm cm (vm_at s k) = Inr V" by simp
  from get_vm_mem_bw_put [OF V] obtain w where
    run': "get_vm_mem_bw lib gm cm k s = Inr ((put_vm k V s)\<lparr>rm_world := w\<rparr>)" by blast
  have "rm_inv ((put_vm k V s)\<lparr>rm_world := w\<rparr>)"
    using get_vm_mem_bw_inv [OF run'] ready run k by (simp add: round_ready_def)
  then show ?thesis
    using round_ready_put [OF ready _ _ k] vm_mem_bw_frame [OF V] run' by blast
qed

lemma latency_ready: "round_ready s \<Longrightarrow> \<exists>s'. get_vm_mem_latency lib gm k s = Inr s' \<and> round_ready s'"
  using get_vm_mem_latency_world [of lib gm k s] by auto

lemma counters_ready:
  fixes os :: "'w os" and s :: "'w rm_state"
  assumes ready: "round_ready s" and os: "perf_reads_ok os"
  shows "\<exists>s'. vm_mngr_update_perf_counters os s = Inr s' \<and> round_ready s'"
proof (cases "mngr_count (rm_vms s) = 0")
  case True
  with ready show ?thesis by (simp add: vm_mngr_update_perf_counters_def)
next
  case False
  let ?f = "\<lambda>i s. if \<not> VM_running (vm_at s i) then Inr s
                   else bindE (vm_perf_update os (vm_at s i, rm_world s)) (\<lambda>(VM, w).
                        Inr ((put_vm i VM s)\<lparr>rm_world := w\<rparr>))"
  have "\<exists>s'. foldE ?f [0..<nat MAX_NUM_VM] s = Inr s' \<and> round_ready s'"
  proof (rule table_walk_total [where P = round_ready, OF ready])
    fix i and t :: "'w rm_state"
    assume i: "i < nat MAX_NUM_VM" and rt: "round_ready t"
    then have inv: "rm_inv t" by (simp add: round_ready_def)
    show "\<exists>t'. ?f i t = Inr t' \<and> round_ready t'"
    proof (cases "VM_running (vm_at t i)")
      case True
      from perf_update_ok [OF table_live [OF inv True i] os] obtain V w where
        V: "vm_perf_update os (vm_at t i, rm_world t) = Inr (V, w)" by blast
      note upd = perf_update_counts [OF V]
      have "rm_inv ((put_vm i V t)\<lparr>rm_world := w\<rparr>)" using put_counters [OF inv True i] upd by blast
      with round_ready_put [OF rt this _ i] upd True V show ?thesis by simp
    qed (use rt in simp)
  qed
  with False show ?thesis by (simp add: vm_mngr_update_perf_counters_def)
qed

lemma metrics_ready:
  fixes s :: "'w rm_state"
  assumes ready: "round_ready s"
  shows "\<exists>s'. vm_mngr_update_metrics s = Inr s' \<and> round_ready s'"
proof (cases "mngr_count (rm_vms s) = 0")
  case True
  with ready show ?thesis by (simp add: vm_mngr_update_metrics_def)
next
  case False
  let ?f = "\<lambda>i s :: 'w rm_state. if \<not> VM_running (vm_at s i) then Inr s
                   else Inr (put_vm i (vm_update_metrics (vm_at s i)) s)"
  have "\<exists>s'. foldE ?f [0..<nat MAX_NUM_VM] s = Inr s' \<and> round_ready s'"
  proof (rule table_walk_total [where P = round_ready, OF ready])
    fix i and t :: "'w rm_state"
    assume i: "i < nat MAX_NUM_VM" and rt: "round_ready t"
    then have inv: "rm_inv t" by (simp add: round_ready_def)
    let ?V = "vm_update_metrics (vm_at t i)"
    have same: "(put_vm i ?V t)\<lparr>rm_world := rm_world t\<rparr> = put_vm i ?V t" by (simp add: put_vm_def)
    show "\<exists>t'. ?f i t = Inr t' \<and> round_ready t'"
      using put_counters [where V = ?V and w = "rm_world t", OF inv _ i]
        round_ready_put [where V = ?V and w = "rm_world t", OF rt _ _ i] rt
      by (cases "VM_running (vm_at t i)") (simp_all add: same)
  qed
  with False show ?thesis by (simp add: vm_mngr_update_metrics_def)
qed

text \<open>The whole round, and any number of them.\<close>

text \<open>
  A round as far as it comes before it asks the agent of the VM in entry \<open>k\<close>, and the answer it
  then cannot read.
\<close>

definition round_upto ::
    "'w os \<Rightarrow> 'j json_lib \<Rightarrow> 'w pcm_lib \<Rightarrow> 'w curl_lib \<Rightarrow> nat \<Rightarrow> monitor_state \<times> 'w rm_state \<Rightarrow> 'w rm_state res" where
  "round_upto os js pcm lib k st =
     (let (gm, s) = st; (now, w) = os_clock os (rm_world s); (cm, w) = get_sys_mem_bw_usage pcm w
      in running_upto (get_vm_mem_cp os js lib (gm\<lparr>g_time_now_s := now\<rparr>)) k (s\<lparr>rm_world := w\<rparr>))"

definition unterminated ::
    "'w os \<Rightarrow> 'j json_lib \<Rightarrow> 'w pcm_lib \<Rightarrow> 'w curl_lib \<Rightarrow> monitor_state \<times> 'w rm_state \<Rightarrow> fault \<Rightarrow> bool" where
  "unterminated os js pcm lib st e \<longleftrightarrow>
     (\<exists>k t bs w. k < nat MAX_NUM_VM \<and> round_upto os js pcm lib k st = Inr t \<and> VM_running (vm_at t k) \<and>
        guest_agent_get_meminfo os js (VM_id (vm_at t k)) (rm_agents t, rm_world t) = Inr (Some bs, w) \<and>
        read_recv_buffer bs = Inl e)"

lemma monitor_round_yields:
  assumes ready: "round_ready s" and os: "perf_reads_ok os" and js: "json_object_new_object js \<noteq> None"
    and gm: "monitor_interval_in_second gm \<noteq> 0"
  shows "yields (\<lambda>e. enable_cloud_db gm \<and> unterminated os js pcm lib (gm, s) e) (monitor_round os js pcm lib (gm, s))
    (\<lambda>(gm', s'). (\<exists>now. gm' = gm\<lparr>g_time_now_s := now\<rparr>) \<and> round_ready s')"
proof -
  obtain now w1 where c: "os_clock os (rm_world s) = (now, w1)" by fastforce
  obtain cm w2 where m: "get_sys_mem_bw_usage pcm w1 = (cm, w2)" by fastforce
  define g where "g = gm\<lparr>g_time_now_s := now\<rparr>"
  have g: "monitor_interval_in_second g \<noteq> 0" "enable_cloud_db g = enable_cloud_db gm"
    using gm by (simp_all add: g_def)
  let ?cp = "get_vm_mem_cp os js lib g" and ?s = "s\<lparr>rm_world := w2\<rparr>"
  let ?E = "\<lambda>e. enable_cloud_db gm \<and> unterminated os js pcm lib (gm, s) e"
  have s: "round_ready ?s" using ready by simp
  have first: "yields ?E (vm_mngr_for_each_vm_running ?cp ?s) round_ready"
  proof (cases "vm_mngr_for_each_vm_running ?cp ?s")
    case (Inr s1)
    from running_walk_inv [where P = round_ready, OF this s cp_ready] Inr show ?thesis by simp
  next
    case (Inl e)
    from running_walk_fault [OF this] obtain k t where
      k: "k < nat MAX_NUM_VM" "running_upto ?cp k ?s = Inr t" "VM_running (vm_at t k)" "?cp k t = Inl e" by blast
    from running_upto_inv [OF k(2), where P = round_ready] s cp_ready have "round_ready t" by blast
    from cp_fault [OF this k(1,3) js k(4)] k(1-3) have "?E e"
      by (auto simp: unterminated_def round_upto_def c m g_def)
    with Inl show ?thesis by simp
  qed
  show ?thesis
    unfolding monitor_round_def Let_def prod.case c m g_def [symmetric]
  proof (intro yields_bindE [where P = round_ready] first)
    fix t :: "'a rm_state" assume "round_ready t"
    then show "yields ?E (vm_mngr_for_each_vm_running (get_vm_mem_bw lib g cm) t) round_ready"
      by (rule running_walk_yields) (intro yields_total bw_ready g(1))
  next
    fix t :: "'a rm_state" assume "round_ready t"
    then show "yields ?E (vm_mngr_update_perf_counters os t) round_ready"
      by (intro yields_total counters_ready os)
  next
    fix t :: "'a rm_state" assume "round_ready t"
    then show "yields ?E (vm_mngr_update_metrics t) round_ready"
      by (intro yields_total metrics_ready)
  next
    fix t :: "'a rm_state" assume "round_ready t"
    then show "yields ?E (vm_mngr_for_each_vm_running (get_vm_mem_latency lib g) t) round_ready"
      by (rule running_walk_yields) (intro yields_total latency_ready)
  qed (auto simp: g_def)
qed

lemma monitor_rounds_Suc:
  "monitor_rounds os js pcm lib (Suc n) st =
     bindE (monitor_rounds os js pcm lib n st) (monitor_round os js pcm lib)"
  by (simp add: monitor_rounds_def foldE_append) (rule arg_cong [where f = "bindE _"], simp add: fun_eq_iff)

lemma monitor_rounds_yields:
  assumes ready: "round_ready s" and os: "perf_reads_ok os" and js: "json_object_new_object js \<noteq> None"
    and gm: "monitor_interval_in_second gm \<noteq> 0"
  shows "yields (\<lambda>e. enable_cloud_db gm \<and>
      (\<exists>m < n. \<exists>st. monitor_rounds os js pcm lib m (gm, s) = Inr st \<and> unterminated os js pcm lib st e))
    (monitor_rounds os js pcm lib n (gm, s)) (\<lambda>(gm', s'). (\<exists>now. gm' = gm\<lparr>g_time_now_s := now\<rparr>) \<and> round_ready s')"
proof (induction n)
  case 0
  then show ?case using ready by (auto simp: monitor_rounds_def intro: exI [of _ "g_time_now_s gm"])
next
  case (Suc n)
  show ?case
  proof (cases "monitor_rounds os js pcm lib n (gm, s)")
    case (Inl e)
    with Suc show ?thesis by (auto simp: monitor_rounds_Suc intro: less_SucI)
  next
    case (Inr st)
    with Suc obtain now t where st: "st = (gm\<lparr>g_time_now_s := now\<rparr>, t)" "round_ready t" by (cases st) auto
    have "monitor_interval_in_second (gm\<lparr>g_time_now_s := now\<rparr>) \<noteq> 0" using gm by simp
    from monitor_round_yields [OF st(2) os js this, of pcm lib] Inr show ?thesis
      by (cases "monitor_round os js pcm lib st") (auto simp: monitor_rounds_Suc st(1))
  qed
qed

text \<open>Without a database the rounds do not fault.\<close>

lemma monitor_rounds_total:
  assumes "round_ready s" "perf_reads_ok os" "json_object_new_object js \<noteq> None"
    "monitor_interval_in_second gm \<noteq> 0" "\<not> enable_cloud_db gm"
  shows "\<exists>gm' s'. monitor_rounds os js pcm lib n (gm, s) = Inr (gm', s') \<and> round_ready s'"
  using monitor_rounds_yields [OF assms(1-4), where pcm = pcm and lib = lib and n = n] assms(5)
  by (cases "monitor_rounds os js pcm lib n (gm, s)") auto

end
