(* ===== verification/RmLog.thy ===== *)
theory RmLog
  imports Os
begin

text \<open>
  The logging wrapper of \<open>src/util_log.c\<close> over zlog, which is the parameter \<open>zlog_lib\<close>: its level
  constants and the calls the wrapper makes.  A message is the text its format and arguments give.
  The other theories leave log messages out.
\<close>

record log_state =
  g_log_cat :: bool
  g_log_inited :: bool

definition initial_log :: log_state where
  "initial_log = \<lparr>g_log_cat = False, g_log_inited = False\<rparr>"

record 'w zlog_lib =
  zlog_level_debug :: int
  zlog_level_info :: int
  zlog_level_warn :: int
  zlog_level_error :: int
  zlog_init :: "string \<Rightarrow> 'w \<Rightarrow> int \<times> 'w"
  zlog_get_category :: "string \<Rightarrow> 'w \<Rightarrow> bool \<times> 'w"
  zlog_fini :: "'w \<Rightarrow> 'w"
  vzlog :: "string \<Rightarrow> string \<Rightarrow> int \<Rightarrow> int \<Rightarrow> string \<Rightarrow> 'w \<Rightarrow> 'w"

definition rm_log_level_name :: "'w zlog_lib \<Rightarrow> int \<Rightarrow> string" where
  "rm_log_level_name z level =
     (if level = zlog_level_debug z then ''DEBUG''
      else if level = zlog_level_info z then ''INFO''
      else if level = zlog_level_warn z then ''WARN''
      else if level = zlog_level_error z then ''ERROR''
      else ''LOG'')"

definition rm_log_vfallback ::
    "'w os \<Rightarrow> 'w zlog_lib \<Rightarrow> int \<Rightarrow> string \<Rightarrow> string \<Rightarrow> int \<Rightarrow> string \<Rightarrow> 'w \<Rightarrow> 'w" where
  "rm_log_vfallback os z level file func line msg w =
     (let w = os_printf os True (''['' @ rm_log_level_name z level @ ''] ['' @ file @ '':'' @
                show_int line @ '' '' @ func @ ''] '') w;
          w = os_printf os True msg w
      in os_printf os True [newline] w)"

definition rm_log_init ::
    "'w os \<Rightarrow> 'w zlog_lib \<Rightarrow> string \<Rightarrow> log_state \<Rightarrow> 'w \<Rightarrow> int \<times> log_state \<times> 'w" where
  "rm_log_init os z config_path l w =
     (if g_log_inited l then (0, l, w)
      else
        let (rc, w) = zlog_init z config_path w in
        if rc \<noteq> 0 then
          (-1, l, os_printf os True (''Failed to init zlog with config '' @ config_path @ [newline]) w)
        else
          let (cat, w) = zlog_get_category z ''resource_manager'' w; l = l\<lparr>g_log_cat := cat\<rparr> in
          if \<not> cat then
            (-1, l, os_printf os True (''Failed to get zlog category resource_manager'' @ [newline])
                      (zlog_fini z w))
          else (0, l\<lparr>g_log_inited := True\<rparr>, w))"

definition rm_log_fini :: "'w zlog_lib \<Rightarrow> log_state \<Rightarrow> 'w \<Rightarrow> log_state \<times> 'w" where
  "rm_log_fini z l w =
     (if \<not> g_log_inited l then (l, w)
      else (l\<lparr>g_log_cat := False, g_log_inited := False\<rparr>, zlog_fini z w))"

definition rm_log_write ::
    "'w os \<Rightarrow> 'w zlog_lib \<Rightarrow> log_state \<Rightarrow> int \<Rightarrow> string \<Rightarrow> string \<Rightarrow> int \<Rightarrow> string \<Rightarrow> 'w \<Rightarrow> 'w" where
  "rm_log_write os z l level file func line msg w =
     (if g_log_cat l then vzlog z file func line level msg w
      else rm_log_vfallback os z level file func line msg w)"

section \<open>The life of the log\<close>

text \<open>The category is there exactly while zlog is initialised.\<close>

definition log_wf :: "log_state \<Rightarrow> bool" where
  "log_wf l \<longleftrightarrow> g_log_cat l = g_log_inited l"

lemma log_wf_initial: "log_wf initial_log"
  by (simp add: log_wf_def initial_log_def)

lemma log_init_cases:
  assumes "log_wf l" "rm_log_init os z path l w = (rc, l', w')"
  shows "log_wf l' \<and> (rc = 0 \<or> rc = -1) \<and> (rc = 0 \<longleftrightarrow> g_log_cat l')"
  using assms by (auto simp: rm_log_init_def log_wf_def Let_def split: if_splits prod.splits)

lemma log_init_again:
  "rm_log_init os z path l w = (0, l', w') \<Longrightarrow> rm_log_init os z path' l' w' = (0, l', w')"
  by (auto simp: rm_log_init_def Let_def split: if_splits prod.splits)

lemma log_fini_wf: "log_wf l \<Longrightarrow> log_wf (fst (rm_log_fini z l w)) \<and> \<not> g_log_cat (fst (rm_log_fini z l w))"
  by (simp add: rm_log_fini_def log_wf_def)

end
