(* ===== verification/Process.thy ===== *)
theory Process
  imports ClientCorrect MonitorConfig MonitorCorrect RmLog
begin

text \<open>
  The process of \<open>src/resource_manager.c\<close>: start-up in \<open>main\<close>, the server's sockets and its event
  loop, and the signal handler.

  \<^item> The global and server variables of all files are the record \<open>process\<close>; \<open>cmd\<close> and \<open>args\<close> of
    the server loop are one component, as in \<open>ResourceManager\<close>.
  \<^item> A start-up step answers \<open>False\<close> for \<open>exit(EXIT_FAILURE)\<close>.
  \<^item> The loop is never left: it is observed after any number of turns.
\<close>

record 'w process =
  pr_state :: "'w rm_state"
  pr_monitor :: monitor_state
  pr_log :: log_state
  pr_args :: "string option"
  g_server_fd :: int
  g_epoll_fd :: int

definition initial_process :: "'w \<Rightarrow> 'w process" where
  "initial_process w =
     \<lparr>pr_state = start_state empty_pool w, pr_monitor = initial_monitor, pr_log = initial_log,
      pr_args = None, g_server_fd = -1, g_epoll_fd = -1\<rparr>"

definition pr_world :: "'w process \<Rightarrow> 'w" where
  "pr_world p = rm_world (pr_state p)"

definition set_world :: "'w \<Rightarrow> 'w process \<Rightarrow> 'w process" where
  "set_world w p = p\<lparr>pr_state := (pr_state p)\<lparr>rm_world := w\<rparr>\<rparr>"

definition CONFIG_FILE :: string where "CONFIG_FILE = ''elasticmm.conf''"
definition LOG_CONFIG_FILE :: string where "LOG_CONFIG_FILE = ''zlog.conf''"
definition MAX_EVENTS :: nat where "MAX_EVENTS = 10"

section \<open>The server\<close>

definition rpc_server_stop :: "'w os \<Rightarrow> 'w process \<Rightarrow> 'w process" where
  "rpc_server_stop os p =
     (let w = (if g_server_fd p \<noteq> -1
               then os_unlink os SERVER_SOCKET (snd (os_close os (g_server_fd p) (pr_world p)))
               else pr_world p);
          w = (if g_epoll_fd p \<noteq> -1 then snd (os_close os (g_epoll_fd p) w) else w)
      in set_world w p)"

text \<open>\<open>rpc_server_start\<close> before its loop.\<close>

definition rpc_server_setup :: "'w os \<Rightarrow> 'w process \<Rightarrow> bool \<times> 'w process" where
  "rpc_server_setup os p =
     (let (fd, w) = os_socket os (pr_world p); p = p\<lparr>g_server_fd := fd\<rparr> in
      if fd < 0 then (False, set_world w p)
      else
        let w = os_unlink os SERVER_SOCKET w;
            (r, w) = os_bind os fd (take 107 SERVER_SOCKET) w in
        if r < 0 then (False, set_world w p)
        else
          let (r, w) = os_listen os fd 5 w in
          if r < 0 then (False, set_world w p)
          else
            let (epfd, w) = os_epoll_create1 os w; p = p\<lparr>g_epoll_fd := epfd\<rparr> in
            if epfd = -1 then (False, set_world w p)
            else
              let (r, w) = os_epoll_add os epfd fd w in (r \<noteq> -1, set_world w p))"

definition server_event :: "'w os \<Rightarrow> 'j json_lib \<Rightarrow> int \<Rightarrow> 'w process \<Rightarrow> 'w process res" where
  "server_event os js fd p =
     (if fd = g_server_fd p then
        bindE (rpc_client os js (g_server_fd p) (pr_args p, pr_state p)) (\<lambda>(args, s).
        Inr (p\<lparr>pr_args := args, pr_state := s\<rparr>))
      else Inr p)"

definition rpc_server_turn :: "'w os \<Rightarrow> 'j json_lib \<Rightarrow> 'w process \<Rightarrow> 'w process res" where
  "rpc_server_turn os js p =
     (let (events, w) = os_epoll_wait os (g_epoll_fd p) MAX_EVENTS (pr_world p)
      in foldE (server_event os js) (take MAX_EVENTS events) (set_world w p))"

definition rpc_server_turns :: "'w os \<Rightarrow> 'j json_lib \<Rightarrow> nat \<Rightarrow> 'w process \<Rightarrow> 'w process res" where
  "rpc_server_turns os js n = foldE (\<lambda>_. rpc_server_turn os js) [0..<n]"

section \<open>Start and end\<close>

text \<open>\<open>main\<close> up to the server loop; on AMD the monitor is not started.\<close>

definition main_init ::
    "'w os \<Rightarrow> 'w zlog_lib \<Rightarrow> 'w pcm_lib \<Rightarrow> 'w curl_lib \<Rightarrow> bool \<Rightarrow> 'w \<Rightarrow> (bool \<times> 'w process) res" where
  "main_init os z pcm lib arch_amd w =
     (let p = initial_process w;
          (rc, l, w) = rm_log_init os z LOG_CONFIG_FILE (pr_log p) w;
          p = set_world w (p\<lparr>pr_log := l\<rparr>) in
      if rc \<noteq> 0 then Inr (False, p)
      else
        bindE (memory_pool_init (os_fopen os CONFIG_FILE w) (rm_pool (pr_state p))) (\<lambda>(rc, pool).
        let p = p\<lparr>pr_state := (pr_state p)\<lparr>rm_pool := pool\<rparr>\<rparr> in
        if rc \<noteq> 0 then Inr (False, p)
        else
          bindE (if arch_amd then Inr (0, pr_monitor p, pr_world p)
                 else guest_monitor_server_start os pcm lib (os_fopen os CONFIG_FILE (pr_world p))
                        (pr_monitor p) (pr_world p)) (\<lambda>(rc, gm, w).
          let p = set_world w (p\<lparr>pr_monitor := gm\<rparr>) in
          if rc \<noteq> 0 then Inr (False, p) else Inr (rpc_server_setup os p))))"

text \<open>\<open>handle_signal\<close> ends in \<open>exit(0)\<close>; the result is what the process leaves.\<close>

definition handle_signal ::
    "'w os \<Rightarrow> 'w zlog_lib \<Rightarrow> 'w pcm_lib \<Rightarrow> 'w curl_lib \<Rightarrow> 'w process \<Rightarrow> 'w process res" where
  "handle_signal os z pcm lib p =
     (let p = rpc_server_stop os p in
      bindE (guest_monitor_server_stop os pcm lib (pr_monitor p) (pr_world p)) (\<lambda>w.
      bindE (release_vms os (pr_state (set_world w p))) (\<lambda>s.
      let (l, w) = rm_log_fini z (pr_log p) (rm_world s)
      in Inr (p\<lparr>pr_state := s\<lparr>rm_world := w\<rparr>, pr_log := l\<rparr>))))"

end
