(* ===== verification/ProcessCorrect.thy ===== *)
theory ProcessCorrect
  imports Process
begin

text \<open>
  The process as a state machine: its atomic steps, which start in what \<open>main\<close> sets up; \<open>rm_inv\<close>
  holds in every state they reach, the event loop and the rounds of the monitor are sequences of
  them, and the signal handler leaves nothing behind.
\<close>

section \<open>Steps\<close>

text \<open>
  Two threads work on the state: the server treats one client, and the monitor treats one VM,
  after looking at whether it runs.  Each of these is one step here, so the walks of the monitor
  are interleaved with requests in every way between VMs; within a step the other thread does not
  run.  The world may change at any time.
\<close>

inductive rm_step ::
    "'w os \<Rightarrow> 'j json_lib \<Rightarrow> 'w curl_lib \<Rightarrow> string option \<times> 'w rm_state \<Rightarrow>
       string option \<times> 'w rm_state \<Rightarrow> bool"
  for os :: "'w os" and js :: "'j json_lib" and lib :: "'w curl_lib" where
  Client: "rpc_client os js fd (args, s) = Inr (args', s') \<Longrightarrow> rm_step os js lib (args, s) (args', s')"
| Capacity: "k < nat MAX_NUM_VM \<Longrightarrow> VM_running (vm_at s k) \<Longrightarrow> get_vm_mem_cp os js lib gm k s = Inr s' \<Longrightarrow>
    rm_step os js lib (args, s) (args, s')"
| Bandwidth: "k < nat MAX_NUM_VM \<Longrightarrow> VM_running (vm_at s k) \<Longrightarrow> get_vm_mem_bw lib gm cm k s = Inr s' \<Longrightarrow>
    rm_step os js lib (args, s) (args, s')"
| Counters: "k < nat MAX_NUM_VM \<Longrightarrow> VM_running (vm_at s k) \<Longrightarrow>
    vm_perf_update os (vm_at s k, rm_world s) = Inr (V, w) \<Longrightarrow>
    rm_step os js lib (args, s) (args, (put_vm k V s)\<lparr>rm_world := w\<rparr>)"
| Metrics: "k < nat MAX_NUM_VM \<Longrightarrow> VM_running (vm_at s k) \<Longrightarrow>
    rm_step os js lib (args, s) (args, put_vm k (vm_update_metrics (vm_at s k)) s)"
| Latency: "k < nat MAX_NUM_VM \<Longrightarrow> VM_running (vm_at s k) \<Longrightarrow> get_vm_mem_latency lib gm k s = Inr s' \<Longrightarrow>
    rm_step os js lib (args, s) (args, s')"
| World: "rm_step os js lib (args, s) (args, s\<lparr>rm_world := w\<rparr>)"

abbreviation rm_steps ::
    "'w os \<Rightarrow> 'j json_lib \<Rightarrow> 'w curl_lib \<Rightarrow> string option \<times> 'w rm_state \<Rightarrow>
       string option \<times> 'w rm_state \<Rightarrow> bool" where
  "rm_steps os js lib \<equiv> (rm_step os js lib)\<^sup>*\<^sup>*"

text \<open>A step keeps the invariant and is at most one step of the specification.\<close>

lemma put_counters_spec:
  assumes inv: "rm_inv s" and i: "VM_running (vm_at s i)" "i < nat MAX_NUM_VM"
    and V: "perf_frame (vm_at s i) V" "VM_perf_event_fds V = VM_perf_event_fds (vm_at s i)"
  shows "rm_inv ((put_vm i V s)\<lparr>rm_world := w\<rparr>)"
    and "vm_spec_of ((put_vm i V s)\<lparr>rm_world := w\<rparr>) = vm_spec_of s"
proof -
  have wf: "mngr_wf (rm_vms s)" using inv by (simp add: rm_inv_def)
  then have "VM_initialized (vm_at s i)"
    using i by (auto simp: mngr_wf_def list_all_length vm_at_def slot_wf_def)
  note get = get_instance_at [OF inv i(2) this]
  have run: "VM_running V" "VM_id V = VM_id (vm_at s i)" "VM_initialized V"
    using V(1) i(1) \<open>VM_initialized (vm_at s i)\<close> by (simp_all add: perf_frame_def)
  then have "perf_frame (mngr_VMs (rm_vms s) ! i) (V\<lparr>VM_running := True\<rparr>)"
    using V(1) i(1) by (simp add: perf_frame_def vm_at_def)
  note tab = put_table [OF get wf this]
  have "VM_running V = VM_running (mngr_VMs (rm_vms s) ! i)" using run(1) i(1) by (simp add: vm_at_def)
  note alive = put_alive [OF get wf run(2,3) this]
  show "vm_spec_of ((put_vm i V s)\<lparr>rm_world := w\<rparr>) = vm_spec_of s"
    using alive tab(2) by (simp add: vm_spec_of_def put_vm_def)
  show "rm_inv ((put_vm i V s)\<lparr>rm_world := w\<rparr>)" by (rule put_counters [OF inv i V])
qed

lemma put_counters_sim:
  assumes "rm_inv s" "VM_running (vm_at s i)" "i < nat MAX_NUM_VM"
    "perf_frame (vm_at s i) V" "VM_perf_event_fds V = VM_perf_event_fds (vm_at s i)"
  shows "sim s ((put_vm i V s)\<lparr>rm_world := w\<rparr>)"
  using put_counters_spec [OF assms, of w] by (simp add: sim_def put_vm_def)

lemma put_metrics_sim:
  assumes "rm_inv s" "VM_running (vm_at s k)" "k < nat MAX_NUM_VM"
  shows "sim s (put_vm k (vm_update_metrics (vm_at s k)) s)"
proof -
  have "sim s ((put_vm k (vm_update_metrics (vm_at s k)) s)\<lparr>rm_world := rm_world s\<rparr>)"
    by (rule put_counters_sim [OF assms]) simp_all
  then show ?thesis by simp
qed

lemma rm_step_sim: "rm_step os js lib st st' \<Longrightarrow> rm_inv (snd st) \<Longrightarrow> sim (snd st) (snd st')"
proof (induction rule: rm_step.induct)
  case (Client fd args s args' s')
  with client_inv [of s os js fd args] show ?case by (auto dest: ensuresD)
next
  case (Capacity k s gm s' args)
  with get_vm_mem_cp_world [OF Capacity(3)] show ?case by auto
next
  case (Bandwidth k s gm cm s' args)
  from Bandwidth(3) obtain V w where
    "vm_mem_bw gm cm (vm_at s k) = Inr V" "s' = (put_vm k V s)\<lparr>rm_world := w\<rparr>"
    by (rule get_vm_mem_bw_Inr)
  with Bandwidth(1,2,4) put_counters_sim [of s k V w] vm_mem_bw_frame show ?case by auto
next
  case (Counters k s V w args)
  then show ?case using put_counters_sim perf_update_counts by fastforce
next
  case (Metrics k s args)
  then show ?case using put_metrics_sim by auto
next
  case (Latency k s gm s' args)
  with get_vm_mem_latency_world [of lib gm k s] show ?case by auto
qed simp

lemma rm_steps_sim:
  assumes "rm_steps os js lib st st'" "rm_inv (snd st)"
  shows "rm_inv (snd st') \<and> req_valid (rm_pool (snd st')) = req_valid (rm_pool (snd st)) \<and>
    (spec_step (req_valid (rm_pool (snd st))))\<^sup>*\<^sup>* (vm_spec_of (snd st)) (vm_spec_of (snd st'))"
  using assms
proof (induction rule: rtranclp_induct)
  case (step y z)
  then have "sim (snd y) (snd z)" by (intro rm_step_sim) auto
  with step show ?case by (auto simp: sim_def intro: rtranclp.rtrancl_into_rtrancl)
qed simp

text \<open>The specification starts where the process does.\<close>

lemma spec_of_empty:
  assumes "rm_inv s" "mngr_count (rm_vms s) = 0"
  shows "vm_spec_of s = spec_start"
proof -
  have wf: "mngr_wf (rm_vms s)" using assms(1) by (simp add: rm_inv_def)
  from count_vms [OF wf] assms(2) have "{v. vm_mngr_check_exit v (rm_vms s)} = {}" by simp
  then have none: "vm_mngr_get_instance v (rm_vms s) = None" for v by (simp add: vm_mngr_check_exit_def)
  then have "vm_ledger (rm_vms s) = Map.empty"
    by (auto simp: vm_ledger_def vm_mngr_instance_get_mem_def fun_eq_iff)
  then show ?thesis by (simp add: vm_spec_of_def spec_start_def vm_mngr_check_exit_def vm_running_def none)
qed

lemma spec_runs_safe: "(spec_step fits)\<^sup>*\<^sup>* spec_start a \<Longrightarrow> spec_safe fits a"
proof (induction rule: rtranclp_induct)
  case base
  show ?case by (simp add: spec_safe_def spec_start_def)
qed (rule spec_step_safe)

section \<open>The threads run in steps\<close>

lemma foldE_steps:
  assumes "foldE f xs s = Inr s'" and "\<And>x t t'. x \<in> set xs \<Longrightarrow> f x t = Inr t' \<Longrightarrow> R\<^sup>*\<^sup>* (g t) (g t')"
  shows "R\<^sup>*\<^sup>* (g s) (g s')"
  using assms(1)
  by (rule foldE_inv [where P = "\<lambda>t. R\<^sup>*\<^sup>* (g s) (g t)"]) (use assms(2) in \<open>auto intro: rtranclp_trans\<close>)

lemma running_walk_steps:
  assumes "vm_mngr_for_each_vm_running h s = Inr s'"
    and "\<And>k t t'. k < nat MAX_NUM_VM \<Longrightarrow> VM_running (vm_at t k) \<Longrightarrow> h k t = Inr t' \<Longrightarrow> R (args, t) (args, t')"
  shows "R\<^sup>*\<^sup>* (args, s) (args, s')"
  using assms(1)
  by (rule running_walk_inv [where P = "\<lambda>t. R\<^sup>*\<^sup>* (args, s) (args, t)"])
    (use assms(2) in \<open>auto intro: rtranclp.rtrancl_into_rtrancl\<close>)

lemma counters_steps:
  assumes "vm_mngr_update_perf_counters os s = Inr s'"
  shows "rm_steps os js lib (args, s) (args, s')"
proof (cases "mngr_count (rm_vms s) = 0")
  case True
  with assms show ?thesis by (simp add: vm_mngr_update_perf_counters_def)
next
  case False
  with assms have "foldE (\<lambda>i s. if \<not> VM_running (vm_at s i) then Inr s
      else bindE (vm_perf_update os (vm_at s i, rm_world s)) (\<lambda>(VM, w). Inr ((put_vm i VM s)\<lparr>rm_world := w\<rparr>)))
      [0..<nat MAX_NUM_VM] s = Inr s'"
    by (simp add: vm_mngr_update_perf_counters_def)
  then show ?thesis
    by (rule foldE_steps [where g = "Pair args"])
      (auto simp: bindE_eq_Inr split: if_splits intro: rm_step.Counters)
qed

lemma metrics_steps:
  assumes "vm_mngr_update_metrics s = Inr s'"
  shows "rm_steps os js lib (args, s) (args, s')"
proof (cases "mngr_count (rm_vms s) = 0")
  case True
  with assms show ?thesis by (simp add: vm_mngr_update_metrics_def)
next
  case False
  with assms have "foldE (\<lambda>i s. if \<not> VM_running (vm_at s i) then Inr s
      else Inr (put_vm i (vm_update_metrics (vm_at s i)) s)) [0..<nat MAX_NUM_VM] s = Inr s'"
    by (simp add: vm_mngr_update_metrics_def)
  then show ?thesis
    by (rule foldE_steps [where g = "Pair args"]) (auto split: if_splits intro: rm_step.Metrics)
qed

lemma monitor_round_steps:
  assumes "monitor_round os js pcm lib (gm, s) = Inr (gm', s')"
  shows "rm_steps os js lib (args, s) (args, s')"
proof -
  obtain now w1 where c: "os_clock os (rm_world s) = (now, w1)" by fastforce
  obtain cm w2 where m: "get_sys_mem_bw_usage pcm w1 = (cm, w2)" by fastforce
  define g where "g = gm\<lparr>g_time_now_s := now\<rparr>"
  define s0 where "s0 = s\<lparr>rm_world := w2\<rparr>"
  from assms obtain s1 s2 s3 s4 s5 w where
    r: "vm_mngr_for_each_vm_running (get_vm_mem_cp os js lib g) s0 = Inr s1"
      "vm_mngr_for_each_vm_running (get_vm_mem_bw lib g cm) s1 = Inr s2"
      "vm_mngr_update_perf_counters os s2 = Inr s3" "vm_mngr_update_metrics s3 = Inr s4"
      "vm_mngr_for_each_vm_running (get_vm_mem_latency lib g) s4 = Inr s5"
      "s' = s5\<lparr>rm_world := w\<rparr>"
    by (auto simp: monitor_round_def Let_def c m bindE_eq_Inr g_def s0_def)
  have "rm_steps os js lib (args, s) (args, s0)" unfolding s0_def by (blast intro: rm_step.World)
  also have "rm_steps os js lib (args, s0) (args, s1)"
    by (rule running_walk_steps [OF r(1)]) (rule rm_step.Capacity)
  also have "rm_steps os js lib (args, s1) (args, s2)"
    by (rule running_walk_steps [OF r(2)]) (rule rm_step.Bandwidth)
  also have "rm_steps os js lib (args, s2) (args, s3)" by (rule counters_steps [OF r(3)])
  also have "rm_steps os js lib (args, s3) (args, s4)" by (rule metrics_steps [OF r(4)])
  also have "rm_steps os js lib (args, s4) (args, s5)"
    by (rule running_walk_steps [OF r(5)]) (rule rm_step.Latency)
  also have "rm_steps os js lib (args, s5) (args, s')" unfolding r(6) by (blast intro: rm_step.World)
  finally show ?thesis .
qed

lemma monitor_rounds_steps:
  assumes "monitor_rounds os js pcm lib n (gm, s) = Inr (gm', s')"
  shows "rm_steps os js lib (args, s) (args, s')"
proof -
  have "rm_steps os js lib (args, snd (gm, s)) (args, snd (gm', s'))"
    by (rule foldE_steps [where g = "\<lambda>st. (args, snd st)", OF assms [unfolded monitor_rounds_def]])
      (auto intro: monitor_round_steps)
  then show ?thesis by simp
qed

text \<open>What the rest of the process sees of a record \<open>process\<close>.\<close>

definition shared :: "'w process \<Rightarrow> string option \<times> 'w rm_state" where
  "shared p = (pr_args p, pr_state p)"

lemma shared_world: "rm_step os js lib (shared p) (shared (set_world w p))"
  by (simp add: shared_def set_world_def rm_step.World)

lemma server_event_steps:
  "server_event os js fd p = Inr p' \<Longrightarrow> rm_steps os js lib (shared p) (shared p')"
  by (auto simp: server_event_def shared_def bindE_eq_Inr split: if_splits
      intro!: r_into_rtranclp rm_step.Client)

lemma server_turn_steps:
  assumes "rpc_server_turn os js p = Inr p'"
  shows "rm_steps os js lib (shared p) (shared p')"
proof -
  obtain events w where e: "os_epoll_wait os (g_epoll_fd p) MAX_EVENTS (pr_world p) = (events, w)" by fastforce
  have "rm_steps os js lib (shared p) (shared (set_world w p))"
    by (rule r_into_rtranclp) (rule shared_world)
  moreover have "foldE (server_event os js) (take MAX_EVENTS events) (set_world w p) = Inr p'"
    using assms by (simp add: rpc_server_turn_def e)
  then have "rm_steps os js lib (shared (set_world w p)) (shared p')"
    by (rule foldE_steps) (rule server_event_steps)
  ultimately show ?thesis by (rule rtranclp_trans)
qed

lemma server_turns_steps:
  "rpc_server_turns os js n p = Inr p' \<Longrightarrow> rm_steps os js lib (shared p) (shared p')"
  unfolding rpc_server_turns_def by (rule foldE_steps) (auto intro: server_turn_steps)

section \<open>Start-up\<close>

text \<open>The devices of the configuration fit the segment table.\<close>

definition pool_fits :: "memory_pool \<Rightarrow> bool" where
  "pool_fits p \<longleftrightarrow> (g_mem_devs p \<noteq> [] \<or> 0 < g_segment_size_mb p) \<and>
     list_all (\<lambda>d. dax_total_segments d \<le> MAX_SEGMENTS) (g_mem_devs p)"

definition process_inv :: "'w process \<Rightarrow> bool" where
  "process_inv p \<longleftrightarrow> rm_inv (pr_state p) \<and> log_wf (pr_log p)"

lemma server_setup_frame:
  assumes "rpc_server_setup os p = (ok, p')"
  shows "\<exists>w. pr_state p' = (pr_state p)\<lparr>rm_world := w\<rparr>" "pr_monitor p' = pr_monitor p"
    "pr_log p' = pr_log p" "pr_args p' = pr_args p"
    "ok \<Longrightarrow> 0 \<le> g_server_fd p' \<and> g_epoll_fd p' \<noteq> -1"
  using assms by (auto simp: rpc_server_setup_def Let_def set_world_def split: if_splits prod.splits)

lemma monitor_start_thread:
  assumes "guest_monitor_server_start os pcm lib cfg gm w = Inr (rc, gm', w')" "\<not> monitor_thread gm"
  shows "(rc = 0 \<longleftrightarrow> monitor_thread gm') \<and> (rc = 0 \<or> rc = -1)"
proof -
  have setting: "monitor_setting k v g = Inr g' \<Longrightarrow> monitor_thread g' = monitor_thread g" for k v g g'
    by (auto simp: monitor_setting_def bindE_eq_Inr split: if_splits)
  have line: "monitor_thread g' = monitor_thread g" if run: "monitor_line l g = Inr g'" for l g g'
  proof (cases "is_section_line l")
    case True
    with run show ?thesis by (simp add: monitor_line_def)
  next
    case False
    with run obtain ws where "monitor_words l = Inr ws" by (auto simp: monitor_line_def bindE_eq_Inr)
    with run False show ?thesis
      by (cases ws rule: remdups_adj.cases) (auto simp: monitor_line_def dest: setting)
  qed
  have lines: "monitor_lines c g = Inr g' \<Longrightarrow> monitor_thread g' = monitor_thread g" for c g g'
  proof (induction c g rule: monitor_lines.induct)
    case (1 c g)
    show ?case
    proof (cases "fgets 512 c")
      case None
      with 1(2) show ?thesis by (simp add: monitor_lines.simps [of c g])
    next
      case (Some lr)
      obtain l r where lr: "lr = (l, r)" by (cases lr)
      from 1(2) Some lr obtain h where h: "monitor_line l g = Inr h" "monitor_lines r h = Inr g'"
        by (auto simp: monitor_lines.simps [of c g] bindE_eq_Inr)
      with 1(1) [OF Some lr [symmetric] h] line [OF h(1)] show ?thesis by simp
    qed
  qed
  have load: "guest_monitor_load_config cfg gm = Inr (r, g) \<Longrightarrow> monitor_thread g = monitor_thread gm" for r g
    by (auto simp: guest_monitor_load_config_def bindE_eq_Inr split: option.splits dest: lines)
  have db: "cloud_db_client_init lib g u = Inr (r, g', u') \<Longrightarrow> monitor_thread g' = monitor_thread g" for g u r g' u'
    by (auto simp: cloud_db_client_init_def Let_def split: prod.splits option.splits if_splits)
  show ?thesis
    using assms
    by (auto simp: guest_monitor_server_start_def Let_def bindE_eq_Inr case_prod_beta split: if_splits dest: load db)
qed

text \<open>What \<open>main\<close> hands to the server loop.\<close>

lemma main_init_correct:
  assumes run: "main_init os z pcm lib amd w = Inr (True, p)" and fits: "pool_fits (rm_pool (pr_state p))"
  shows "process_inv p \<and> pr_args p = None \<and> 0 \<le> g_server_fd p \<and> g_epoll_fd p \<noteq> -1 \<and>
         monitor_thread (pr_monitor p) = (\<not> amd) \<and> g_log_cat (pr_log p) \<and>
         mngr_count (rm_vms (pr_state p)) = 0"
proof -
  let ?p0 = "initial_process w"
  obtain rc l w1 where l: "rm_log_init os z LOG_CONFIG_FILE initial_log w = (rc, l, w1)" by (metis prod_cases3)
  from run obtain pool gm w2 where
    r: "rc = 0" "memory_pool_init (os_fopen os CONFIG_FILE w1) empty_pool = Inr (0, pool)"
      "(if amd then Inr (0, initial_monitor, w1)
        else guest_monitor_server_start os pcm lib (os_fopen os CONFIG_FILE w1) initial_monitor w1)
         = Inr (0, gm, w2)"
      "rpc_server_setup os (set_world w2 (?p0\<lparr>pr_log := l, pr_state := start_state pool w1, pr_monitor := gm\<rparr>))
         = (True, p)"
    by (auto simp: main_init_def Let_def l bindE_eq_Inr pr_world_def set_world_def initial_process_def start_state_def
        split: if_splits prod.splits)
  note s = server_setup_frame [OF r(4)]
  from s(1) obtain w3 where p: "pr_state p = start_state pool w3"
    by (auto simp: set_world_def start_state_def)
  from log_init_cases [OF log_wf_initial l] have log: "log_wf l" "g_log_cat l"
    using r(1) by simp_all
  from fits have "g_mem_devs pool \<noteq> [] \<or> 0 < g_segment_size_mb pool"
    "list_all (\<lambda>d. dax_total_segments d \<le> MAX_SEGMENTS) (g_mem_devs pool)"
    by (simp_all add: pool_fits_def p start_state_def)
  from memory_pool_init_wf [OF r(2) this] have "rm_inv (pr_state p)"
    unfolding p by (intro rm_inv_init) auto
  moreover have "monitor_thread gm = (\<not> amd)"
    using r(3) monitor_start_thread [of os pcm lib "os_fopen os CONFIG_FILE w1" initial_monitor w1 0 gm w2]
    by (auto simp: initial_monitor_def split: if_splits)
  ultimately show ?thesis
    using s(2-5) log zero_mngr_wf(2)
    by (simp add: process_inv_def p set_world_def initial_process_def start_state_def)
qed

section \<open>The signal\<close>

lemma handle_signal_correct:
  assumes inv: "process_inv p" and os: "perf_reads_ok os" "perf_closes_ok os" and mon: "monitor_thread (pr_monitor p)"
  shows "\<exists>p'. handle_signal os z pcm lib p = Inr p' \<and> mngr_count (rm_vms (pr_state p')) = 0 \<and>
           (\<forall>v. \<not> vm_mngr_check_exit v (rm_vms (pr_state p'))) \<and>
           (\<forall>v. \<not> agent_up (rm_agents (pr_state p')) v) \<and>
           (\<forall>x. pool_owner (rm_pool (pr_state p')) x = None) \<and> \<not> g_log_cat (pr_log p')"
proof -
  let ?q = "rpc_server_stop os p"
  have q: "pr_monitor ?q = pr_monitor p" "pr_log ?q = pr_log p" "rm_inv (pr_state (set_world w ?q))" for w
    using inv by (simp_all add: rpc_server_stop_def Let_def set_world_def process_inv_def)
  obtain w where w: "guest_monitor_server_stop os pcm lib (pr_monitor ?q) (pr_world ?q) = Inr w"
    using mon q(1) by (simp add: guest_monitor_server_stop_def Let_def)
  from shutdown_correct [OF q(3) os] obtain s where
    s: "release_vms os (pr_state (set_world w ?q)) = Inr s" "mngr_count (rm_vms s) = 0"
      "\<forall>v. \<not> vm_mngr_check_exit v (rm_vms s)" "\<forall>v. \<not> agent_up (rm_agents s) v"
      "\<forall>x. pool_owner (rm_pool s) x = None" by blast
  obtain l u where l: "rm_log_fini z (pr_log p) (rm_world s) = (l, u)" by fastforce
  with log_fini_wf [of "pr_log p" z "rm_world s"] inv have "\<not> g_log_cat l" by (simp add: process_inv_def)
  then show ?thesis using s w l q(2) by (simp add: handle_signal_def Let_def)
qed

text \<open>Without the monitor's thread the handler joins nothing, and no VM is released.\<close>

lemma handle_signal_no_monitor:
  assumes "\<not> monitor_thread (pr_monitor p)"
  shows "handle_signal os z pcm lib p = Inl BadPointer"
  using assms by (simp add: handle_signal_def Let_def guest_monitor_server_stop_def rpc_server_stop_def set_world_def)

end
