(* ===== verification/Lifecycle.thy ===== *)
theory Lifecycle
  imports ProcessCorrect
begin

text \<open>
  The end of a VM's life, seen by a client: whatever the VM was doing, two requests remove it and
  give all its memory back.  And what the wait in \<open>vm_mngr_instance_stop\<close> is for.
\<close>

section \<open>Removing a VM by requests\<close>

definition vm_request :: "string \<Rightarrow> int \<Rightarrow> string" where
  "vm_request cmd v = cmd @ '' vid='' @ show_int v"

lemma scan_vm_request:
  assumes "is_word cmd" "length cmd \<le> 63" "in_int v"
  shows "scan_request (vm_request cmd v) old = Inr (Some (cmd, Some (''vid='' @ show_int v)))"
proof -
  have "newline \<notin> set (''vid='' @ show_int v)" "length (''vid='' @ show_int v) < 1024"
    using word_newline_free [OF show_int_word] show_int_length [OF assms(3)] by (simp_all add: newline_def)
  then show ?thesis
    using scan_command [of cmd "''vid='' @ show_int v" old] assms(1,2) by (simp add: vm_request_def is_space_def)
qed

lemma vm_command_runs:
  assumes "0 \<le> v" "v \<le> INT_MAX" "\<And>n w. fst (os_malloc os n w)"
  shows "\<exists>w. rpc_vm_command os verb op (''vid='' @ show_int v) s =
    bindE (op v (s\<lparr>rm_world := w\<rparr>)) (\<lambda>(ret, s).
      Inr (rpc_text (verb @ '' VM '' @ show_int v @ (if ret = 0 then '' success'' else '' failed'')), s))"
proof -
  have int: "in_int v" using assms(1,2) by (rule in_int_nonneg)
  obtain w where "rpc_malloc os s = Inr (s\<lparr>rm_world := w\<rparr>)"
    using assms(3) by (simp add: rpc_malloc_def case_prod_beta)
  then have "rpc_vm_command os verb op (''vid='' @ show_int v) s =
    bindE (op v (s\<lparr>rm_world := w\<rparr>)) (\<lambda>(ret, s).
      Inr (rpc_text (verb @ '' VM '' @ show_int v @ (if ret = 0 then '' success'' else '' failed'')), s))"
    using assms(1) by (simp add: rpc_vm_command_def scan_vid [OF int] del: sscanf.simps append_Cons)
  then show ?thesis by blast
qed

lemma rpc_text_short: "length t < 1024 \<Longrightarrow> rpc_text t = RText t"
  by (simp add: rpc_text_def snprintf_def BUFFER_SIZE_def)

lemma stop_request:
  assumes inv: "rm_inv s" and os: "perf_reads_ok os" "perf_closes_ok os" "\<And>n w. fst (os_malloc os n w)"
    and v: "0 \<le> v" "v \<le> INT_MAX" and ex: "vm_mngr_check_exit v (rm_vms s)"
  shows "\<exists>args s'. serve os js (vm_request ''stop-vm'' v) old s =
             Inr (''Stop VM '' @ show_int v @ '' success'', args, s') \<and> rm_inv s' \<and>
           rm_pool s' = rm_pool s \<and>
           vm_spec_of s' = (vm_spec_of s)\<lparr>sp_running := sp_running (vm_spec_of s) - {v}\<rparr>"
proof -
  have int: "in_int v" using v by (rule in_int_nonneg)
  have "is_word ''stop-vm''" by (simp add: is_word_def is_space_def)
  then have scan: "scan_request (vm_request ''stop-vm'' v) old =
      Inr (Some (''stop-vm'', Some (''vid='' @ show_int v)))" using int by (intro scan_vm_request) simp_all
  obtain w where cmd: "rpc_handle_stop_vm os (''vid='' @ show_int v) s =
      bindE (vm_mngr_instance_stop os v (s\<lparr>rm_world := w\<rparr>)) (\<lambda>(ret, s).
        Inr (rpc_text (''Stop'' @ '' VM '' @ show_int v @ (if ret = 0 then '' success'' else '' failed'')), s))"
    using vm_command_runs [OF v os(3)] unfolding rpc_handle_stop_vm_def by blast
  have inv': "rm_inv (s\<lparr>rm_world := w\<rparr>)" using inv by simp
  from stop_total [OF inv' os(1,2)] obtain r s' where
    st: "vm_mngr_instance_stop os v (s\<lparr>rm_world := w\<rparr>) = Inr (r, s')" by blast
  note post = stop_inv [OF inv' st] stop_spec [OF inv' st]
  have "r = 0" using post ex by simp
  moreover have "rpc_text (''Stop VM '' @ show_int v @ '' success'') = RText (''Stop VM '' @ show_int v @ '' success'')"
    using show_int_length [OF int] by (intro rpc_text_short) simp
  ultimately have "serve os js (vm_request ''stop-vm'' v) old s =
      Inr (''Stop VM '' @ show_int v @ '' success'', Some (''vid='' @ show_int v), s')"
    unfolding serve_def scan using cmd st by (simp add: rpc_dispatch_def with_args_def reply_text_def)
  then show ?thesis using post by simp
qed

lemma destroy_request:
  assumes inv: "rm_inv s" and mal: "\<And>n w. fst (os_malloc os n w)"
    and v: "0 \<le> v" "v \<le> INT_MAX" and ex: "vm_mngr_check_exit v (rm_vms s)" "\<not> vm_running (rm_vms s) v"
  shows "\<exists>args s'. serve os js (vm_request ''destroy-vm'' v) old s =
             Inr (''Destroy VM '' @ show_int v @ '' success'', args, s') \<and> rm_inv s' \<and>
           (\<forall>w. vm_mngr_check_exit w (rm_vms s') = (w \<noteq> v \<and> vm_mngr_check_exit w (rm_vms s))) \<and>
           (\<forall>x. pool_owner (rm_pool s') x =
              (if pool_owner (rm_pool s) x = Some v then None else pool_owner (rm_pool s) x))"
proof -
  have int: "in_int v" using v by (rule in_int_nonneg)
  have "is_word ''destroy-vm''" by (simp add: is_word_def is_space_def)
  then have scan: "scan_request (vm_request ''destroy-vm'' v) old =
      Inr (Some (''destroy-vm'', Some (''vid='' @ show_int v)))" using int by (intro scan_vm_request) simp_all
  obtain w where cmd: "rpc_handle_destroy_vm os (''vid='' @ show_int v) s =
      bindE (vm_mngr_instance_destroy v (s\<lparr>rm_world := w\<rparr>)) (\<lambda>(ret, s).
        Inr (rpc_text (''Destroy'' @ '' VM '' @ show_int v @ (if ret = 0 then '' success'' else '' failed'')), s))"
    using vm_command_runs [OF v mal] unfolding rpc_handle_destroy_vm_def by blast
  have inv': "rm_inv (s\<lparr>rm_world := w\<rparr>)" using inv by simp
  from destroy_correct [OF inv', of v] ex obtain s' where
    d: "vm_mngr_instance_destroy v (s\<lparr>rm_world := w\<rparr>) = Inr (0, s')" "rm_inv s'"
      "\<And>w. vm_mngr_get_instance w (rm_vms s') = (if w = v then None else vm_mngr_get_instance w (rm_vms s))"
      "pool_owner (rm_pool s') =
         (\<lambda>x. if pool_owner (rm_pool s) x = Some v then None else pool_owner (rm_pool s) x)"
    by (auto cong: if_cong)
  have "rpc_text (''Destroy VM '' @ show_int v @ '' success'') = RText (''Destroy VM '' @ show_int v @ '' success'')"
    using show_int_length [OF int] by (intro rpc_text_short) simp
  then have "serve os js (vm_request ''destroy-vm'' v) old s =
      Inr (''Destroy VM '' @ show_int v @ '' success'', Some (''vid='' @ show_int v), s')"
    unfolding serve_def scan using cmd d(1) by (simp add: rpc_dispatch_def with_args_def reply_text_def)
  then show ?thesis using d(2-4) by (auto simp: vm_mngr_check_exit_def)
qed

section \<open>Stop against the monitor\<close>

text \<open>What a stop of a running VM does to the process, entry by entry and agent by agent.\<close>

lemma cleanup_effect:
  assumes "guest_agent_cleanup os v (m, w) = Inr (m', w')"
  shows "u \<noteq> v \<Longrightarrow> guest_agents m' u = guest_agents m u" and "\<not> agent_up m' v"
proof -
  from agent_cleanup_range [OF assms] have v: "0 \<le> v" "v < MAX_NUM_VM" by simp_all
  with assms show "u \<noteq> v \<Longrightarrow> guest_agents m' u = guest_agents m u" "\<not> agent_up m' v"
    by (auto simp: guest_agent_cleanup_def agent_get_def agent_set_def bindE_eq_Inr agent_up_def case_prod_beta Let_def
        split: if_splits)
qed

lemma stop_effect:
  assumes inv: "rm_inv s" and get: "vm_mngr_get_instance v (rm_vms s) = Some k" and on: "VM_running (vm_at s k)"
    and run: "vm_mngr_instance_stop os v s = Inr (r, s')"
  shows "r = 0 \<and> rm_pool s' = rm_pool s \<and>
    (\<exists>cum delta. rm_vms s' = mngr_put k ((vm_at s k)\<lparr>VM_running := False, VM_perf_event_fds := (\<lambda>_. None),
         VM_cum_counts := cum, VM_delta_counts := delta\<rparr>) (rm_vms s) \<and>
       (\<forall>j. uint (cum j) = uint (VM_cum_counts (vm_at s k) j) + uint (delta j))) \<and>
    \<not> agent_up (rm_agents s') v \<and> (\<forall>u. u \<noteq> v \<longrightarrow> guest_agents (rm_agents s') u = guest_agents (rm_agents s) u)"
proof -
  have id: "VM_id (vm_at s k) = v" using get_instanceD(2) [OF get] inv by (simp add: rm_inv_def vm_at_def)
  from run get on id obtain V ag w1 w2 where
    cl: "guest_agent_cleanup os v (rm_agents s, os_usleep os 1000 (rm_world s)) = Inr (ag, w1)"
    and V: "vm_perf_counter_teardown os ((vm_at s k)\<lparr>VM_running := False\<rparr>, w1) = Inr (V, w2)"
    and s': "s' = (put_vm k V s)\<lparr>rm_agents := ag, rm_world := w2\<rparr>" "r = 0"
    by (auto simp: vm_mngr_instance_stop_def bindE_eq_Inr Let_def)
  have "V = (vm_at s k)\<lparr>VM_running := False, VM_perf_event_fds := (\<lambda>_. None),
      VM_cum_counts := VM_cum_counts V, VM_delta_counts := VM_delta_counts V\<rparr>"
    using perf_teardown_effect(1) [OF V] by simp
  then have "rm_vms s' = mngr_put k ((vm_at s k)\<lparr>VM_running := False, VM_perf_event_fds := (\<lambda>_. None),
      VM_cum_counts := VM_cum_counts V, VM_delta_counts := VM_delta_counts V\<rparr>) (rm_vms s)"
    by (simp add: s' put_vm_def)
  moreover have "uint (VM_cum_counts V j) = uint (VM_cum_counts (vm_at s k) j) + uint (VM_delta_counts V j)" for j
    using perf_teardown_effect(2) [OF V] by (simp add: counts_grow_def)
  ultimately have "\<exists>cum delta. rm_vms s' = mngr_put k ((vm_at s k)\<lparr>VM_running := False, VM_perf_event_fds := (\<lambda>_. None),
         VM_cum_counts := cum, VM_delta_counts := delta\<rparr>) (rm_vms s) \<and>
       (\<forall>j. uint (cum j) = uint (VM_cum_counts (vm_at s k) j) + uint (delta j))" by blast
  then show ?thesis using cleanup_effect [OF cl] by (simp add: s' put_vm_def)
qed

text \<open>
  The running flag is cleared first and the stop waits one millisecond, but nothing makes the
  monitor finish: a round that looked at the flag before the stop and goes on after it reads
  through arrays that are freed.
\<close>

lemma stop_clears:
  assumes "rm_inv s" "vm_mngr_get_instance v (rm_vms s) = Some k" "VM_running (vm_at s k)"
    and run: "vm_mngr_instance_stop os v s = Inr (r, s')"
  shows "VM_perf_event_fds (vm_at s' k) j = None \<and> VM_num_cores (vm_at s' k) = VM_num_cores (vm_at s k)"
proof -
  from stop_effect [OF assms] obtain cum delta where
    V: "rm_vms s' = mngr_put k ((vm_at s k)\<lparr>VM_running := False, VM_perf_event_fds := (\<lambda>_. None),
      VM_cum_counts := cum, VM_delta_counts := delta\<rparr>) (rm_vms s)" by blast
  have "k < length (mngr_VMs (rm_vms s))"
    using get_instanceD(1) [OF assms(2)] assms(1) by (simp add: rm_inv_def)
  then show ?thesis by (simp add: vm_at_def V mngr_put_def)
qed

lemma late_update_faults:
  assumes "VM_perf_event_fds VM INST_RETIRED = None" "0 < VM_num_cores VM"
  shows "vm_perf_update os (VM, w) = Inl BadPointer"
proof -
  have "[0..VM_num_cores VM - 1] = 0 # [1..VM_num_cores VM - 1]"
    using assms(2) by (subst upto_rec1) simp_all
  then have "vm_perf_update_event os INST_RETIRED (VM, w) = Inl BadPointer"
    using assms(1) by (simp add: vm_perf_update_event_def vm_perf_read_core_def fd_get_def)
  then show ?thesis by (simp add: vm_perf_update_def all_events_def)
qed

end
