(* ===== verification/Hotplug.thy ===== *)
theory Hotplug
  imports Lifecycle
begin

text \<open>
  The requests \<open>attach-mem\<close>, \<open>detach-mem\<close> and \<open>free-mem\<close> on the wire, for a device that the VM
  holds: what they ask of QEMU and of the VM manager, and what is answered.
\<close>

section \<open>The arguments\<close>

definition attach_args :: "int \<Rightarrow> int \<Rightarrow> int \<Rightarrow> string" where
  "attach_args memid vid nid =
     ''memid='' @ show_int memid @ '' vid='' @ show_int vid @ '' nid='' @ show_int nid"

definition detach_args :: "int \<Rightarrow> int \<Rightarrow> string" where
  "detach_args memid vid = ''memid='' @ show_int memid @ '' vid='' @ show_int vid"

definition free_args :: "int \<Rightarrow> int \<Rightarrow> string" where
  "free_args vid memid = ''vid='' @ show_int vid @ '' memid='' @ show_int memid"

lemma scan_attach_args:
  assumes "in_int memid" "in_int vid" "in_int nid"
  shows "sscanf (attach_args memid vid nid) fmt_attach = Inr [SInt memid, SInt vid, SInt nid]"
  using scan_field_int [OF assms(1), of "'' vid='' @ show_int vid @ '' nid='' @ show_int nid" "''memid=''"]
    scan_next_int [OF _ _ assms(2), of "''vid=''" "'' nid='' @ show_int nid"]
    scan_next_int [OF _ _ assms(3), of "''nid=''" "[]" "[]"]
  by (simp add: attach_args_def fmt_attach_def is_digit_def is_space_def del: sscanf.simps(2-6))

lemma scan_detach_args:
  assumes "in_int memid" "in_int vid"
  shows "sscanf (detach_args memid vid) fmt_detach = Inr [SInt memid, SInt vid]"
  using scan_field_int [OF assms(1), of "'' vid='' @ show_int vid" "''memid=''"]
    scan_next_int [OF _ _ assms(2), of "''vid=''" "[]" "[]"]
  by (simp add: detach_args_def fmt_detach_def is_digit_def is_space_def del: sscanf.simps(2-6))

lemma scan_free_args:
  assumes "in_int vid" "in_int memid"
  shows "sscanf (free_args vid memid) fmt_free = Inr [SInt vid, SInt memid]"
  using scan_field_int [OF assms(1), of "'' memid='' @ show_int memid" "''vid=''"]
    scan_next_int [OF _ _ assms(2), of "''memid=''" "[]" "[]"]
  by (simp add: free_args_def fmt_free_def is_digit_def is_space_def del: sscanf.simps(2-6))

text \<open>A request that is a known word and printed integers is split as it was put together.\<close>

lemma scan_printed_request:
  assumes "is_word cmd" "length cmd \<le> 63" "a \<noteq> []" "\<not> is_space (hd a)" "newline \<notin> set a" "length a < 1024"
  shows "serve os js (cmd @ '' '' @ a) old s =
    bindE (rpc_dispatch os js cmd (Some a) s) (\<lambda>(r, s). bindE (reply_text r) (\<lambda>t. Inr (t, Some a, s)))"
  unfolding serve_def scan_command [OF assms] by simp

lemmas args_chars = word_newline_free [OF show_int_word] show_int_length

lemma attach_args_line:
  assumes "in_int memid" "in_int vid" "in_int nid"
  shows "attach_args memid vid nid \<noteq> []" "\<not> is_space (hd (attach_args memid vid nid))"
    "newline \<notin> set (attach_args memid vid nid)" "length (attach_args memid vid nid) < 1024"
  using args_chars(1) assms [THEN args_chars(2)]
  by (simp_all add: attach_args_def is_space_def newline_def)

lemma detach_args_line:
  assumes "in_int memid" "in_int vid"
  shows "detach_args memid vid \<noteq> []" "\<not> is_space (hd (detach_args memid vid))"
    "newline \<notin> set (detach_args memid vid)" "length (detach_args memid vid) < 1024"
  using args_chars(1) assms [THEN args_chars(2)]
  by (simp_all add: detach_args_def is_space_def newline_def)

lemma free_args_line:
  assumes "in_int vid" "in_int memid"
  shows "free_args vid memid \<noteq> []" "\<not> is_space (hd (free_args vid memid))"
    "newline \<notin> set (free_args vid memid)" "length (free_args vid memid) < 1024"
  using args_chars(1) assms [THEN args_chars(2)]
  by (simp_all add: free_args_def is_space_def newline_def)

section \<open>What QEMU is asked for\<close>

text \<open>The ids of the backend and of the DIMM are not cut.\<close>

definition attach_request :: "int \<Rightarrow> int \<Rightarrow> memory_request \<Rightarrow> hotplug_request" where
  "attach_request memid nid q =
     \<lparr>hp_dimm_id = ''dimm'' @ show_int memid, hp_memdev_id = ''mem'' @ show_int memid,
      hp_dev_path = req_dev_path q, hp_size_bytes = MB_TO_BYTES (req_size_mb q),
      hp_align_bytes = MB_TO_BYTES (req_align_mb q), hp_share = True, hp_numa_node = nid\<rparr>"

definition detach_request :: "int \<Rightarrow> hotunplug_request" where
  "detach_request memid = \<lparr>hu_dimm_id = ''dimm'' @ show_int memid, hu_memdev_id = ''mem'' @ show_int memid\<rparr>"

lemma hotplug_request_of_eq:
  assumes "in_int memid" "0 \<le> nid" "length (req_dev_path q) < 64"
  shows "hotplug_request_of memid nid q = attach_request memid nid q"
  using show_int_length [OF assms(1)] assms(2,3)
  by (simp add: hotplug_request_of_def attach_request_def snprintf_def STRING_ID_LEN_def DEV_PATH_LEN_def)

lemma hotunplug_request_of_eq: "in_int memid \<Longrightarrow> hotunplug_request_of memid = detach_request memid"
  using show_int_length [of memid]
  by (simp add: hotunplug_request_of_def detach_request_def snprintf_def STRING_ID_LEN_def)

section \<open>What is answered\<close>

lemma rpc_malloc_ok:
  "(\<And>n w. fst (os_malloc os n w)) \<Longrightarrow>
     rpc_malloc os s = Inr (s\<lparr>rm_world := snd (os_malloc os 1024 (rm_world s))\<rparr>)"
  by (simp add: rpc_malloc_def case_prod_beta BUFFER_SIZE_def)

lemma rpc_text_if:
  "length a < 1024 \<Longrightarrow> length b < 1024 \<Longrightarrow> (if c then rpc_text a else rpc_text b) = RText (if c then a else b)"
  by (simp add: rpc_text_short)

lemma attach_served:
  assumes mal: "\<And>n w. fst (os_malloc os n w)"
    and ids: "0 \<le> memid" "memid \<le> INT_MAX" "0 \<le> vid" "vid \<le> INT_MAX" "0 \<le> nid" "nid \<le> INT_MAX"
    and q: "vm_mngr_instance_get_mem vid memid (rm_vms s) = Some q" "length (req_dev_path q) < 64"
  shows "serve os js (''attach-mem '' @ attach_args memid vid nid) old s =
    bindE (qemu_agent_hotplug_memory os js vid (attach_request memid nid q)
             (snd (os_malloc os 1024 (rm_world s)))) (\<lambda>(ret, w).
    Inr (if ret = 0 then ''Hotplug memory success'' else ''Hotplug memory failed'',
         Some (attach_args memid vid nid), s\<lparr>rm_world := w\<rparr>))"
proof -
  have int: "in_int memid" "in_int vid" "in_int nid" using ids by (simp_all add: in_int_nonneg)
  have "is_word ''attach-mem''" by (simp add: is_word_def is_space_def)
  note line = scan_printed_request [OF this _ attach_args_line [OF int], of os js old s]
  have "rpc_handle_attach_mem os js (attach_args memid vid nid) s =
      bindE (qemu_agent_hotplug_memory os js vid (attach_request memid nid q)
               (snd (os_malloc os 1024 (rm_world s)))) (\<lambda>(ret, w).
      Inr (RText (if ret = 0 then ''Hotplug memory success'' else ''Hotplug memory failed''), s\<lparr>rm_world := w\<rparr>))"
    using ids(1,3) by (simp add: rpc_handle_attach_mem_def scan_attach_args [OF int] rpc_malloc_ok [OF mal] q(1)
        hotplug_request_of_eq [OF int(1) ids(5) q(2)] rpc_text_if)
  then show ?thesis using line
    by (simp add: rpc_dispatch_def with_args_def reply_text_def bindE_assoc case_prod_unfold)
qed

lemma detach_served:
  assumes mal: "\<And>n w. fst (os_malloc os n w)"
    and ids: "0 \<le> memid" "memid \<le> INT_MAX" "0 \<le> vid" "vid \<le> INT_MAX"
    and q: "vm_mngr_instance_get_mem vid memid (rm_vms s) = Some q"
  shows "serve os js (''detach-mem '' @ detach_args memid vid) old s =
    bindE (qemu_agent_hotunplug_memory os js vid (detach_request memid)
             (snd (os_malloc os 1024 (rm_world s)))) (\<lambda>(ret, w).
    Inr (if ret = 0 then ''Hotunplug memory success'' else ''Hotunplug memory failed'',
         Some (detach_args memid vid), s\<lparr>rm_world := w\<rparr>))"
proof -
  have int: "in_int memid" "in_int vid" using ids by (simp_all add: in_int_nonneg)
  have "is_word ''detach-mem''" by (simp add: is_word_def is_space_def)
  note line = scan_printed_request [OF this _ detach_args_line [OF int], of os js old s]
  have "rpc_handle_detach_mem os js (detach_args memid vid) s =
      bindE (qemu_agent_hotunplug_memory os js vid (detach_request memid)
               (snd (os_malloc os 1024 (rm_world s)))) (\<lambda>(ret, w).
      Inr (RText (if ret = 0 then ''Hotunplug memory success'' else ''Hotunplug memory failed''), s\<lparr>rm_world := w\<rparr>))"
    using ids(1,3) by (simp add: rpc_handle_detach_mem_def scan_detach_args [OF int] rpc_malloc_ok [OF mal] q
        hotunplug_request_of_eq [OF int(1)] rpc_text_if)
  then show ?thesis using line
    by (simp add: rpc_dispatch_def with_args_def reply_text_def bindE_assoc case_prod_unfold)
qed

lemma free_served:
  assumes mal: "\<And>n w. fst (os_malloc os n w)" and ids: "0 \<le> vid" "vid \<le> INT_MAX" "0 \<le> memid" "memid \<le> INT_MAX"
  shows "serve os js (''free-mem '' @ free_args vid memid) old s =
    bindE (vm_mngr_instance_free_mem vid memid (s\<lparr>rm_world := snd (os_malloc os 1024 (rm_world s))\<rparr>)) (\<lambda>(ret, s).
    Inr (if ret = 0 then ''Release success'' else ''Release failed'', Some (free_args vid memid), s))"
proof -
  have int: "in_int vid" "in_int memid" using ids by (simp_all add: in_int_nonneg)
  have "is_word ''free-mem''" by (simp add: is_word_def is_space_def)
  note line = scan_printed_request [OF this _ free_args_line [OF int], of os js old s]
  have "rpc_handle_free_mem os (free_args vid memid) s =
    bindE (vm_mngr_instance_free_mem vid memid (s\<lparr>rm_world := snd (os_malloc os 1024 (rm_world s))\<rparr>)) (\<lambda>(ret, s).
    Inr (RText (if ret = 0 then ''Release success'' else ''Release failed''), s))"
    using ids(1,3) by (simp add: rpc_handle_free_mem_def scan_free_args [OF int] rpc_malloc_ok [OF mal] rpc_text_if)
  then show ?thesis using line
    by (simp add: rpc_dispatch_def with_args_def reply_text_def bindE_assoc case_prod_unfold)
qed

section \<open>Freeing what is attached\<close>

text \<open>Neither table nor pool records an attach, and freeing asks nothing of QEMU.\<close>

lemma free_mem_world: "vm_mngr_instance_free_mem v i s = Inr (r, s') \<Longrightarrow> rm_world s' = rm_world s"
  by (auto simp: vm_mngr_instance_free_mem_def bindE_eq_Inr Let_def put_vm_def split: option.splits if_splits)

lemma attached_freed:
  assumes inv: "rm_inv s" and mal: "\<And>n w. fst (os_malloc os n w)"
    and ids: "0 \<le> memid" "memid \<le> INT_MAX" "0 \<le> vid" "vid \<le> INT_MAX" "0 \<le> nid" "nid \<le> INT_MAX"
    and q: "vm_mngr_instance_get_mem vid memid (rm_vms s) = Some q" "length (req_dev_path q) < 64"
    and run: "serve os js (''attach-mem '' @ attach_args memid vid nid) old s = Inr (t, a, s1)"
  shows "\<exists>b s2. serve os js (''free-mem '' @ free_args vid memid) a s1 = Inr (''Release success'', b, s2) \<and>
    rm_world s2 = snd (os_malloc os 1024 (rm_world s1)) \<and>
    pool_owner (rm_pool s2) =
      (\<lambda>x. if x \<in> req_span (rm_pool s) q then None else pool_owner (rm_pool s) x)"
proof -
  obtain w where s1: "s1 = s\<lparr>rm_world := w\<rparr>"
    using run unfolding attach_served [OF mal ids q] by (auto simp: bindE_eq_Inr)
  define s1' where "s1' = s1\<lparr>rm_world := snd (os_malloc os 1024 (rm_world s1))\<rparr>"
  have inv': "rm_inv s1'" using inv by (simp add: s1'_def s1)
  have "vm_mngr_instance_get_mem vid memid (rm_vms s1') = Some q" using q(1) by (simp add: s1'_def s1)
  with free_mem_correct [OF inv', of vid memid] obtain s2 where
    s2: "vm_mngr_instance_free_mem vid memid s1' = Inr (0, s2)"
      "pool_owner (rm_pool s2) = (\<lambda>x. if x \<in> req_span (rm_pool s1') q then None else pool_owner (rm_pool s1') x)"
    by auto
  have "rm_world s2 = snd (os_malloc os 1024 (rm_world s1))" using free_mem_world [OF s2(1)] by (simp add: s1'_def)
  moreover have "serve os js (''free-mem '' @ free_args vid memid) a s1 =
      Inr (''Release success'', Some (free_args vid memid), s2)"
    unfolding free_served [OF mal ids(3,4,1,2)] using s2(1) by (simp add: s1'_def [symmetric])
  ultimately show ?thesis using s2(2) by (simp add: s1'_def s1 cong: if_cong)
qed

end
