(* ===== verification/Protocol.thy ===== *)
theory Protocol
  imports Hotplug
begin

text \<open>
  The protocol between client and server.  A request is a value of the type \<open>request\<close>, printed the
  way a user of the client writes it; \<open>perform\<close> is what the server does for it, without any text
  in between.  Serving the printed request is the same as performing it.
\<close>

section \<open>Requests\<close>

datatype request =
    GetMemInfo int
  | GetMemPool
  | GetVms
  | GetNumNodes
  | GetNodeInfo int
  | AllocMem int int int          \<comment> \<open>node, VM, size in MB\<close>
  | FreeMem int int               \<comment> \<open>VM, memory id\<close>
  | AttachMem int int int         \<comment> \<open>memory id, VM, node\<close>
  | DetachMem int int             \<comment> \<open>memory id, VM\<close>
  | CreateVm int string           \<comment> \<open>VM, core set\<close>
  | DestroyVm int
  | StartVm int
  | StopVm int

text \<open>The words on the client's command line.\<close>

fun request_words :: "request \<Rightarrow> string \<times> string list" where
  "request_words (GetMemInfo v) = (''get-mem-info'', [''vid='' @ show_int v])"
| "request_words GetMemPool = (''get-mem-pool'', [])"
| "request_words GetVms = (''get-vms'', [])"
| "request_words GetNumNodes = (''get-num-nodes'', [])"
| "request_words (GetNodeInfo n) = (''get-node-info'', [''nid='' @ show_int n])"
| "request_words (AllocMem n v z) =
     (''alloc-mem'', [''nid='' @ show_int n, ''vid='' @ show_int v, ''size='' @ show_int z])"
| "request_words (FreeMem v i) = (''free-mem'', [''vid='' @ show_int v, ''memid='' @ show_int i])"
| "request_words (AttachMem i v n) =
     (''attach-mem'', [''memid='' @ show_int i, ''vid='' @ show_int v, ''nid='' @ show_int n])"
| "request_words (DetachMem i v) = (''detach-mem'', [''memid='' @ show_int i, ''vid='' @ show_int v])"
| "request_words (CreateVm v cores) =
     (''create-vm'', [''vid='' @ show_int v, ''coreset=['' @ cores @ '']''])"
| "request_words (DestroyVm v) = (''destroy-vm'', [''vid='' @ show_int v])"
| "request_words (StartVm v) = (''start-vm'', [''vid='' @ show_int v])"
| "request_words (StopVm v) = (''stop-vm'', [''vid='' @ show_int v])"

definition print_request :: "request \<Rightarrow> string" where
  "print_request r = spaced (fst (request_words r) # snd (request_words r))"

text \<open>What the server keeps in \<open>args\<close>.\<close>

definition request_args :: "request \<Rightarrow> string option \<Rightarrow> string option" where
  "request_args r old = (if snd (request_words r) = [] then old else Some (spaced (snd (request_words r))))"

definition is_index :: "int \<Rightarrow> bool" where
  "is_index i \<longleftrightarrow> 0 \<le> i \<and> i \<le> INT_MAX"

definition coreset_ok :: "string \<Rightarrow> bool" where
  "coreset_ok cores \<longleftrightarrow> length cores \<le> 900 \<and> list_all (\<lambda>c. c \<notin> {CHR '']'', newline, CHR 0x00}) cores"

fun request_ok :: "request \<Rightarrow> bool" where
  "request_ok (GetMemInfo v) = in_int v"
| "request_ok (GetNodeInfo n) = in_int n"
| "request_ok (AllocMem n v z) = (is_index n \<and> is_index v \<and> is_index z \<and> 0 < z)"
| "request_ok (FreeMem v i) = (is_index v \<and> is_index i)"
| "request_ok (AttachMem i v n) = (is_index i \<and> is_index v \<and> in_int n)"
| "request_ok (DetachMem i v) = (is_index i \<and> is_index v)"
| "request_ok (CreateVm v cores) = (is_index v \<and> coreset_ok cores)"
| "request_ok (DestroyVm v) = is_index v"
| "request_ok (StartVm v) = is_index v"
| "request_ok (StopVm v) = is_index v"
| "request_ok _ = True"

section \<open>What is done\<close>

definition vm_answer :: "string \<Rightarrow> int \<Rightarrow> int \<Rightarrow> string" where
  "vm_answer verb v ret = verb @ '' VM '' @ show_int v @ (if ret = 0 then '' success'' else '' failed'')"

definition create_answer :: "int \<Rightarrow> string \<Rightarrow> int \<Rightarrow> string" where
  "create_answer v cores ret = vm_answer ''Create'' v ret @ '', coreset: ['' @ cores @ '']''"

definition no_memory_answer :: "int \<Rightarrow> string" where
  "no_memory_answer i = ''Find not find memory '' @ show_int i @ [newline]"

fun perform :: "'w os \<Rightarrow> 'j json_lib \<Rightarrow> request \<Rightarrow> 'w rm_state \<Rightarrow> (string \<times> 'w rm_state) res" where
  "perform os js (GetMemInfo v) s =
     bindE (guest_agent_get_meminfo os js v (rm_agents s, rm_world s)) (\<lambda>(response, w).
     case response of
       None \<Rightarrow> Inr (''Failed to get results'' @ [newline], s\<lparr>rm_world := w\<rparr>)
     | Some bs \<Rightarrow> bindE (read_recv_buffer bs) (\<lambda>t. Inr (t, s\<lparr>rm_world := w\<rparr>)))"
| "perform os js GetMemPool s =
     bindE (rpc_malloc os s) (\<lambda>s. Inr (memory_pool_get_usage 1024 (rm_pool s), s))"
| "perform os js GetVms s =
     (let (ok, w) = os_malloc os 1024 (rm_world s); s = s\<lparr>rm_world := w\<rparr> in
      if ok then Inr (take 1023 (vms_listing (rm_vms s)), s)
      else Inr (''Failed to allocate response buffer'', s))"
| "perform os js GetNumNodes s =
     bindE (rpc_malloc os s) (\<lambda>s. Inr (take 1023 (show_int (memory_pool_get_num_devs (rm_pool s))), s))"
| "perform os js (GetNodeInfo n) s =
     bindE (rpc_malloc os s) (\<lambda>s.
     Inr (case memory_pool_get_node_info n (rm_pool s) of
            Some info \<Rightarrow> take 1023 (''nodeid='' @ show_int n @ '',tier-id='' @ show_int (info_tier_id info) @
                           '',dax-id='' @ show_int (info_dax_id info))
          | None \<Rightarrow> ''Node '' @ show_int n @ '' does not exist'', s))"
| "perform os js (AllocMem n v z) s =
     bindE (rpc_malloc os s) (\<lambda>s.
     bindE (vm_mngr_instance_alloc_mem os n v z s) (\<lambda>(ret, s).
     Inr (case ret of Some a \<Rightarrow> take 1023 (alloc_text a) | None \<Rightarrow> ''Allocate failed'', s)))"
| "perform os js (FreeMem v i) s =
     bindE (rpc_malloc os s) (\<lambda>s.
     bindE (vm_mngr_instance_free_mem v i s) (\<lambda>(ret, s).
     Inr (if ret = 0 then ''Release success'' else ''Release failed'', s)))"
| "perform os js (AttachMem i v n) s =
     bindE (rpc_malloc os s) (\<lambda>s.
     case vm_mngr_instance_get_mem v i (rm_vms s) of
       None \<Rightarrow> Inr (no_memory_answer i, s)
     | Some q \<Rightarrow>
         bindE (qemu_agent_hotplug_memory os js v (hotplug_request_of i n q) (rm_world s)) (\<lambda>(ret, w).
         Inr (if ret = 0 then ''Hotplug memory success'' else ''Hotplug memory failed'', s\<lparr>rm_world := w\<rparr>)))"
| "perform os js (DetachMem i v) s =
     bindE (rpc_malloc os s) (\<lambda>s.
     case vm_mngr_instance_get_mem v i (rm_vms s) of
       None \<Rightarrow> Inr (no_memory_answer i, s)
     | Some q \<Rightarrow>
         bindE (qemu_agent_hotunplug_memory os js v (hotunplug_request_of i) (rm_world s)) (\<lambda>(ret, w).
         Inr (if ret = 0 then ''Hotunplug memory success'' else ''Hotunplug memory failed'',
              s\<lparr>rm_world := w\<rparr>)))"
| "perform os js (CreateVm v cores) s =
     bindE (rpc_malloc os s) (\<lambda>s.
     bindE (vm_mngr_instance_create v cores (rm_vms s)) (\<lambda>(ret, m).
     Inr (create_answer v cores ret, s\<lparr>rm_vms := m\<rparr>)))"
| "perform os js (DestroyVm v) s =
     bindE (rpc_malloc os s) (\<lambda>s.
     bindE (vm_mngr_instance_destroy v s) (\<lambda>(ret, s). Inr (vm_answer ''Destroy'' v ret, s)))"
| "perform os js (StartVm v) s =
     bindE (rpc_malloc os s) (\<lambda>s.
     bindE (vm_mngr_instance_start os v s) (\<lambda>(ret, s). Inr (vm_answer ''Start'' v ret, s)))"
| "perform os js (StopVm v) s =
     bindE (rpc_malloc os s) (\<lambda>s.
     bindE (vm_mngr_instance_stop os v s) (\<lambda>(ret, s). Inr (vm_answer ''Stop'' v ret, s)))"

section \<open>Serving is performing\<close>

text \<open>A printed request is one the client sends, and the server splits it as it was put together.\<close>

lemma index_int: "is_index i \<Longrightarrow> in_int i"
  by (simp add: is_index_def in_int_nonneg)

lemma show_int_plain: "CHR 0x00 \<notin> set (show_int i)" "CHR 0x0A \<notin> set (show_int i)"
  using show_int_chars [of "CHR 0x00" i] show_int_chars [of "CHR 0x0A" i] by (auto simp: is_digit_def)

lemma request_args_plain:
  assumes "request_ok r"
  shows "list_all (\<lambda>a. CHR 0x00 \<notin> set a \<and> newline \<notin> set a) (snd (request_words r))"
    and "snd (request_words r) = [] \<or> hd (snd (request_words r)) \<noteq> [] \<and> \<not> is_space (hd (hd (snd (request_words r))))"
  using assms
  by (cases r; auto simp: show_int_plain newline_def coreset_ok_def list_all_iff is_space_def)+

lemma print_request_sent:
  assumes "request_ok r"
  shows "client_command (fst (request_words r)) (snd (request_words r)) = Inr (print_request r)"
    and "args_ok (snd (request_words r))" "length (print_request r) < 1024"
proof -
  show "args_ok (snd (request_words r))"
    using request_args_plain [OF assms] by (auto simp: args_ok_def split: list.split)
  show len: "length (print_request r) < 1024"
    using assms by (cases r) (auto simp: print_request_def coreset_ok_def dest!: index_int show_int_length)
  show "client_command (fst (request_words r)) (snd (request_words r)) = Inr (print_request r)"
    using len by (cases r) (simp_all add: client_command_def client_argc_def print_request_def snprintf_def BUFFER_SIZE_def)
qed

lemma rpc_text_take: "rpc_text t = RText (take 1023 t)"
  by (simp add: rpc_text_def snprintf_def BUFFER_SIZE_def)

lemma vm_answer_short: "in_int v \<Longrightarrow> length verb \<le> 8 \<Longrightarrow> length (vm_answer verb v ret) \<le> 32"
  using show_int_length [of v] by (auto simp: vm_answer_def)

lemma scan_create:
  assumes "in_int v" "coreset_ok cores"
  shows "sscanf (''vid='' @ show_int v @ '' coreset=['' @ cores @ '']'') fmt_create =
    Inr [SInt v, SStr (''['' @ cores @ '']'')]"
proof -
  have nl: "CHR 0x0A \<notin> set cores" using assms(2) by (auto simp: coreset_ok_def list_all_iff newline_def)
  then have "takeWhile (\<lambda>c. c \<noteq> CHR 0x0A) (cores @ '']'') = cores @ '']''"
    by (auto simp: takeWhile_eq_all_conv)
  then have rest: "sscanf (''['' @ cores @ '']'') [Rest 1024] = Inr [SStr (''['' @ cores @ '']'')]"
    using assms(2) by (simp add: coreset_ok_def)
  have d: "no_digit_first ('' coreset=['' @ cores @ '']'')" by (simp add: is_digit_def)
  have "sscanf ('' coreset='' @ ''['' @ cores @ '']'') ([Ws] @ lits ''coreset='' @ [Rest 1024]) =
      sscanf (''['' @ cores @ '']'') [Rest 1024]"
    using sscanf_Ws_lits [of "''coreset=''" "''['' @ cores @ '']''" "lits ''coreset='' @ [Rest 1024]"]
      sscanf_lits [of "''coreset=''" "''['' @ cores @ '']''" "[Rest 1024]"]
    by (simp add: is_space_def del: sscanf.simps)
  then show ?thesis
    using scan_field_int [OF assms(1) d, of "''vid=''" "[Ws] @ lits ''coreset='' @ [Rest 1024]"] rest
    by (simp add: fmt_create_def BUFFER_SIZE_def del: sscanf.simps)
qed

lemma bracketed_cores: "coreset_ok cores \<Longrightarrow> bracketed (''['' @ cores @ '']'') = Some cores"
proof -
  assume "coreset_ok cores"
  then have no: "CHR '']'' \<notin> set cores" by (auto simp: coreset_ok_def list_all_iff)
  then have "strchr (cores @ '']'') CHR '']'' = Some (length cores)"
    by (induction cores) auto
  then show ?thesis by (simp add: bracketed_def)
qed

lemma scan_nid: "in_int v \<Longrightarrow> sscanf (''nid='' @ show_int v) fmt_nid = Inr [SInt v]"
  using scan_field_int [of v "[]" "''nid=''" "[]"] by (simp add: fmt_nid_def del: sscanf.simps(2-6))

text \<open>One command after the other.\<close>

abbreviation replied :: "(reply \<times> 's) res \<Rightarrow> (string \<times> 's) res" where
  "replied m \<equiv> bindE m (\<lambda>(r, s). bindE (reply_text r) (\<lambda>t. Inr (t, s)))"

lemma reply_text_RText [simp]: "reply_text (RText t) = Inr t"
  by (simp add: reply_text_def)

lemma vm_answer_text:
  assumes "in_int v" "length verb \<le> 8"
  shows "rpc_text (verb @ '' VM '' @ show_int v @ (if ret = 0 then '' success'' else '' failed'')) =
    RText (vm_answer verb v ret)"
  using vm_answer_short [OF assms, of ret] unfolding rpc_text_take vm_answer_def [symmetric] by simp

lemma replied_vm_command:
  assumes "is_index v" "length verb \<le> 8"
  shows "replied (rpc_vm_command os verb op (''vid='' @ show_int v) s) =
    bindE (rpc_malloc os s) (\<lambda>s. bindE (op v s) (\<lambda>(ret, s). Inr (vm_answer verb v ret, s)))"
  unfolding rpc_vm_command_def scan_vid [OF index_int [OF assms(1)]]
  using assms(1) vm_answer_text [OF index_int [OF assms(1)] assms(2), simplified]
  by (simp add: is_index_def bindE_assoc case_prod_unfold)

lemma replied_simple:
  "replied (rpc_handle_get_mem_pool os s) = perform os js GetMemPool s"
  "replied (rpc_handle_get_num_nodes os s) = perform os js GetNumNodes s"
  "replied (rpc_handle_get_vms os s) = perform os js GetVms s"
  by (simp_all add: rpc_handle_get_mem_pool_def rpc_handle_get_num_nodes_def rpc_handle_get_vms_def Let_def
     bindE_assoc BUFFER_SIZE_def rpc_text_take dump_state_text split: prod.split)

lemma replied_get_mem_info:
  "in_int v \<Longrightarrow> replied (rpc_handle_get_mem_info os js (''vid='' @ show_int v) s) = perform os js (GetMemInfo v) s"
  unfolding rpc_handle_get_mem_info_def scan_vid
  by (auto simp: bindE_assoc reply_text_def intro!: bindE_cong split: option.split)

lemma replied_get_node_info:
  assumes "in_int n"
  shows "replied (rpc_handle_get_node_info os (''nid='' @ show_int n) s) = perform os js (GetNodeInfo n) s"
  unfolding rpc_handle_get_node_info_def scan_nid [OF assms]
  using show_int_length [OF assms] by (auto simp: bindE_assoc rpc_text_take intro!: bindE_cong split: option.split)

lemma replied_alloc:
  assumes "is_index n" "is_index v" "is_index z" "0 < z"
  shows "replied (rpc_handle_alloc_mem os (alloc_args n v z) s) = perform os js (AllocMem n v z) s"
  unfolding rpc_handle_alloc_mem_def scan_alloc_args [OF assms(1-3) [THEN index_int]]
  using assms by (auto simp: is_index_def bindE_assoc rpc_text_take intro!: bindE_cong split: option.split)

lemma replied_free:
  assumes "is_index v" "is_index i"
  shows "replied (rpc_handle_free_mem os (free_args v i) s) = perform os js (FreeMem v i) s"
  unfolding rpc_handle_free_mem_def scan_free_args [OF assms [THEN index_int]]
  using assms by (auto simp: is_index_def bindE_assoc rpc_text_take intro!: bindE_cong)

lemma no_memory_text: "in_int i \<Longrightarrow> memory_not_found i = RText (no_memory_answer i)"
  using show_int_length [of i] by (simp add: memory_not_found_def no_memory_answer_def rpc_text_take)

lemma replied_attach:
  assumes "is_index i" "is_index v" "in_int n"
  shows "replied (rpc_handle_attach_mem os js (attach_args i v n) s) = perform os js (AttachMem i v n) s"
  unfolding rpc_handle_attach_mem_def scan_attach_args [OF assms(1,2) [THEN index_int] assms(3)]
  using assms no_memory_text [OF index_int [OF assms(1)]]
  by (auto simp: is_index_def bindE_assoc rpc_text_take intro!: bindE_cong split: option.split)

lemma replied_detach:
  assumes "is_index i" "is_index v"
  shows "replied (rpc_handle_detach_mem os js (detach_args i v) s) = perform os js (DetachMem i v) s"
  unfolding rpc_handle_detach_mem_def scan_detach_args [OF assms [THEN index_int]]
  using assms no_memory_text [OF index_int [OF assms(1)]]
  by (auto simp: is_index_def bindE_assoc rpc_text_take intro!: bindE_cong split: option.split)

lemma create_text:
  assumes "in_int v" "coreset_ok cores"
  shows "rpc_text (''Create VM '' @ show_int v @ (if ret = 0 then '' success'' else '' failed'') @
    '', coreset: ['' @ cores @ '']'') = RText (create_answer v cores ret)"
proof -
  have "length (create_answer v cores ret) \<le> 1023"
    using vm_answer_short [OF assms(1), of "''Create''" ret] assms(2) by (simp add: create_answer_def coreset_ok_def)
  moreover have "''Create VM '' @ show_int v @ (if ret = 0 then '' success'' else '' failed'') @
    '', coreset: ['' @ cores @ '']'' = create_answer v cores ret" by (simp add: create_answer_def vm_answer_def)
  ultimately show ?thesis by (simp add: rpc_text_take)
qed

lemma replied_create:
  assumes "is_index v" "coreset_ok cores"
  shows "replied (rpc_handle_create_vm os (''vid='' @ show_int v @ '' coreset=['' @ cores @ '']'') s) =
    perform os js (CreateVm v cores) s"
  unfolding rpc_handle_create_vm_def scan_create [OF index_int [OF assms(1)] assms(2)]
  using assms bracketed_cores [OF assms(2)] create_text [OF index_int [OF assms(1)] assms(2), simplified]
  by (simp add: is_index_def bindE_assoc case_prod_unfold)

lemma dispatch_perform:
  assumes "request_ok r"
  shows "replied (rpc_dispatch os js (fst (request_words r)) (request_args r old) s) = perform os js r s"
proof (cases r)
  case (GetMemInfo v)
  with assms replied_get_mem_info [of v os js s] show ?thesis
    by (simp add: rpc_dispatch_def with_args_def request_args_def)
next
  case (GetNodeInfo n)
  with assms replied_get_node_info [of n os s js] show ?thesis
    by (simp add: rpc_dispatch_def with_args_def request_args_def)
next
  case (AllocMem n v z)
  then have "spaced (snd (request_words r)) = alloc_args n v z" by (simp add: alloc_args_def)
  with AllocMem assms replied_alloc [of n v z os s js] show ?thesis
    by (simp add: rpc_dispatch_def with_args_def request_args_def)
next
  case (FreeMem v i)
  then have "spaced (snd (request_words r)) = free_args v i" by (simp add: free_args_def)
  with FreeMem assms replied_free [of v i os s js] show ?thesis
    by (simp add: rpc_dispatch_def with_args_def request_args_def)
next
  case (AttachMem i v n)
  then have "spaced (snd (request_words r)) = attach_args i v n" by (simp add: attach_args_def)
  with AttachMem assms replied_attach [of i v n os js s] show ?thesis
    by (simp add: rpc_dispatch_def with_args_def request_args_def)
next
  case (DetachMem i v)
  then have "spaced (snd (request_words r)) = detach_args i v" by (simp add: detach_args_def)
  with DetachMem assms replied_detach [of i v os js s] show ?thesis
    by (simp add: rpc_dispatch_def with_args_def request_args_def)
next
  case (CreateVm v cores)
  with assms replied_create [of v cores os s js] show ?thesis
    by (simp add: rpc_dispatch_def with_args_def request_args_def)
next
  case (DestroyVm v)
  with assms replied_vm_command [of v "''Destroy''" os vm_mngr_instance_destroy s] show ?thesis
    by (simp add: rpc_dispatch_def with_args_def request_args_def rpc_handle_destroy_vm_def)
next
  case (StartVm v)
  with assms replied_vm_command [of v "''Start''" os "vm_mngr_instance_start os" s] show ?thesis
    by (simp add: rpc_dispatch_def with_args_def request_args_def rpc_handle_start_vm_def)
next
  case (StopVm v)
  with assms replied_vm_command [of v "''Stop''" os "vm_mngr_instance_stop os" s] show ?thesis
    by (simp add: rpc_dispatch_def with_args_def request_args_def rpc_handle_stop_vm_def)
qed (simp_all add: rpc_dispatch_def replied_simple [of _ _ js, symmetric] del: perform.simps)

lemma serve_request:
  assumes "request_ok r"
  shows "serve os js (print_request r) old s =
    bindE (perform os js r s) (\<lambda>(t, s). Inr (t, request_args r old, s))"
proof -
  note p = print_request_sent [OF assms]
  have "scan_request (print_request r) old = Inr (Some (fst (request_words r), request_args r old))"
    using client_scanned [OF p(1) _ p(2), of old] p(3) by (auto simp: print_request_def request_args_def)
  then show ?thesis
    unfolding serve_def dispatch_perform [OF assms, of os js old s, symmetric]
    by (simp add: bindE_assoc case_prod_unfold)
qed

end
