(* ===== verification/ProtocolCorrect.thy ===== *)
theory ProtocolCorrect
  imports Protocol
begin

text \<open>
  What the server promises for a request: the relation \<open>answered\<close> between the abstract state before,
  the answer, and the abstract state after; and the conditions under which it answers at all.
\<close>

section \<open>What an answer says\<close>

text \<open>The abstract state is that of \<open>VmSpec\<close>: which VMs exist, which run, which memory they hold.\<close>

fun answered :: "request \<Rightarrow> vm_spec \<Rightarrow> string \<Rightarrow> vm_spec \<Rightarrow> bool" where
  "answered (CreateVm v cores) a t b \<longleftrightarrow>
     (let ok = v \<notin> sp_vms a \<and> card (sp_vms a) < 16
      in t = create_answer v cores (if ok then 0 else -1) \<and>
         b = (if ok then a\<lparr>sp_vms := insert v (sp_vms a)\<rparr> else a))"
| "answered (DestroyVm v) a t b \<longleftrightarrow>
     (let ok = v \<in> sp_vms a \<and> v \<notin> sp_running a
      in t = vm_answer ''Destroy'' v (if ok then 0 else -1) \<and>
         b = (if ok then a\<lparr>sp_vms := sp_vms a - {v},
                           sp_grants := (\<lambda>k. if fst k = v then None else sp_grants a k)\<rparr> else a))"
| "answered (StartVm v) a t b \<longleftrightarrow>
     t = vm_answer ''Start'' v (if v \<in> sp_running b then 0 else -1) \<and>
     (b = a \<or> v \<in> sp_vms a \<and> b = a\<lparr>sp_running := insert v (sp_running a)\<rparr>)"
| "answered (StopVm v) a t b \<longleftrightarrow>
     t = vm_answer ''Stop'' v (if v \<in> sp_vms a then 0 else -1) \<and>
     b = a\<lparr>sp_running := sp_running a - {v}\<rparr>"
| "answered (AllocMem n v z) a t b \<longleftrightarrow>
     t = ''Allocate failed'' \<and> b = a \<or>
     (\<exists>i q. v \<in> sp_vms a \<and> sp_grants a (v, i) = None \<and> t = grant_text i q \<and>
            req_node_id q = n \<and> req_size_mb q = z \<and>
            (\<forall>k r. sp_grants a k = Some r \<longrightarrow> grants_apart q r) \<and>
            b = a\<lparr>sp_grants := (sp_grants a)((v, i) \<mapsto> q)\<rparr>)"
| "answered (FreeMem v i) a t b \<longleftrightarrow>
     t = (if sp_grants a (v, i) = None then ''Release failed'' else ''Release success'') \<and>
     b = a\<lparr>sp_grants := (sp_grants a)((v, i) := None)\<rparr>"
| "answered (AttachMem i v n) a t b \<longleftrightarrow>
     b = a \<and> (if sp_grants a (v, i) = None then t = no_memory_answer i
               else t \<in> {''Hotplug memory success'', ''Hotplug memory failed''})"
| "answered (DetachMem i v) a t b \<longleftrightarrow>
     b = a \<and> (if sp_grants a (v, i) = None then t = no_memory_answer i
               else t \<in> {''Hotunplug memory success'', ''Hotunplug memory failed''})"
| "answered _ a t b \<longleftrightarrow> b = a"

lemma malloc_Inr: "rpc_malloc os s = Inr s1 \<Longrightarrow> \<exists>w. s1 = s\<lparr>rm_world := w\<rparr>"
  by (auto simp: rpc_malloc_def bindE_eq_Inr Let_def split: prod.splits)

lemma vm_spec_of_upd: "sp_vms (vm_spec_of s') = sp_vms a \<Longrightarrow> sp_running (vm_spec_of s') = sp_running a \<Longrightarrow>
  sp_grants (vm_spec_of s') = sp_grants a \<Longrightarrow> vm_spec_of s' = a"
  by simp

lemma create_answered:
  assumes inv: "rm_inv s" and run: "vm_mngr_instance_create v cores (rm_vms s) = Inr (r, m)"
  shows "answered (CreateVm v cores) (vm_spec_of s) (create_answer v cores r) (vm_spec_of (s\<lparr>rm_vms := m\<rparr>))"
proof -
  have wf: "mngr_wf (rm_vms s)" using inv by (simp add: rm_inv_def)
  note c = create_correct [OF wf run] and n = count_vms(2) [OF wf] mngr_wf_count [OF wf]
  have "mngr_count (rm_vms s) = 16 \<longleftrightarrow> \<not> card (sp_vms (vm_spec_of s)) < 16"
    using n by (auto simp: MAX_NUM_VM_def)
  with c show ?thesis
    by (auto simp: MAX_NUM_VM_def Let_def vm_spec_of_def split: if_splits)
qed

lemma destroy_answered:
  assumes inv: "rm_inv s" and run: "vm_mngr_instance_destroy v s = Inr (r, s')"
  shows "answered (DestroyVm v) (vm_spec_of s) (vm_answer ''Destroy'' v r) (vm_spec_of s')"
proof (cases "vm_mngr_check_exit v (rm_vms s) \<and> \<not> vm_running (rm_vms s) v")
  case False
  with destroy_correct [OF inv, of v] run show ?thesis by auto
next
  case True
  with destroy_spec [OF inv run True] show ?thesis by simp
qed

lemma start_answered:
  assumes inv: "rm_inv s" and run: "vm_mngr_instance_start os v s = Inr (r, s')"
  shows "answered (StartVm v) (vm_spec_of s) (vm_answer ''Start'' v r) (vm_spec_of s')"
  using start_spec [OF assms] start_inv [OF assms] by auto

lemma stop_answered:
  assumes inv: "rm_inv s" and run: "vm_mngr_instance_stop os v s = Inr (r, s')"
  shows "answered (StopVm v) (vm_spec_of s) (vm_answer ''Stop'' v r) (vm_spec_of s')"
  using stop_spec [OF assms] stop_inv [OF assms] by simp

lemma free_answered:
  assumes inv: "rm_inv s" and run: "vm_mngr_instance_free_mem v i s = Inr (r, s')"
  shows "answered (FreeMem v i) (vm_spec_of s) (if r = 0 then ''Release success'' else ''Release failed'')
    (vm_spec_of s')"
  using free_spec [OF assms] by simp

lemma alloc_granted:
  assumes inv: "rm_inv s" and z: "0 < z" "z \<le> INT_MAX"
    and run: "vm_mngr_instance_alloc_mem os n v z s = Inr (Some a, s')"
  shows "\<exists>q. take 1023 (alloc_text a) = grant_text (vmr_memdev_idx a) q \<and> req_node_id q = n \<and> req_size_mb q = z \<and>
    v \<in> sp_vms (vm_spec_of s) \<and> sp_grants (vm_spec_of s) (v, vmr_memdev_idx a) = None \<and>
    (\<forall>k r. sp_grants (vm_spec_of s) k = Some r \<longrightarrow> grants_apart q r) \<and>
    vm_spec_of s' = (vm_spec_of s)\<lparr>sp_grants := (sp_grants (vm_spec_of s))((v, vmr_memdev_idx a) \<mapsto> q)\<rparr> \<and>
    memory_pool_allocate_segments n v z (rm_pool s) = Inr (Some q, rm_pool s')"
proof -
  from alloc_spec [OF assms] obtain q where q: "v \<in> sp_vms (vm_spec_of s)"
    "sp_grants (vm_spec_of s) (v, vmr_memdev_idx a) = None"
    "\<forall>k r. sp_grants (vm_spec_of s) k = Some r \<longrightarrow> grants_apart q r"
    "vm_spec_of s' = (vm_spec_of s)\<lparr>sp_grants := (sp_grants (vm_spec_of s))((v, vmr_memdev_idx a) \<mapsto> q)\<rparr>"
    and al: "memory_pool_allocate_segments n v z (rm_pool s) = Inr (Some q, rm_pool s')"
    and a: "vmr_dev_path a = take 63 (req_dev_path q)" "vmr_offset_mb a = req_offset_mb q"
      "vmr_size_mb a = req_size_mb q" "vmr_align_mb a = req_align_mb q"
      "0 \<le> vmr_memdev_idx a" "vmr_memdev_idx a < INT_MAX" by auto
  have "pool_wf (rm_pool s)" using inv by (simp add: rm_inv_def ledger_inv_def)
  note f = granted_fields [OF this z al]
  have eq: "alloc_text a = grant_text (vmr_memdev_idx a) q" using f a by (simp add: alloc_text_def grant_text_def)
  have "in_int z" "in_int (vmr_memdev_idx a)" using z a(5,6) by (auto intro: in_int_nonneg)
  then have "take 1023 (grant_text (vmr_memdev_idx a) q) = grant_text (vmr_memdev_idx a) q"
    using rpc_text_grant [of "vmr_memdev_idx a" q] f by (simp add: rpc_text_take)
  with q f al eq show ?thesis by metis
qed

lemma alloc_answered:
  assumes inv: "rm_inv s" and z: "0 < z" "z \<le> INT_MAX"
    and run: "vm_mngr_instance_alloc_mem os n v z s = Inr (ret, s')"
  shows "answered (AllocMem n v z) (vm_spec_of s)
    (case ret of Some a \<Rightarrow> take 1023 (alloc_text a) | None \<Rightarrow> ''Allocate failed'') (vm_spec_of s')"
proof (cases ret)
  case None
  with alloc_spec [OF assms] obtain w where "s' = s\<lparr>rm_world := w\<rparr>" by auto
  with None show ?thesis by simp
next
  case (Some a)
  with alloc_granted [OF inv z run [unfolded Some]] show ?thesis by auto
qed

lemma malloc_op:
  assumes "bindE (rpc_malloc os s) (\<lambda>s. bindE (op s) (\<lambda>(ret, s). Inr (f ret, s))) = Inr (t, s')" "rm_inv s"
  shows "\<exists>w ret. op (s\<lparr>rm_world := w\<rparr>) = Inr (ret, s') \<and> t = f ret \<and> rm_inv (s\<lparr>rm_world := w\<rparr>)"
  using assms by (auto simp: bindE_eq_Inr dest!: malloc_Inr)

lemma perform_answered:
  assumes inv: "rm_inv s" and ok: "request_ok r" and run: "perform os js r s = Inr (t, s')"
  shows "answered r (vm_spec_of s) t (vm_spec_of s')"
proof (cases r)
  case (AllocMem n v z)
  from malloc_op [OF run [unfolded AllocMem perform.simps] inv] obtain w ret where
    "vm_mngr_instance_alloc_mem os n v z (s\<lparr>rm_world := w\<rparr>) = Inr (ret, s')"
    and t: "t = (case ret of Some a \<Rightarrow> take 1023 (alloc_text a) | None \<Rightarrow> ''Allocate failed'')"
    and "rm_inv (s\<lparr>rm_world := w\<rparr>)" by blast
  from alloc_answered [OF this(3) _ _ this(1)] ok AllocMem show ?thesis
    unfolding t by (simp add: is_index_def del: answered.simps)
next
  case (FreeMem v i)
  from malloc_op [OF run [unfolded FreeMem perform.simps] inv] free_answered
  have "\<exists>w. answered r (vm_spec_of (s\<lparr>rm_world := w\<rparr>)) t (vm_spec_of s')" unfolding FreeMem by blast
  then show ?thesis by simp
next
  case (CreateVm v cores)
  with run obtain w ret m where "t = create_answer v cores ret" "s' = s\<lparr>rm_world := w, rm_vms := m\<rparr>"
    "vm_mngr_instance_create v cores (rm_vms s) = Inr (ret, m)"
    by (auto simp: bindE_eq_Inr dest!: malloc_Inr)
  with create_answered [OF inv, of v cores ret m] CreateVm show ?thesis
    by (simp add: vm_spec_of_def del: answered.simps)
next
  case (DestroyVm v)
  from malloc_op [OF run [unfolded DestroyVm perform.simps] inv] destroy_answered
  have "\<exists>w. answered r (vm_spec_of (s\<lparr>rm_world := w\<rparr>)) t (vm_spec_of s')" unfolding DestroyVm by blast
  then show ?thesis by simp
next
  case (StartVm v)
  from malloc_op [OF run [unfolded StartVm perform.simps] inv] start_answered
  have "\<exists>w. answered r (vm_spec_of (s\<lparr>rm_world := w\<rparr>)) t (vm_spec_of s')" unfolding StartVm by blast
  then show ?thesis by simp
next
  case (StopVm v)
  from malloc_op [OF run [unfolded StopVm perform.simps] inv] stop_answered
  have "\<exists>w. answered r (vm_spec_of (s\<lparr>rm_world := w\<rparr>)) t (vm_spec_of s')" unfolding StopVm by blast
  then show ?thesis by simp
qed (use run in \<open>auto simp: bindE_eq_Inr Let_def vm_ledger_def dest!: malloc_Inr split: option.splits prod.splits if_splits\<close>)

section \<open>When the server answers\<close>

text \<open>The environment does its part: memory, counters and JSON objects are to be had.\<close>

definition env_ok :: "'w os \<Rightarrow> 'j json_lib \<Rightarrow> bool" where
  "env_ok os js \<longleftrightarrow> (\<forall>n w. fst (os_malloc os n w)) \<and> perf_opens_ok os \<and> perf_reads_ok os \<and>
     perf_closes_ok os \<and> json_object_new_object js \<noteq> None"

text \<open>The cores of a VM can be opened: there are some, and none is negative.\<close>

definition sane_cores :: "'w rm_state \<Rightarrow> int \<Rightarrow> bool" where
  "sane_cores s v =
     (case vm_mngr_get_instance v (rm_vms s) of
        None \<Rightarrow> True
      | Some k \<Rightarrow>
          (case core_ids (VM_core_set (vm_at s k)) of
             Inl e \<Rightarrow> True
           | Inr ids \<Rightarrow> ids \<noteq> [] \<and> list_all (\<lambda>c. 0 \<le> c) ids))"

text \<open>The agents' answers leave room for the terminator in the 1024 byte buffer.\<close>

definition answers_short :: "'w os \<Rightarrow> bool" where
  "answers_short os \<longleftrightarrow> (\<forall>fd w bs. fst (sys_recv os fd 1024 w) = Some bs \<longrightarrow> length bs < 1024)"

text \<open>The agent behind a descriptor puts a NUL into what it answers.\<close>

definition agent_ends :: "'w os \<Rightarrow> int \<Rightarrow> bool" where
  "agent_ends os fd \<longleftrightarrow> (\<forall>w. \<exists>bs. fst (sys_recv os fd 1024 w) = Some bs \<and> CHR 0x00 \<in> set bs)"

text \<open>What a request needs beyond that, in the present state: the answer to \<open>get-mem-info\<close> is read where the
  VM's agent, if it is connected, put it.\<close>

fun servable :: "'w os \<Rightarrow> request \<Rightarrow> 'w rm_state \<Rightarrow> bool" where
  "servable os (GetMemInfo v) s \<longleftrightarrow> 0 \<le> v \<and> v < 16 \<and>
     (ga_initialized (guest_agents (rm_agents s) v) \<longrightarrow> agent_ends os (ga_agent_fd (guest_agents (rm_agents s) v)))"
| "servable os (CreateVm v cores) s \<longleftrightarrow>
     (case core_ids (take 255 cores) of Inl e \<Rightarrow> False | Inr ids \<Rightarrow> int (length ids) \<le> INT_MAX)"
| "servable os (StartVm v) s \<longleftrightarrow> v < 16 \<and> sane_cores s v"
| "servable os (AllocMem n v z) s \<longleftrightarrow>
     (case vm_mngr_get_instance v (rm_vms s) of None \<Rightarrow> True | Some k \<Rightarrow> VM_memdev_counter (vm_at s k) < INT_MAX)"
| "servable os (AttachMem i v n) s \<longleftrightarrow> answers_short os"
| "servable os (DetachMem i v) s \<longleftrightarrow> answers_short os"
| "servable os _ s \<longleftrightarrow> True"

lemma qmp_execute_total:
  assumes "answers_short os"
  shows "\<exists>r w'. qmp_execute os js v (Inr cmd) w = Inr (r, w')"
proof (cases "send_qemu_cmd os js v (json_object_to_json_string js cmd) w")
  case (Inl e)
  then obtain fd w0 bs where "fst (sys_recv os fd 1024 w0) = Some bs" "length bs = 1024"
    unfolding send_qemu_cmd_fault BUFFER_SIZE_def by (auto dest: arg_cong [where f = fst])
  with assms have "length bs < 1024" unfolding answers_short_def by blast
  with \<open>length bs = 1024\<close> show ?thesis by simp
next
  case (Inr x)
  then show ?thesis by (cases x) (auto simp: qmp_execute_def split: option.split)
qed

lemma qmp_command_total: "json_object_new_object js \<noteq> None \<Longrightarrow> \<exists>c. qmp_command js name (json_members js kvs) = Inr c"
  by (auto simp: qmp_command_def json_members_def)

lemma hotplug_total:
  assumes "answers_short os" "json_object_new_object js \<noteq> None"
  shows "\<exists>r w'. qemu_agent_hotplug_memory os js v req w = Inr (r, w')"
proof -
  obtain c d where c: "create_object_cmd js req = Inr c" "add_device_cmd js req = Inr d"
    unfolding create_object_cmd_def add_device_cmd_def using qmp_command_total [OF assms(2)] by meson
  obtain r w1 where "qmp_execute os js v (Inr c) w = Inr (r, w1)"
    using qmp_execute_total [OF assms(1), of js v c w] by blast
  moreover obtain r' w2 where "qmp_execute os js v (Inr d) w1 = Inr (r', w2)"
    using qmp_execute_total [OF assms(1), of js v d w1] by blast
  ultimately show ?thesis
    by (simp add: qemu_agent_hotplug_memory_def qemu_agent_create_object_def qemu_agent_add_device_def c)
qed

lemma hotunplug_total:
  assumes "answers_short os" "json_object_new_object js \<noteq> None"
  shows "\<exists>r w'. qemu_agent_hotunplug_memory os js v req w = Inr (r, w')"
proof -
  obtain c d where c: "del_device_cmd js req = Inr c" "free_object_cmd js req = Inr d"
    unfolding del_device_cmd_def free_object_cmd_def using qmp_command_total [OF assms(2)] by meson
  obtain r w1 where "qmp_execute os js v (Inr c) w = Inr (r, w1)"
    using qmp_execute_total [OF assms(1), of js v c w] by blast
  moreover obtain r' w2 where "qmp_execute os js v (Inr d) (os_usleep os 3000000 w1) = Inr (r', w2)"
    using qmp_execute_total [OF assms(1), of js v d "os_usleep os 3000000 w1"] by blast
  ultimately show ?thesis
    by (simp add: qemu_agent_hotunplug_memory_def qemu_agent_del_device_def qemu_agent_free_object_def c)
qed

lemma get_meminfo_total:
  assumes "0 \<le> v" "v < 16" "json_object_new_object js \<noteq> None"
    and ends: "ga_initialized (guest_agents m v) \<Longrightarrow> agent_ends os (ga_agent_fd (guest_agents m v))"
  shows "\<exists>r w. guest_agent_get_meminfo os js v (m, w0) = Inr (r, w) \<and>
    (case r of None \<Rightarrow> True | Some bs \<Rightarrow> CHR 0x00 \<in> set bs)"
proof -
  obtain cmd where cmd: "guest_agent_get_meminfo os js v (m, w0) = send_guest_cmd os v cmd (m, w0)"
    using assms(3) by (rule meminfo_sent)
  have a: "agent_get m v = Inr (guest_agents m v)"
    using assms(1,2) by (simp add: agent_get_def arr_get_def MAX_NUM_VM_def)
  show ?thesis
  proof (cases "ga_initialized (guest_agents m v)")
    case False
    then show ?thesis by (simp add: cmd send_guest_cmd_def a)
  next
    case True
    have "\<exists>bs w'. sys_recv os (ga_agent_fd (guest_agents m v)) (nat BUFFER_SIZE) w = (Some bs, w') \<and> CHR 0x00 \<in> set bs" for w
      using ends [OF True] by (auto simp: agent_ends_def BUFFER_SIZE_def) (metis prod.collapse)
    with True show ?thesis
      by (simp add: cmd send_guest_cmd_def a Let_def case_prod_unfold split: option.split)
        (metis fst_conv option.inject)
  qed
qed

text \<open>Most requests start by allocating the buffer of their answer.\<close>

lemma malloc_total:
  assumes "env_ok os js" "\<And>w. \<exists>t s'. f (s\<lparr>rm_world := w\<rparr>) = Inr (t, s')"
  shows "\<exists>t s'. bindE (rpc_malloc os s) f = Inr (t, s')"
proof -
  have "\<And>n w. fst (os_malloc os n w)" using assms(1) by (simp add: env_ok_def)
  from rpc_malloc_ok [OF this, of s] assms(2) show ?thesis by simp
qed

lemma bind_total: "\<exists>x s. m = Inr (x, s) \<Longrightarrow> \<exists>t s'. bindE m (\<lambda>(x, s). Inr (f x s, g x s)) = Inr (t, s')"
  by (elim exE) simp

lemma alloc_step:
  assumes "rm_inv s" "request_ok (AllocMem n v z)" "servable os (AllocMem n v z) s"
  shows "\<exists>ret s'. vm_mngr_instance_alloc_mem os n v z (s\<lparr>rm_world := w\<rparr>) = Inr (ret, s')"
proof -
  have inv: "rm_inv (s\<lparr>rm_world := w\<rparr>)" using assms(1) by simp
  have z: "0 < z" "z \<le> INT_MAX" using assms(2) by (simp_all add: is_index_def)
  have room: "VM_memdev_counter (vm_at (s\<lparr>rm_world := w\<rparr>) k) < INT_MAX"
    if "vm_mngr_get_instance v (rm_vms (s\<lparr>rm_world := w\<rparr>)) = Some k" for k
    using that assms(3) by (simp add: vm_at_def)
  show ?thesis using alloc_mem_correct [OF inv z, of v os n] room by blast
qed

lemma create_step:
  assumes "rm_inv s" "servable os (CreateVm v cores) s"
  shows "\<exists>ret m. vm_mngr_instance_create v cores (rm_vms s) = Inr (ret, m)"
proof -
  have wf: "mngr_wf (rm_vms s)" using assms(1) by (simp add: rm_inv_def)
  from assms(2) obtain ids where "core_ids (take 255 cores) = Inr ids" "int (length ids) \<le> INT_MAX"
    by (auto split: sum.splits)
  with create_total [OF wf, of cores ids v] show ?thesis by (auto simp: snprintf_def CORE_SET_LEN_def)
qed

lemma start_step:
  assumes "rm_inv s" "env_ok os js" "request_ok (StartVm v)" "servable os (StartVm v) s"
  shows "\<exists>ret s'. vm_mngr_instance_start os v (s\<lparr>rm_world := w\<rparr>) = Inr (ret, s')"
proof -
  have inv: "rm_inv (s\<lparr>rm_world := w\<rparr>)" using assms(1) by simp
  have perf: "perf_opens_ok os" "perf_reads_ok os" "perf_closes_ok os" using assms(2) by (simp_all add: env_ok_def)
  have v: "0 \<le> v" "v < MAX_NUM_VM" using assms(3,4) by (simp_all add: is_index_def MAX_NUM_VM_def)
  have "ids \<noteq> [] \<and> (\<forall>c \<in> set ids. 0 \<le> c)"
    if "vm_mngr_get_instance v (rm_vms (s\<lparr>rm_world := w\<rparr>)) = Some k"
      "core_ids (VM_core_set (vm_at (s\<lparr>rm_world := w\<rparr>) k)) = Inr ids" for k ids
    using assms(4) that by (simp add: sane_cores_def list_all_iff vm_at_def)
  then show ?thesis by (intro start_total [OF inv perf v]) blast
qed

lemma perform_total:
  assumes inv: "rm_inv s" and env: "env_ok os js" and ok: "request_ok r" and can: "servable os r s"
  shows "\<exists>t s'. perform os js r s = Inr (t, s')"
proof -
  have inv': "rm_inv (s\<lparr>rm_world := w\<rparr>)" for w using inv by simp
  have js: "json_object_new_object js \<noteq> None" and mal: "\<And>n w. fst (os_malloc os n w)"
    and perf: "perf_reads_ok os" "perf_closes_ok os" using env by (simp_all add: env_ok_def)
  note run = malloc_total [OF env]
  show ?thesis
  proof (cases r)
    case (GetMemInfo v)
    with can get_meminfo_total [of v js "rm_agents s" os "rm_world s"] js obtain a w where
      "guest_agent_get_meminfo os js v (rm_agents s, rm_world s) = Inr (a, w)"
      "case a of None \<Rightarrow> True | Some bs \<Rightarrow> CHR 0x00 \<in> set bs" by auto
    with GetMemInfo show ?thesis by (cases a) (simp_all add: read_recv_buffer_def)
  next
    case (AllocMem n v z)
    with ok can show ?thesis unfolding AllocMem perform.simps by (intro run bind_total alloc_step [OF inv]) simp_all
  next
    case (FreeMem v i)
    have "\<exists>ret s'. vm_mngr_instance_free_mem v i (s\<lparr>rm_world := w\<rparr>) = Inr (ret, s')" for w
      using free_mem_correct [OF inv', of v i w] by (auto split: option.splits)
    then show ?thesis unfolding FreeMem perform.simps by (intro run bind_total)
  next
    case (AttachMem i v n)
    then have "answers_short os" using can by simp
    then show ?thesis unfolding AttachMem perform.simps
      by (intro run) (auto split: option.split intro: bind_total hotplug_total [OF _ js])
  next
    case (DetachMem i v)
    then have "answers_short os" using can by simp
    then show ?thesis unfolding DetachMem perform.simps
      by (intro run) (auto split: option.split intro: bind_total hotunplug_total [OF _ js])
  next
    case (CreateVm v cores)
    with can have "\<exists>ret m. vm_mngr_instance_create v cores (rm_vms (s\<lparr>rm_world := w\<rparr>)) = Inr (ret, m)" for w
      using create_step [OF inv, of os v cores] by simp
    then show ?thesis unfolding CreateVm perform.simps by (intro run bind_total)
  next
    case (DestroyVm v)
    have "\<exists>ret s'. vm_mngr_instance_destroy v (s\<lparr>rm_world := w\<rparr>) = Inr (ret, s')" for w
      using destroy_correct [OF inv', of v w] by blast
    then show ?thesis unfolding DestroyVm perform.simps by (intro run bind_total)
  next
    case (StartVm v)
    with ok can show ?thesis unfolding StartVm perform.simps by (intro run bind_total start_step [OF inv env]) simp_all
  next
    case (StopVm v)
    show ?thesis unfolding StopVm perform.simps by (intro run bind_total stop_total [OF inv' perf])
  qed (use rpc_malloc_ok [OF mal, of s] mal in \<open>auto simp: Let_def split: prod.split\<close>)
qed

section \<open>The client\<close>

text \<open>What the kernel of the client does when the server answers \<open>t\<close> to the message \<open>m\<close>: the socket is to
  be had, and after \<open>m\<close> was sent whole the answer is received whole.\<close>

definition delivers :: "'c os \<Rightarrow> string \<Rightarrow> string \<Rightarrow> 'c \<Rightarrow> bool" where
  "delivers cli m t w \<longleftrightarrow>
     (let (fd, w) = os_socket cli w; (r, w) = os_connect cli fd (take 107 SERVER_SOCKET) w;
          (n, w) = os_send cli fd m w
      in 0 \<le> fd \<and> 0 \<le> r \<and> fst (sys_recv cli fd (nat BUFFER_SIZE) w) = Some t)"

lemma client_run:
  assumes cmd: "client_command cmd args = Inr m" and del: "delivers cli m t w" and t: "request_text (Some t) = Inr u"
  shows "\<exists>fd w1. client_main cli cli_js (prog # cmd # args) w =
    Inr (0, snd (os_close cli fd (print_results cli cli_js u w1)))"
proof -
  obtain fd w1 where s: "os_socket cli w = (fd, w1)" by fastforce
  obtain r w2 where c: "os_connect cli fd (take 107 SERVER_SOCKET) w1 = (r, w2)" by fastforce
  obtain n w3 where d: "os_send cli fd m w2 = (n, w3)" by fastforce
  obtain w4 where a: "sys_recv cli fd (nat BUFFER_SIZE) w3 = (Some t, w4)" and ok: "0 \<le> fd" "0 \<le> r"
    using del by (auto simp: delivers_def s c d) (metis fst_conv surj_pair)
  have "client_main cli cli_js (prog # cmd # args) w = Inr (0, snd (os_close cli fd (print_results cli cli_js u w4)))"
    using ok by (simp add: client_main_def cmd send_command_def s c d a t)
  then show ?thesis by blast
qed

end
