(* ===== verification/Accounting.thy ===== *)
theory Accounting
  imports ProtocolCorrect
begin

text \<open>
  The books of the memory pool.  The pool counts the used segments of each DAX device; the VM
  manager holds the grants.  The locale \<open>metered_allocator\<close> extends the allocator's contract by a meter
  for each region and shows that the meter agrees with the ledger: it reads what the grants of the
  region amount to.  Its interpretation on the code's counter \<open>used_segments\<close> makes the figures
  that \<open>memory_pool_get_usage\<close> prints the sums of the grants that the VMs hold.
\<close>

section \<open>An allocator with meters\<close>

locale metered_allocator =
  segment_allocator winv own spn valid alloc release release_vm
  for winv :: "'p \<Rightarrow> bool"
    and own :: "'p \<Rightarrow> 'x \<Rightarrow> int option"
    and spn :: "'p \<Rightarrow> 'r \<Rightarrow> 'x set"
    and valid :: "'p \<Rightarrow> 'r \<Rightarrow> bool"
    and alloc :: "int \<Rightarrow> int \<Rightarrow> int \<Rightarrow> 'p \<Rightarrow> ('r option \<times> 'p) res"
    and release :: "int \<Rightarrow> 'r \<Rightarrow> 'p \<Rightarrow> (int \<times> 'p) res"
    and release_vm :: "int \<Rightarrow> 'p \<Rightarrow> 'p res" +
  fixes region :: "int \<Rightarrow> 'x set"
    and node :: "'r \<Rightarrow> int"
    and amount :: "'r \<Rightarrow> int"
    and unit_of :: "'p \<Rightarrow> int"
    and used :: "'p \<Rightarrow> int \<Rightarrow> int"
  assumes owned_finite: "winv p \<Longrightarrow> finite {x. own p x \<noteq> None}"
    and used_owned: "winv p \<Longrightarrow> used p n = int (card {x \<in> region n. own p x \<noteq> None})"
    and region_apart: "m \<noteq> n \<Longrightarrow> region m \<inter> region n = {}"
    and span_region: "spn p r \<subseteq> region (node r)"
    and span_amount: "winv p \<Longrightarrow> valid p r \<Longrightarrow> spn p r \<noteq> {} \<and> int (card (spn p r)) * unit_of p = amount r"
begin

abbreviation entries :: "'r ledger \<Rightarrow> int \<Rightarrow> (int \<times> int) set" where
  "entries L n \<equiv> {k \<in> dom L. node (the (L k)) = n}"

lemma span_owned:
  assumes "ledger_inv winv own spn valid p L" "k \<in> dom L"
  shows "spn p (the (L k)) \<subseteq> {x. own p x \<noteq> None}"
  using assms ledger_owned [of "own p" "spn p" L "fst k" "snd k"] by (auto simp: ledger_inv_def)

lemma entry_valid:
  "ledger_inv winv own spn valid p L \<Longrightarrow> k \<in> dom L \<Longrightarrow> valid p (the (L k))"
  by (cases k) (auto simp: ledger_inv_def)

text \<open>The spans of the grants are apart and not empty, so a finite pool holds finitely many.\<close>

lemma ledger_finite:
  assumes inv: "ledger_inv winv own spn valid p L"
  shows "finite (dom L)"
proof -
  let ?f = "\<lambda>k. spn p (the (L k))"
  from inv have winv: "winv p" by (simp add: ledger_inv_def)
  have "inj_on ?f (dom L)"
  proof (rule inj_onI, rule ccontr)
    fix k k' assume k: "k \<in> dom L" "k' \<in> dom L" "?f k = ?f k'" "k \<noteq> k'"
    then have "?f k \<inter> ?f k' = {}" using inv by (auto simp: ledger_inv_def dest: ledger_disjoint)
    moreover have "?f k \<noteq> {}" using span_amount [OF winv entry_valid [OF inv k(1)]] by simp
    ultimately show False using k(3) by simp
  qed
  moreover have "?f ` dom L \<subseteq> Pow {x. own p x \<noteq> None}" using span_owned [OF inv] by blast
  ultimately show ?thesis using owned_finite [OF winv] by (meson finite_Pow_iff finite_imageD finite_subset)
qed

text \<open>The owned part of a region is the disjoint union of the grants in it.\<close>

lemma region_covered:
  assumes inv: "ledger_inv winv own spn valid p L"
  shows "{x \<in> region n. own p x \<noteq> None} = (\<Union>k \<in> entries L n. spn p (the (L k)))"
proof (intro set_eqI iffI)
  fix x assume x: "x \<in> {x \<in> region n. own p x \<noteq> None}"
  then obtain v i r where r: "L (v, i) = Some r" "x \<in> spn p r"
    using inv by (auto simp: ledger_inv_def dest!: ledger_covered)
  then have "node r = n" using x span_region [of p r] region_apart [of "node r" n] by auto
  with r show "x \<in> (\<Union>k \<in> entries L n. spn p (the (L k)))" by force
next
  fix x assume "x \<in> (\<Union>k \<in> entries L n. spn p (the (L k)))"
  then obtain k where "k \<in> dom L" "node (the (L k)) = n" "x \<in> spn p (the (L k))" by blast
  then show "x \<in> {x \<in> region n. own p x \<noteq> None}"
    using span_owned [OF inv] span_region by blast
qed

theorem meter_reads_ledger:
  assumes inv: "ledger_inv winv own spn valid p L"
  shows "used p n * unit_of p = (\<Sum>k \<in> entries L n. amount (the (L k)))"
proof -
  from inv have winv: "winv p" by (simp add: ledger_inv_def)
  have fin: "finite (entries L n)" using ledger_finite [OF inv] by simp
  have span: "finite (spn p (the (L k)))" if "k \<in> entries L n" for k
    using finite_subset [OF span_owned [OF inv] owned_finite [OF winv]] that by simp
  have "spn p (the (L k)) \<inter> spn p (the (L k')) = {}" if "k \<in> entries L n" "k' \<in> entries L n" "k \<noteq> k'" for k k'
    using that ledger_disjoint [of "own p" "spn p" L k "the (L k)" k' "the (L k')"] inv
    by (auto simp: ledger_inv_def)
  with span fin have "card (\<Union>k \<in> entries L n. spn p (the (L k))) = (\<Sum>k \<in> entries L n. card (spn p (the (L k))))"
    by (intro card_UN_disjoint) auto
  then have "used p n = (\<Sum>k \<in> entries L n. int (card (spn p (the (L k)))))"
    unfolding used_owned [OF winv] region_covered [OF inv] by simp
  then have "used p n * unit_of p = (\<Sum>k \<in> entries L n. int (card (spn p (the (L k)))) * unit_of p)"
    by (simp add: sum_distrib_right)
  also have "\<dots> = (\<Sum>k \<in> entries L n. amount (the (L k)))"
    using span_amount [OF winv entry_valid [OF inv]] by (intro sum.cong) simp_all
  finally show ?thesis .
qed

end

section \<open>The pool's counters are its meters\<close>

definition node_segments :: "int \<Rightarrow> seg_id set" where
  "node_segments n = {x. fst x = n}"

definition node_used :: "memory_pool \<Rightarrow> int \<Rightarrow> int" where
  "node_used p n =
     (if 0 \<le> n \<and> nat n < length (g_mem_devs p) then dax_used_segments (g_mem_devs p ! nat n) else 0)"

lemma owned_segments:
  "{x \<in> node_segments n. pool_owner p x \<noteq> None} =
     (if 0 \<le> n \<and> nat n < length (g_mem_devs p) then
        Pair n ` {j \<in> {0..<dax_total_segments (g_mem_devs p ! nat n)}.
                    allocated (dax_segments (g_mem_devs p ! nat n) j)}
      else {})"
  by (auto simp: node_segments_def pool_owner_def Let_def split: if_splits)

lemma owned_finite: "finite {x. pool_owner p x \<noteq> None}"
proof -
  let ?N = "{0..<int (length (g_mem_devs p))}"
  have "{x. pool_owner p x \<noteq> None} \<subseteq> (SIGMA n:?N. {0..<dax_total_segments (g_mem_devs p ! nat n)})"
    by (auto simp: pool_owner_def Let_def split: if_splits)
  then show ?thesis by (rule finite_subset) simp
qed

interpretation meter: metered_allocator pool_wf pool_owner req_span req_valid
  memory_pool_allocate_segments release_request memory_pool_release_vm_memory
  node_segments req_node_id req_size_mb g_segment_size_mb node_used
proof unfold_locales
  fix p n assume "pool_wf p"
  then show "node_used p n = int (card {x \<in> node_segments n. pool_owner p x \<noteq> None})"
    unfolding owned_segments
    using pool_dev_wf [of p "nat n"]
    by (auto simp: node_used_def dev_wf_def used_count_def count_upto_card card_image inj_on_def)
next
  fix p r assume wf: "pool_wf p" and r: "req_valid p r"
  let ?seg = "g_segment_size_mb p"
  have seg: "0 < ?seg" using wf by (simp add: pool_seg_pos)
  from r obtain a b where ab: "req_offset_mb r = ?seg * a" "req_size_mb r = ?seg * b"
    unfolding req_valid_def Let_def by (meson dvdE)
  moreover have "0 < req_size_mb r" using r by (simp add: req_valid_def Let_def)
  ultimately have "0 < b" using seg by (simp add: zero_less_mult_iff)
  moreover have "req_span p r = Pair (req_node_id r) ` {a..<a + b}"
    using seg by (simp add: req_span_def ab flip: distrib_left)
  ultimately show "req_span p r \<noteq> {} \<and> int (card (req_span p r)) * ?seg = req_size_mb r"
    by (simp add: ab card_image inj_on_def)
qed (use owned_finite in \<open>auto simp: node_segments_def req_span_def\<close>)

section \<open>What \<open>get-mem-pool\<close> prints\<close>

text \<open>What the VMs hold on a node, and the pool with its counters worked out from that.\<close>

definition granted_on :: "'w rm_state \<Rightarrow> int \<Rightarrow> int" where
  "granted_on s n =
     (\<Sum>k \<in> {k \<in> dom (vm_ledger (rm_vms s)). req_node_id (the (vm_ledger (rm_vms s) k)) = n}.
        req_size_mb (the (vm_ledger (rm_vms s) k)))"

definition recounted :: "'w rm_state \<Rightarrow> memory_pool" where
  "recounted s =
     (let p = rm_pool s
      in p\<lparr>g_mem_devs :=
            map (\<lambda>d. d\<lparr>dax_used_segments := granted_on s (dax_node_id d) div g_segment_size_mb p\<rparr>) (g_mem_devs p)\<rparr>)"

lemma rm_inv_pool:
  assumes "rm_inv s"
  shows "pool_wf (rm_pool s)"
    and "ledger_inv pool_wf pool_owner req_span req_valid (rm_pool s) (vm_ledger (rm_vms s))"
  using assms by (simp_all add: rm_inv_def ledger_inv_def)

lemma used_is_granted:
  assumes "rm_inv s" "k < length (g_mem_devs (rm_pool s))"
  shows "dax_used_segments (g_mem_devs (rm_pool s) ! k) * g_segment_size_mb (rm_pool s) = granted_on s (int k)"
  using meter.meter_reads_ledger [OF rm_inv_pool(2) [OF assms(1)], of "int k"] assms(2)
  by (simp add: granted_on_def node_used_def)

lemma node_id_nth: "pool_wf p \<Longrightarrow> k < length (g_mem_devs p) \<Longrightarrow> dax_node_id (g_mem_devs p ! k) = int k"
  using pool_node_ids [of p] by (metis (no_types, lifting) add.left_neutral diff_add_cancel length_map nth_map nth_upto
      of_nat_less_iff zle_diff1_eq)

lemma recounted_same:
  assumes "rm_inv s"
  shows "recounted s = rm_pool s"
proof -
  note wf = rm_inv_pool(1) [OF assms]
  have seg: "g_segment_size_mb (rm_pool s) \<noteq> 0" using pool_seg_pos [OF wf] by simp
  have "map (\<lambda>d. d\<lparr>dax_used_segments := granted_on s (dax_node_id d) div g_segment_size_mb (rm_pool s)\<rparr>)
      (g_mem_devs (rm_pool s)) = g_mem_devs (rm_pool s)"
    by (rule nth_equalityI)
      (simp_all add: node_id_nth [OF wf] seg flip: used_is_granted [OF assms])
  then show ?thesis by (simp add: recounted_def Let_def)
qed

lemma pool_table_served:
  assumes inv: "rm_inv s" and run: "serve os js (print_request GetMemPool) old s = Inr (t, args, s')"
  shows "t = take 1023 (usage_table (recounted s)) \<and> args = old \<and> s' = s\<lparr>rm_world := rm_world s'\<rparr>"
proof -
  have "bindE (perform os js GetMemPool s) (\<lambda>(t, s). Inr (t, request_args GetMemPool old, s)) = Inr (t, args, s')"
    using run serve_request [of GetMemPool os js old s] by simp
  then show ?thesis
    by (auto simp: bindE_eq_Inr request_args_def get_usage_text recounted_same [OF inv] dest!: malloc_Inr)
qed

text \<open>A device of which nobody holds memory is free from its first segment to its last.\<close>

lemma idle_fits:
  assumes inv: "rm_inv s" and k: "k < length (g_mem_devs (rm_pool s))" and idle: "granted_on s (int k) = 0"
  shows "fits_at (rm_pool s) (int k) (dax_total_segments (g_mem_devs (rm_pool s) ! k)) 0"
proof -
  let ?d = "g_mem_devs (rm_pool s) ! k"
  note wf = rm_inv_pool(1) [OF inv]
  have "dax_used_segments ?d = 0"
    using used_is_granted [OF inv k] idle pool_seg_pos [OF wf] by simp
  then have "used_count (dax_segments ?d) (dax_total_segments ?d) = 0"
    using pool_dev_wf [OF wf k] by (simp add: dev_wf_def)
  then have "\<not> allocated (dax_segments ?d j)" if "0 \<le> j" "j < dax_total_segments ?d" for j
    using used_count_pos [of j "dax_total_segments ?d" "dax_segments ?d"] that by fastforce
  with k show ?thesis by (simp add: fits_at_def)
qed

section \<open>When \<open>alloc-mem\<close> succeeds\<close>

lemma alloc_result:
  assumes inv: "rm_inv s" and mal: "\<And>n w. fst (os_malloc os n w)" and z: "0 < z" "z \<le> INT_MAX"
    and run: "vm_mngr_instance_alloc_mem os n v z s = Inr (r, s')"
  shows "r = None \<longleftrightarrow> vm_mngr_get_instance v (rm_vms s) = None \<or>
           memory_pool_allocate_segments n v z (rm_pool s) = Inr (None, rm_pool s)"
proof (cases "vm_mngr_get_instance v (rm_vms s)")
  case None
  with run show ?thesis by (simp add: vm_mngr_instance_alloc_mem_def)
next
  case (Some k)
  obtain ret p where al: "memory_pool_allocate_segments n v z (rm_pool s) = Inr (ret, p)"
    using pool.alloc_total [OF rm_inv_pool(1) [OF inv] z] by (metis surj_pair)
  have "p = rm_pool s" if "ret = None"
    using pool.alloc_None [OF rm_inv_pool(1) [OF inv] z al [unfolded that]] .
  with run Some mal al show ?thesis
    by (cases ret) (auto simp: vm_mngr_instance_alloc_mem_def case_prod_beta bindE_eq_Inr Let_def)
qed

lemma pool_fit:
  assumes "pool_wf p" "0 < z" "z \<le> INT_MAX" "memory_pool_allocate_segments n v z p = Inr (r, p')"
    "seg = g_segment_size_mb p"
  shows "case r of
      None \<Rightarrow> \<not> seg dvd z \<or> (\<forall>k. \<not> fits_at p n (z div seg) k)
    | Some q \<Rightarrow> seg dvd z \<and> (\<exists>k. fits_at p n (z div seg) k \<and> (\<forall>j < k. \<not> fits_at p n (z div seg) j) \<and>
        req_offset_mb q = k * seg)"
  using allocate_first_fit [OF assms(1-3), of n v] assms(4,5) by (fastforce simp: Let_def split: option.splits)

text \<open>The answer of the server: a grant at the lowest place that fits, or the reason why there is none.\<close>

lemma alloc_served:
  assumes inv: "rm_inv s" and env: "env_ok os js" and ok: "request_ok (AllocMem n v z)"
    and can: "servable os (AllocMem n v z) s"
  defines "seg \<equiv> g_segment_size_mb (rm_pool s)"
  shows "\<exists>t s'. serve os js (print_request (AllocMem n v z)) old s = Inr (t, request_args (AllocMem n v z) old, s') \<and>
    (if v \<in> sp_vms (vm_spec_of s) \<and> seg dvd z \<and> (\<exists>k. fits_at (rm_pool s) n (z div seg) k) then
       \<exists>i q k. t = grant_text i q \<and> sp_grants (vm_spec_of s') (v, i) = Some q \<and>
         req_node_id q = n \<and> req_size_mb q = z \<and> req_offset_mb q = k * seg \<and>
         fits_at (rm_pool s) n (z div seg) k \<and> (\<forall>j < k. \<not> fits_at (rm_pool s) n (z div seg) j)
     else t = ''Allocate failed'')"
proof -
  have z: "0 < z" "z \<le> INT_MAX" using ok by (simp_all add: is_index_def)
  have mal: "fst (os_malloc os n w)" for n w using env by (simp add: env_ok_def)
  from rpc_malloc_ok [OF mal, of s] obtain w where w: "rpc_malloc os s = Inr (s\<lparr>rm_world := w\<rparr>)" by blast
  let ?s = "s\<lparr>rm_world := w\<rparr>"
  from alloc_step [OF inv ok can, of w] obtain ret s' where
    run: "vm_mngr_instance_alloc_mem os n v z ?s = Inr (ret, s')" by blast
  have sv: "serve os js (print_request (AllocMem n v z)) old s =
      Inr (case ret of Some a \<Rightarrow> take 1023 (alloc_text a) | None \<Rightarrow> ''Allocate failed'', request_args (AllocMem n v z) old, s')"
    unfolding serve_request [OF ok] by (simp add: w run)
  have pool: "rm_pool ?s = rm_pool s" "rm_vms ?s = rm_vms s" "rm_inv ?s" using inv by simp_all
  note res = alloc_result [OF pool(3) mal z run, unfolded pool(1,2)]
  have vm: "v \<in> sp_vms (vm_spec_of s) \<longleftrightarrow> vm_mngr_get_instance v (rm_vms s) \<noteq> None"
    by (simp add: vm_mngr_check_exit_def)
  obtain r p where al: "memory_pool_allocate_segments n v z (rm_pool s) = Inr (r, p)"
    using pool.alloc_total [OF rm_inv_pool(1) [OF inv] z] by (metis surj_pair)
  note fit = pool_fit [OF rm_inv_pool(1) [OF inv] z al seg_def [THEN meta_eq_to_obj_eq]]
  show ?thesis
  proof (cases ret)
    case None
    with res al fit vm have "\<not> (v \<in> sp_vms (vm_spec_of s) \<and> seg dvd z \<and> (\<exists>k. fits_at (rm_pool s) n (z div seg) k))"
      by (auto split: option.splits)
    with sv None show ?thesis by simp
  next
    case (Some a)
    from alloc_granted [OF pool(3) z run [unfolded Some], unfolded pool(1)] obtain q where
      q: "take 1023 (alloc_text a) = grant_text (vmr_memdev_idx a) q" "req_node_id q = n" "req_size_mb q = z"
        "memory_pool_allocate_segments n v z (rm_pool s) = Inr (Some q, rm_pool s')"
      and spec: "vm_spec_of s' = (vm_spec_of ?s)\<lparr>sp_grants := (sp_grants (vm_spec_of ?s))((v, vmr_memdev_idx a) \<mapsto> q)\<rparr>"
      by blast
    have entry: "sp_grants (vm_spec_of s') (v, vmr_memdev_idx a) = Some q" unfolding spec by simp
    have "r = Some q" using al q(4) by simp
    with fit res vm Some have "v \<in> sp_vms (vm_spec_of s)" "seg dvd z" "\<exists>k. fits_at (rm_pool s) n (z div seg) k \<and>
        (\<forall>j < k. \<not> fits_at (rm_pool s) n (z div seg) j) \<and> req_offset_mb q = k * seg" by auto
    with sv Some q entry show ?thesis by auto
  qed
qed

end
