(* ===== verification/Interleave.thy ===== *)
theory Interleave
  imports Lifecycle
begin

text \<open>
  The two threads in finer steps.  The monitor looks at \<open>VM_running\<close> in one step and treats the VM in a
  later one; a stop clears the flag in one step and closes agent and counters in a later one, whatever
  the monitor does meanwhile: the code only sleeps for a millisecond.  The comment in \<open>vm_mngr_instance_stop\<close>
  wants the monitor to have finished with the VM by then.  A close that comes while the monitor is at
  the VM is called late; it can happen, and it is all that can go wrong.
\<close>

section \<open>The halves of a stop\<close>

text \<open>Up to and including the wait, and from there on.\<close>

definition stop_flag :: "'w os \<Rightarrow> nat \<Rightarrow> 'w rm_state \<Rightarrow> 'w rm_state" where
  "stop_flag os k s =
     (put_vm k ((vm_at s k)\<lparr>VM_running := False\<rparr>) s)\<lparr>rm_world := os_usleep os 1000 (rm_world s)\<rparr>"

definition stop_close :: "'w os \<Rightarrow> nat \<Rightarrow> 'w rm_state \<Rightarrow> (int \<times> 'w rm_state) res" where
  "stop_close os k s =
     (let VM = vm_at s k in
      bindE (guest_agent_cleanup os (VM_id VM) (rm_agents s, rm_world s)) (\<lambda>(agents, w).
      bindE (vm_perf_counter_teardown os (VM, w)) (\<lambda>(VM, w).
      Inr (0, (put_vm k VM s)\<lparr>rm_agents := agents, rm_world := w\<rparr>))))"

lemma put_put [simp]: "put_vm k V (put_vm k U s) = put_vm k V s"
  by (simp add: put_vm_def mngr_put_def)

lemma put_self [simp]: "put_vm k (vm_at s k) s = s"
  by (simp add: put_vm_def mngr_put_def vm_at_def)

lemma put_world: "put_vm k V (s\<lparr>rm_world := w\<rparr>) = (put_vm k V s)\<lparr>rm_world := w\<rparr>"
  by (simp add: put_vm_def)

lemma at_put: "k < length (mngr_VMs (rm_vms s)) \<Longrightarrow> vm_at (put_vm k V s) j = (if j = k then V else vm_at s j)"
  by (simp add: vm_at_def put_vm_def mngr_put_def nth_list_update)

lemma at_upd [simp]: "vm_at (s\<lparr>rm_world := w\<rparr>) = vm_at s" "vm_at (s\<lparr>rm_agents := a\<rparr>) = vm_at s"
  by (simp_all add: vm_at_def fun_eq_iff)

text \<open>Together they are the operation of the source.\<close>

lemma stop_split:
  "vm_mngr_instance_stop os v s =
     (case vm_mngr_get_instance v (rm_vms s) of
        None \<Rightarrow> Inr (-1, s)
      | Some k \<Rightarrow> if \<not> VM_running (vm_at s k) then Inr (0, s) else stop_close os k (stop_flag os k s))"
proof (cases "vm_mngr_get_instance v (rm_vms s)")
  case None
  then show ?thesis by (simp add: vm_mngr_instance_stop_def)
next
  case (Some k)
  then have k: "k < length (mngr_VMs (rm_vms s))"
    using find_vm_Some [of v "mngr_VMs (rm_vms s)" k] by (simp add: vm_mngr_get_instance_def)
  have "stop_close os k (stop_flag os k s) =
      bindE (guest_agent_cleanup os (VM_id (vm_at s k)) (rm_agents s, os_usleep os 1000 (rm_world s))) (\<lambda>(agents, w).
      bindE (vm_perf_counter_teardown os ((vm_at s k)\<lparr>VM_running := False\<rparr>, w)) (\<lambda>(VM, w).
      Inr (0, (put_vm k VM s)\<lparr>rm_agents := agents, rm_world := w\<rparr>)))"
    by (simp add: stop_close_def stop_flag_def at_put [OF k] put_world Let_def) (simp add: put_vm_def mngr_put_def)
  with Some show ?thesis by (simp add: vm_mngr_instance_stop_def Let_def)
qed

section \<open>Fine steps\<close>

datatype server_pc = Serving | Stopping nat
datatype monitor_pc = Between | Acting nat

text \<open>What the monitor does with the VM in slot \<open>k\<close> once it saw it running.\<close>

inductive monitor_acts ::
    "'w os \<Rightarrow> 'j json_lib \<Rightarrow> 'w curl_lib \<Rightarrow> nat \<Rightarrow> 'w rm_state \<Rightarrow> 'w rm_state \<Rightarrow> bool"
  for os :: "'w os" and js :: "'j json_lib" and lib :: "'w curl_lib" where
  Capacity: "get_vm_mem_cp os js lib gm k s = Inr s' \<Longrightarrow> monitor_acts os js lib k s s'"
| Bandwidth: "get_vm_mem_bw lib gm cm k s = Inr s' \<Longrightarrow> monitor_acts os js lib k s s'"
| Counters: "vm_perf_update os (vm_at s k, rm_world s) = Inr (V, w) \<Longrightarrow>
    monitor_acts os js lib k s ((put_vm k V s)\<lparr>rm_world := w\<rparr>)"
| Metrics: "monitor_acts os js lib k s (put_vm k (vm_update_metrics (vm_at s k)) s)"
| Latency: "get_vm_mem_latency lib gm k s = Inr s' \<Longrightarrow> monitor_acts os js lib k s s'"

text \<open>
  A request that clears no flag is one step.  The second half of a stop follows its first half at any
  time: the code sleeps a millisecond in between, and does not look at the monitor.
\<close>

definition flags_stay :: "'w rm_state \<Rightarrow> 'w rm_state \<Rightarrow> bool" where
  "flags_stay s s' \<longleftrightarrow> (\<forall>k < nat MAX_NUM_VM. VM_running (vm_at s k) \<longrightarrow> VM_running (vm_at s' k))"

inductive fine_step ::
    "'w os \<Rightarrow> 'j json_lib \<Rightarrow> 'w curl_lib \<Rightarrow> server_pc \<times> monitor_pc \<times> 'w rm_state \<Rightarrow>
       server_pc \<times> monitor_pc \<times> 'w rm_state \<Rightarrow> bool"
  for os :: "'w os" and js :: "'j json_lib" and lib :: "'w curl_lib" where
  Request: "rpc_client os js fd (args, s) = Inr (args', s') \<Longrightarrow> flags_stay s s' \<Longrightarrow>
    fine_step os js lib (Serving, m, s) (Serving, m, s')"
| StopFlag: "vm_mngr_get_instance v (rm_vms s) = Some k \<Longrightarrow> VM_running (vm_at s k) \<Longrightarrow>
    fine_step os js lib (Serving, m, s) (Stopping k, m, stop_flag os k s)"
| StopClose: "stop_close os k s = Inr (r, s') \<Longrightarrow>
    fine_step os js lib (Stopping k, m, s) (Serving, m, s')"
| Look: "k < nat MAX_NUM_VM \<Longrightarrow> VM_running (vm_at s k) \<Longrightarrow>
    fine_step os js lib (p, Between, s) (p, Acting k, s)"
| Act: "monitor_acts os js lib k s s' \<Longrightarrow> fine_step os js lib (p, Acting k, s) (p, Between, s')"
| World: "fine_step os js lib (p, m, s) (p, m, s\<lparr>rm_world := w\<rparr>)"

abbreviation fine_steps ::
    "'w os \<Rightarrow> 'j json_lib \<Rightarrow> 'w curl_lib \<Rightarrow> server_pc \<times> monitor_pc \<times> 'w rm_state \<Rightarrow>
       server_pc \<times> monitor_pc \<times> 'w rm_state \<Rightarrow> bool" where
  "fine_steps os js lib \<equiv> (fine_step os js lib)\<^sup>*\<^sup>*"

text \<open>Whatever the monitor does, it writes back one entry of the same VM, with the same descriptors.\<close>

lemma monitor_acts_put:
  "monitor_acts os js lib k s s' \<Longrightarrow>
     \<exists>V w. s' = (put_vm k V s)\<lparr>rm_world := w\<rparr> \<and> perf_frame (vm_at s k) V \<and>
           VM_perf_event_fds V = VM_perf_event_fds (vm_at s k)"
proof (induction rule: monitor_acts.induct)
  case (Capacity gm k s s')
  from get_vm_mem_cp_world [OF this] obtain w where "s' = s\<lparr>rm_world := w\<rparr>" by blast
  then show ?case by (intro exI [of _ "vm_at s k"] exI [of _ w]) simp
next
  case (Bandwidth gm cm k s s')
  then show ?case by (rule get_vm_mem_bw_Inr) (use vm_mem_bw_frame in blast)
next
  case (Counters s k V w)
  from perf_update_counts [OF this] show ?case by blast
next
  case (Metrics k s)
  show ?case by (intro exI [of _ "vm_update_metrics (vm_at s k)"] exI [of _ "rm_world s"]) (simp add: put_vm_def)
next
  case (Latency gm k s s')
  with get_vm_mem_latency_world [of lib gm k s] obtain w where "s' = s\<lparr>rm_world := w\<rparr>" by auto
  then show ?case by (intro exI [of _ "vm_at s k"] exI [of _ w]) simp
qed

section \<open>The invariant between the halves\<close>

text \<open>A VM that is being stopped still counts as running: its agent and counters are open.\<close>

fun view :: "server_pc \<Rightarrow> 'w rm_state \<Rightarrow> 'w rm_state" where
  "view Serving s = s"
| "view (Stopping k) s = put_vm k ((vm_at s k)\<lparr>VM_running := True\<rparr>) s"

declare view.simps(2) [simp del]

fun fine_inv :: "server_pc \<times> monitor_pc \<times> 'w rm_state \<Rightarrow> bool" where
  "fine_inv (p, m, s) \<longleftrightarrow> rm_inv (view p s) \<and>
     (case p of Serving \<Rightarrow> True | Stopping k \<Rightarrow> k < nat MAX_NUM_VM \<and> \<not> VM_running (vm_at s k)) \<and>
     (case m of Between \<Rightarrow> True | Acting k \<Rightarrow> k < nat MAX_NUM_VM \<and> VM_running (vm_at (view p s) k))"

lemma view_world [simp]: "view p (s\<lparr>rm_world := w\<rparr>) = (view p s)\<lparr>rm_world := w\<rparr>"
  by (cases p) (simp_all add: put_world view.simps(2))

lemma view_same [simp]: "rm_agents (view p s) = rm_agents s" "rm_pool (view p s) = rm_pool s"
  by (cases p; simp add: view.simps(2) put_vm_def)+

lemma view_length: "length (mngr_VMs (rm_vms (view p s))) = length (mngr_VMs (rm_vms s))"
  by (cases p) (simp_all add: put_vm_def mngr_put_def view.simps(2))

lemma view_slots: "rm_inv (view p s) \<Longrightarrow> length (mngr_VMs (rm_vms s)) = nat MAX_NUM_VM"
  using table_length [of "view p s"] by (simp add: view_length)

lemma view_at:
  assumes "rm_inv (view p s)" "j < nat MAX_NUM_VM"
  shows "vm_at (view p s) j = (case p of Serving \<Rightarrow> vm_at s j
           | Stopping k \<Rightarrow> if j = k then (vm_at s k)\<lparr>VM_running := True\<rparr> else vm_at s j)"
  using assms table_length [OF assms(1)] view_length [of p s]
  by (cases p) (auto simp: at_put vm_at_def put_vm_def mngr_put_def view.simps(2))


lemma view_put:
  assumes "k < length (mngr_VMs (rm_vms s))" "j < length (mngr_VMs (rm_vms s))"
  shows "view (Stopping k) (put_vm j V s) = put_vm j (if j = k then V\<lparr>VM_running := True\<rparr> else V) (view (Stopping k) s)"
  using assms by (auto simp: put_vm_def mngr_put_def vm_at_def list_update_swap view.simps(2))

text \<open>The monitor's work keeps the invariant, before, during and after a stop.\<close>

lemma act_inv:
  assumes inv: "fine_inv (p, Acting j, s)" and act: "monitor_acts os js lib j s s'"
  shows "fine_inv (p, Between, s') \<and> sim (view p s) (view p s')"
proof -
  from monitor_acts_put [OF act] obtain V w where s': "s' = (put_vm j V s)\<lparr>rm_world := w\<rparr>"
    and V: "perf_frame (vm_at s j) V" "VM_perf_event_fds V = VM_perf_event_fds (vm_at s j)" by blast
  from inv have i: "rm_inv (view p s)" "j < nat MAX_NUM_VM" "VM_running (vm_at (view p s) j)" by simp_all
  have len: "length (mngr_VMs (rm_vms s)) = nat MAX_NUM_VM" using i(1) by (rule view_slots)
  note at = view_at [OF i(1)]
  show ?thesis
  proof (cases p)
    case Serving
    with put_counters_sim [OF i(1,3,2)] V show ?thesis by (simp add: s') (simp add: sim_def)
  next
    case (Stopping k)
    define U where "U = (if j = k then V\<lparr>VM_running := True\<rparr> else V)"
    have k: "k < nat MAX_NUM_VM" "\<not> VM_running (vm_at s k)" using inv Stopping by simp_all
    have "perf_frame (vm_at (view p s) j) U" "VM_perf_event_fds U = VM_perf_event_fds (vm_at (view p s) j)"
      using V by (auto simp: at [OF i(2), unfolded Stopping] Stopping U_def perf_frame_def)
    from put_counters_sim [OF i(1,3,2) this, of w] view_put [of k s j V] k(1) i(2) len
    have "sim (view p s) (view p s')" unfolding s' Stopping U_def view_world by simp
    moreover have "\<not> VM_running (vm_at s' k)"
      using k V(1) i(2) len by (auto simp: s' at_put perf_frame_def)
    ultimately show ?thesis using k(1) Stopping by (simp add: sim_def)
  qed
qed

text \<open>The first half of a stop changes nothing in the view, the second half is allowed when the monitor is
  not at this VM.\<close>

lemma flag_view:
  assumes "VM_running (vm_at s k)" "k < length (mngr_VMs (rm_vms s))"
  shows "view (Stopping k) (stop_flag os k s) = s\<lparr>rm_world := os_usleep os 1000 (rm_world s)\<rparr>"
    and "\<not> VM_running (vm_at (stop_flag os k s) k)"
proof -
  have "(vm_at s k)\<lparr>VM_running := True\<rparr> = vm_at s k" using assms(1) by (cases "vm_at s k") simp
  then show "view (Stopping k) (stop_flag os k s) = s\<lparr>rm_world := os_usleep os 1000 (rm_world s)\<rparr>"
    using assms(2) by (simp add: stop_flag_def at_put put_world view.simps(2))
  show "\<not> VM_running (vm_at (stop_flag os k s) k)" using assms(2) by (simp add: stop_flag_def at_put)
qed

lemma running_instance:
  assumes "rm_inv s" "k < nat MAX_NUM_VM" "VM_running (vm_at s k)"
  shows "vm_mngr_get_instance (VM_id (vm_at s k)) (rm_vms s) = Some k"
proof -
  have "VM_initialized (vm_at s k)"
    using assms table_length [OF assms(1)] by (auto simp: rm_inv_def mngr_wf_def list_all_length vm_at_def slot_wf_def)
  then show ?thesis by (rule get_instance_at [OF assms(1,2)])
qed

lemma close_inv:
  assumes inv: "fine_inv (Stopping k, m, s)" and run: "stop_close os k s = Inr (r, s')" and m: "m \<noteq> Acting k"
  shows "fine_inv (Serving, m, s') \<and> sim (view (Stopping k) s) s'"
proof -
  let ?t = "view (Stopping k) s"
  from inv have k: "rm_inv ?t" "k < nat MAX_NUM_VM" "\<not> VM_running (vm_at s k)" by simp_all
  have len: "length (mngr_VMs (rm_vms s)) = nat MAX_NUM_VM" using k(1) by (rule view_slots)
  note at = view_at [OF k(1)]
  have off: "(vm_at ?t k)\<lparr>VM_running := False\<rparr> = vm_at s k" "VM_running (vm_at ?t k)"
    "VM_id (vm_at ?t k) = VM_id (vm_at s k)"
    using k(2,3) by (simp_all add: at)
  from run obtain ag w1 V w2 where
    c: "guest_agent_cleanup os (VM_id (vm_at ?t k)) (rm_agents ?t, rm_world s) = Inr (ag, w1)"
      "vm_perf_counter_teardown os ((vm_at ?t k)\<lparr>VM_running := False\<rparr>, w1) = Inr (V, w2)"
    and s': "s' = (put_vm k V s)\<lparr>rm_agents := ag, rm_world := w2\<rparr>"
    by (auto simp: stop_close_def bindE_eq_Inr Let_def off)
  note get = running_instance [OF k(1,2) off(2)]
  note entry = close_entry [OF k(1) get off(2) c]
  have wf: "mngr_wf (rm_vms ?t)" using k(1) by (simp add: rm_inv_def)
  from perf_teardown_frame [OF c(2)] off(2) have "perf_frame (vm_at ?t k) (V\<lparr>VM_running := True\<rparr>)"
    by (simp add: perf_frame_def)
  note tab = put_table [OF get wf this [unfolded vm_at_def]]
  have put: "put_vm k V s = put_vm k V ?t" by (simp add: view.simps(2))
  then have inv': "rm_inv s'" using entry(1) by (simp add: s')
  have vms: "rm_vms s' = mngr_put k V (rm_vms ?t)" unfolding s' put by (simp add: put_vm_def)
  have "vm_spec_of s' = (vm_spec_of ?t)\<lparr>sp_running := sp_running (vm_spec_of ?t) - {VM_id (vm_at ?t k)}\<rparr>"
    using tab entry(2) by (auto simp: vm_spec_of_def vms vm_mngr_check_exit_def)
  moreover have "VM_id (vm_at ?t k) \<in> sp_running (vm_spec_of ?t)"
    using get off(2) by (simp add: vm_running_def vm_at_def)
  moreover have "rm_pool s' = rm_pool ?t" by (simp add: s' put_vm_def)
  ultimately have sim: "sim ?t s'"
    using spec_step.Stop [of "VM_id (vm_at ?t k)" "vm_spec_of ?t" "req_valid (rm_pool ?t)"] inv' by (simp add: sim_def)
  have "vm_at s' j = vm_at ?t j" if "j < nat MAX_NUM_VM" "j \<noteq> k" for j
    using that k(2) len by (simp add: at s' at_put)
  with sim inv' inv m show ?thesis by (auto split: monitor_pc.splits)
qed

text \<open>The one kind of step that does not keep the invariant.\<close>

definition late_close ::
    "'w os \<Rightarrow> server_pc \<times> monitor_pc \<times> 'w rm_state \<Rightarrow> server_pc \<times> monitor_pc \<times> 'w rm_state \<Rightarrow> bool" where
  "late_close os c c' \<longleftrightarrow>
     (\<exists>k s r s'. c = (Stopping k, Acting k, s) \<and> stop_close os k s = Inr (r, s') \<and> c' = (Serving, Acting k, s'))"

lemma fine_step_inv:
  "fine_step os js lib (p, m, s) (p', m', s') \<Longrightarrow> fine_inv (p, m, s) \<Longrightarrow>
     fine_inv (p', m', s') \<and> sim (view p s) (view p' s') \<or> late_close os (p, m, s) (p', m', s')"
proof (induction "(p, m, s)" "(p', m', s')" arbitrary: p m s p' m' s' rule: fine_step.induct)
  case (Request fd args s args' s' m)
  from client_inv [of s os js fd args] Request have "sim s s'" by (auto dest!: ensuresD)
  then have "rm_inv s'" "sim s s'" by (simp_all add: sim_def)
  with Request(2,3) show ?case by (auto simp: flags_stay_def split: monitor_pc.splits)
next
  case (StopFlag v s k m)
  have inv: "rm_inv s" using StopFlag(3) by simp
  then have "k < length (mngr_VMs (rm_vms s))" using get_instanceD(1) [OF StopFlag(1)] by (simp add: rm_inv_def)
  with flag_view [OF StopFlag(2), of os] table_length [OF inv] StopFlag(3) show ?case
    by (auto split: monitor_pc.splits)
next
  case (StopClose k s r s' m)
  show ?case
  proof (cases "m = Acting k")
    case True
    with StopClose(1) show ?thesis by (auto simp: late_close_def)
  next
    case False
    with close_inv [OF StopClose(2,1)] show ?thesis by simp
  qed
next
  case (Look k s p)
  moreover have "VM_running (vm_at (view p s) k)"
    using Look view_at [of p s k] by (auto split: server_pc.splits)
  ultimately show ?case by simp
next
  case (Act k s s' p)
  then show ?case by (intro disjI1 act_inv)
qed (auto split: server_pc.splits monitor_pc.splits)

text \<open>So a run of fine steps is a run of the specification and keeps the invariant, unless it has passed
  through a late close; and then it was fine up to there.\<close>

fun spec_run :: "'w rm_state \<Rightarrow> server_pc \<times> monitor_pc \<times> 'w rm_state \<Rightarrow> bool" where
  "spec_run s0 (p, m, s) \<longleftrightarrow> fine_inv (p, m, s) \<and> req_valid (rm_pool s) = req_valid (rm_pool s0) \<and>
     (spec_step (req_valid (rm_pool s0)))\<^sup>*\<^sup>* (vm_spec_of s0) (vm_spec_of (view p s))"

lemma fine_step_spec:
  assumes "fine_step os js lib c c'" "spec_run s0 c"
  shows "spec_run s0 c' \<or> late_close os c c'"
proof -
  obtain p m s p' m' s' where c: "c = (p, m, s)" "c' = (p', m', s')" by (cases c; cases c') auto
  from assms fine_step_inv [of os js lib p m s p' m' s'] show ?thesis
    unfolding c by (auto simp: sim_def simp del: fine_inv.simps intro: rtranclp.rtrancl_into_rtrancl)
qed

lemma fine_steps_unless:
  assumes "fine_steps os js lib (Serving, Between, s0) c" "rm_inv s0"
  shows "spec_run s0 c \<or>
    (\<exists>b b'. fine_steps os js lib (Serving, Between, s0) b \<and> spec_run s0 b \<and> late_close os b b' \<and>
       fine_steps os js lib b' c)"
  using assms(1)
proof (induction rule: rtranclp_induct)
  case base
  then show ?case using assms(2) by simp
next
  case (step c c')
  from step.IH show ?case
  proof (elim disjE exE conjE)
    assume "spec_run s0 c"
    with fine_step_spec [OF step.hyps(2)] step.hyps(1) show ?thesis by blast
  next
    fix b b'
    assume "fine_steps os js lib (Serving, Between, s0) b" "spec_run s0 b" "late_close os b b'" "fine_steps os js lib b' c"
    with rtranclp.rtrancl_into_rtrancl [OF this(4) step.hyps(2)] show ?thesis by blast
  qed
qed

section \<open>Nothing faults and the stop ends\<close>

lemma acting_live:
  assumes inv: "fine_inv (p, Acting k, s)"
  shows "perf_live (vm_at s k)"
proof -
  from inv have i: "rm_inv (view p s)" "k < nat MAX_NUM_VM" "VM_running (vm_at (view p s) k)" by simp_all
  from table_live [OF i(1,3,2)] view_at [OF i(1,2)] show ?thesis
    by (auto simp: perf_live_def fds_upto_def split: server_pc.splits if_splits)
qed

lemma acting_reads:
  assumes "fine_inv (p, Acting k, s)" "perf_reads_ok os"
  shows "\<exists>V w. vm_perf_update os (vm_at s k, rm_world s) = Inr (V, w)"
  using perf_update_ok [OF acting_live [OF assms(1)] assms(2)] by blast

lemma close_total:
  assumes inv: "fine_inv (Stopping k, m, s)" and os: "perf_reads_ok os" "perf_closes_ok os"
  shows "\<exists>r s'. stop_close os k s = Inr (r, s')"
proof -
  let ?t = "view (Stopping k) s"
  from inv have k: "rm_inv ?t" "k < nat MAX_NUM_VM" "\<not> VM_running (vm_at s k)" by simp_all
  note at = view_at [OF k(1)]
  have off: "VM_running (vm_at ?t k)" "VM_id (vm_at ?t k) = VM_id (vm_at s k)"
    "VM_perf_event_fds (vm_at ?t k) = VM_perf_event_fds (vm_at s k)"
    "VM_num_cores (vm_at ?t k) = VM_num_cores (vm_at s k)"
    using k(2) by (simp_all add: at)
  have "agent_up (rm_agents ?t) (VM_id (vm_at s k))"
    using not_running_down [OF k(1) running_instance [OF k(1,2) off(1)]] off by simp
  then have v: "0 \<le> VM_id (vm_at s k)" "VM_id (vm_at s k) < MAX_NUM_VM" by (simp_all add: agent_up_def)
  have wf: "agents_wf (rm_agents s)" using k(1) by (simp add: rm_inv_def)
  from guest_agent_cleanup_correct [OF wf v, of os "rm_world s"] obtain ag w1 where
    c: "guest_agent_cleanup os (VM_id (vm_at s k)) (rm_agents s, rm_world s) = Inr (ag, w1)" by blast
  have "perf_live (vm_at ?t k)" by (rule table_live [OF k(1) off(1) k(2)])
  then have "perf_live (vm_at s k)"
    using fds_upto_cong [OF fun_cong [OF off(3)] off(4)] unfolding perf_live_def off(4) by metis
  from perf_teardown_ok [OF this os, of w1] obtain V w2 where
    "vm_perf_counter_teardown os (vm_at s k, w1) = Inr (V, w2)" by (elim exE)
  with c show ?thesis by (simp add: stop_close_def Let_def)
qed

text \<open>From every such state the stop can end well: at most the monitor has to finish first.\<close>

lemma stop_finishes:
  fixes s :: "'w rm_state"
  assumes inv: "fine_inv (p, m, s)" and os: "perf_reads_ok os" "perf_closes_ok os"
  shows "\<exists>m' s'. fine_steps os js lib (p, m, s) (Serving, m', s') \<and> rm_inv s'"
proof (cases p)
  case Serving
  with inv show ?thesis by auto
next
  case (Stopping k)
  have close: "\<exists>s'. fine_steps os js lib (p, m, t) (Serving, m, s') \<and> rm_inv s'"
    if t: "fine_inv (p, m, t)" "m \<noteq> Acting k" for m and t :: "'w rm_state"
  proof -
    from close_total [OF t(1) [unfolded Stopping] os] obtain r s' where c: "stop_close os k t = Inr (r, s')" by blast
    from fine_step.StopClose [OF c, of js lib m] close_inv [OF t(1) [unfolded Stopping] c t(2)] Stopping
    show ?thesis by auto
  qed
  show ?thesis
  proof (cases "m = Acting k")
    case True
    with acting_reads [of p k s os] inv os obtain V w where
      "vm_perf_update os (vm_at s k, rm_world s) = Inr (V, w)" by blast
    then have act: "monitor_acts os js lib k s ((put_vm k V s)\<lparr>rm_world := w\<rparr>)" by (rule monitor_acts.Counters)
    from act_inv [OF _ this, of p] inv True have "fine_inv (p, Between, (put_vm k V s)\<lparr>rm_world := w\<rparr>)" by blast
    from close [OF this] fine_step.Act [OF act, of p] True show ?thesis
      by (auto intro: converse_rtranclp_into_rtranclp)
  next
    case False
    from close [OF inv this] show ?thesis by blast
  qed
qed

section \<open>The coarse steps are runs of fine ones\<close>

text \<open>What a request can do to the flags: leave those that are set, or stop one VM.\<close>

definition stays_or_stops :: "'w os \<Rightarrow> 'w rm_state \<Rightarrow> 'w rm_state \<Rightarrow> bool" where
  "stays_or_stops os s s' \<longleftrightarrow> flags_stay s s' \<or>
     (\<exists>v k w r t w'. vm_mngr_get_instance v (rm_vms s) = Some k \<and> VM_running (vm_at s k) \<and>
        stop_close os k (stop_flag os k (s\<lparr>rm_world := w\<rparr>)) = Inr (r, t) \<and> s' = t\<lparr>rm_world := w'\<rparr>)"

lemma flags_stay_same: "flags_stay s s"
  by (simp add: flags_stay_def)

lemma flags_stay_put:
  assumes "mngr_VMs (rm_vms s') = (mngr_VMs (rm_vms s))[k := V]" "VM_running (vm_at s k) \<longrightarrow> VM_running V"
  shows "flags_stay s s'"
  unfolding flags_stay_def vm_at_def assms(1)
  using assms(2) by (cases "k < length (mngr_VMs (rm_vms s))") (auto simp: vm_at_def nth_list_update list_update_beyond)

lemma flags_stay_table: "rm_vms s' = rm_vms s \<Longrightarrow> flags_stay s s'"
  by (simp add: flags_stay_def vm_at_def)

lemmas put_simps = put_vm_def mngr_put_def vm_at_def bindE_eq_Inr Let_def

lemma create_flags:
  assumes "vm_mngr_instance_create v cs (rm_vms s) = Inr (r, m)"
  shows "flags_stay s (s\<lparr>rm_vms := m\<rparr>)"
  using assms
  by (auto simp: vm_mngr_instance_create_def put_simps flags_stay_table split: if_splits)
    (rule flags_stay_put, simp, simp add: vm_at_def)

lemma counted_running: "VM_running (VMs[k := (VMs ! k)\<lparr>VM_memdev_counter := n\<rparr>] ! k) = VM_running (VMs ! k)"
  by (cases "k < length VMs") (simp_all add: list_update_beyond)

lemma alloc_flags: "vm_mngr_instance_alloc_mem os nid v sz s = Inr (a, s') \<Longrightarrow> flags_stay s s'"
  by (auto simp: vm_mngr_instance_alloc_mem_def vm_mngr_get_new_memdev_idx_def put_simps flags_stay_table
      split: if_splits option.splits prod.splits)
    (rule flags_stay_put, simp, simp add: vm_at_def counted_running)

lemma free_flags: "vm_mngr_instance_free_mem v i s = Inr (r, s') \<Longrightarrow> flags_stay s s'"
  by (auto simp: vm_mngr_instance_free_mem_def put_simps flags_stay_table split: if_splits option.splits prod.splits)
    (rule flags_stay_put, simp, simp add: vm_at_def)

lemma destroy_flags: "vm_mngr_instance_destroy v s = Inr (r, s') \<Longrightarrow> flags_stay s s'"
  by (auto simp: vm_mngr_instance_destroy_def put_simps flags_stay_table split: if_splits option.splits prod.splits)
    (rule flags_stay_put, simp, simp add: vm_at_def)

lemma start_flags: "vm_mngr_instance_start os v s = Inr (r, s') \<Longrightarrow> flags_stay s s'"
  by (auto simp: vm_mngr_instance_start_def put_simps flags_stay_same split: if_splits option.splits)
    (rule flags_stay_put, simp, simp add: vm_at_def)+

lemma stop_flags:
  assumes "vm_mngr_instance_stop os v s = Inr (r, s')"
  shows "stays_or_stops os s s'"
proof (cases "\<exists>k. vm_mngr_get_instance v (rm_vms s) = Some k \<and> VM_running (vm_at s k)")
  case True
  then obtain k where k: "vm_mngr_get_instance v (rm_vms s) = Some k" "VM_running (vm_at s k)" by blast
  with assms have "stop_close os k (stop_flag os k (s\<lparr>rm_world := rm_world s\<rparr>)) = Inr (r, s')" by (simp add: stop_split)
  moreover have "s' = s'\<lparr>rm_world := rm_world s'\<rparr>" by simp
  ultimately show ?thesis using k unfolding stays_or_stops_def by blast
next
  case False
  with assms have "s' = s" by (auto simp: stop_split split: option.splits)
  then show ?thesis by (simp add: stays_or_stops_def flags_stay_same)
qed

lemma flags_stay_world: "flags_stay (s\<lparr>rm_world := w\<rparr>) s' = flags_stay s s'"
  "flags_stay s (s'\<lparr>rm_world := w\<rparr>) = flags_stay s s'"
  by (simp_all add: flags_stay_def)

lemma stays: "flags_stay s s' \<Longrightarrow> stays_or_stops os s s'"
  by (simp add: stays_or_stops_def)

lemma stays_or_stops_world_l: "stays_or_stops os (s\<lparr>rm_world := w\<rparr>) s' = stays_or_stops os s s'"
  by (simp add: stays_or_stops_def flags_stay_world)

lemma stays_or_stops_world_r: "stays_or_stops os s (s'\<lparr>rm_world := w\<rparr>) = stays_or_stops os s s'"
proof -
  have "stays_or_stops os s (u\<lparr>rm_world := w\<rparr>)" if "stays_or_stops os s u" for u w
    using that unfolding stays_or_stops_def flags_stay_world by (elim disjE exE conjE) force+
  from this [of s' w] this [of "s'\<lparr>rm_world := w\<rparr>" "rm_world s'"] show ?thesis by auto
qed

interpretation flags: respected os "stays_or_stops os" for os
  by unfold_locales
    (rule stays_or_stops_world_l stays_or_stops_world_r
      | erule stop_flags
      | rule stays, (rule flags_stay_same | erule create_flags alloc_flags free_flags destroy_flags start_flags))+

lemma coarse_step:
  assumes "rm_step os js lib (args, s) (args', s')" "rm_inv s"
  shows "fine_steps os js lib (Serving, Between, s) (Serving, Between, s')"
  using assms(1)
proof cases
  case (Client fd)
  with flags.client [OF assms(2), of os js fd args] have "stays_or_stops os s s'" by (auto dest!: ensuresD)
  then consider "flags_stay s s'" | (stops) v k w r t w' where
    "vm_mngr_get_instance v (rm_vms s) = Some k" "VM_running (vm_at s k)"
    "stop_close os k (stop_flag os k (s\<lparr>rm_world := w\<rparr>)) = Inr (r, t)" "s' = t\<lparr>rm_world := w'\<rparr>"
    unfolding stays_or_stops_def by blast
  then show ?thesis
  proof cases
    case 1
    with Client fine_step.Request show ?thesis by blast
  next
    case stops
    have "fine_steps os js lib (Serving, Between, s) (Serving, Between, s\<lparr>rm_world := w\<rparr>)"
      by (rule r_into_rtranclp, rule fine_step.World)
    also have "fine_steps os js lib \<dots> (Stopping k, Between, stop_flag os k (s\<lparr>rm_world := w\<rparr>))"
      by (rule r_into_rtranclp, rule fine_step.StopFlag) (use stops in simp_all)
    also have "fine_steps os js lib \<dots> (Serving, Between, t)"
      by (rule r_into_rtranclp, rule fine_step.StopClose) (use stops in simp_all)
    also have "fine_steps os js lib \<dots> (Serving, Between, s')" 
      unfolding stops(4) by (rule r_into_rtranclp, rule fine_step.World)
    finally show ?thesis .
  qed
next
  case (World w)
  then show ?thesis by (auto intro: r_into_rtranclp fine_step.World)
qed (blast intro: monitor_acts.intros fine_step.Look fine_step.Act converse_rtranclp_into_rtranclp r_into_rtranclp)+

lemma coarse_steps:
  assumes "rm_steps os js lib (args, s) (args', s')" "rm_inv s"
  shows "fine_steps os js lib (Serving, Between, s) (Serving, Between, s')"
  using assms
proof (induction rule: rtranclp_induct2)
  case (step a1 s1 a2 s2)
  have "rm_inv s1" using rm_steps_sim [OF step(1)] step(4) by simp
  from rtranclp_trans [OF step(3) [OF step(4)] coarse_step [OF step(2) this]] show ?case .
qed simp

section \<open>The late close happens\<close>

text \<open>A millisecond later the second half runs, whatever the monitor is about to do.\<close>

lemma late_monitor:
  assumes inv: "rm_inv s" and k: "vm_mngr_get_instance v (rm_vms s) = Some k" "VM_running (vm_at s k)"
    and cores: "0 < VM_num_cores (vm_at s k)" and run: "vm_mngr_instance_stop os v s = Inr (r, s')"
  shows "fine_steps os js lib (Serving, Between, s) (Serving, Acting k, s')"
    and "vm_perf_update os (vm_at s' k, w) = Inl BadPointer"
proof -
  have "k < nat MAX_NUM_VM"
    using get_instanceD(1) [OF k(1)] inv table_length [OF inv] by (simp add: rm_inv_def)
  then have "fine_steps os js lib (Serving, Between, s) (Serving, Acting k, s)"
    using k(2) by (intro r_into_rtranclp fine_step.Look)
  also have "fine_steps os js lib \<dots> (Stopping k, Acting k, stop_flag os k s)"
    using k by (intro r_into_rtranclp fine_step.StopFlag)
  also have "fine_steps os js lib \<dots> (Serving, Acting k, s')"
    by (rule r_into_rtranclp, rule fine_step.StopClose) (use run k in \<open>simp_all add: stop_split\<close>)
  finally show "fine_steps os js lib (Serving, Between, s) (Serving, Acting k, s')" .
  show "vm_perf_update os (vm_at s' k, w) = Inl BadPointer"
    using stop_clears [OF inv k run] cores by (intro late_update_faults) auto
qed

end
