(* ===== verification/Session.thy ===== *)
theory Session
  imports ProtocolCorrect Interleave
begin

text \<open>
  What clients see over time.  A session is a run of the process in which the requests are those
  of the protocol, with its transcript: each request and the answer to it.  The monitor works and the world
  changes in between.  Every transcript is a conversation of the specification, and from
  this alone follows what the clients may rely on: the ranges of memory they were told do not overlap
  as long as they are not given back.
\<close>

section \<open>Transcripts\<close>

type_synonym transcript = "(request \<times> string) list"

inductive session ::
    "'w os \<Rightarrow> 'j json_lib \<Rightarrow> 'w curl_lib \<Rightarrow> string option \<times> 'w rm_state \<Rightarrow> transcript \<Rightarrow>
       string option \<times> 'w rm_state \<Rightarrow> bool"
  for os :: "'w os" and js :: "'j json_lib" and lib :: "'w curl_lib" and st :: "string option \<times> 'w rm_state" where
  Begin: "session os js lib st [] st"
| Work: "session os js lib st tr (args, s) \<Longrightarrow> k < nat MAX_NUM_VM \<Longrightarrow> VM_running (vm_at s k) \<Longrightarrow>
    monitor_acts os js lib k s s' \<Longrightarrow> session os js lib st tr (args, s')"
| World: "session os js lib st tr (args, s) \<Longrightarrow> session os js lib st tr (args, s\<lparr>rm_world := w\<rparr>)"
| Answer: "session os js lib st tr (args, s) \<Longrightarrow> request_ok r \<Longrightarrow>
    serve os js (print_request r) args s = Inr (t, args', s') \<Longrightarrow>
    session os js lib st (tr @ [(r, t)]) (args', s')"

text \<open>A client of the server loop whose message is a printed request continues the session.\<close>

lemma client_continues:
  assumes "session os js lib st tr (args, s)" "request_ok r"
    "os_accept os fd (rm_world s) = (c, w)" "0 \<le> c"
    "sys_recv os c (nat BUFFER_SIZE) w = (Some (print_request r), w1)"
    "rpc_client os js fd (args, s) = Inr st'"
  shows "\<exists>t. session os js lib st (tr @ [(r, t)]) st'"
proof -
  note p = print_request_sent [OF assms(2)]
  from assms(1) have s1: "session os js lib st tr (args, s\<lparr>rm_world := w1\<rparr>)" by (rule session.World)
  have "length (spaced (fst (request_words r) # snd (request_words r))) < 1024"
    using p(3) by (simp add: print_request_def)
  from client_scanned [OF p(1) this p(2)] have "request_text (Some (print_request r)) = Inr (print_request r)"
    by blast
  with assms(3-6) obtain t args' s' where
    "serve os js (print_request r) args (s\<lparr>rm_world := w1\<rparr>) = Inr (t, args', s')"
    and st': "st' = (args', s'\<lparr>rm_world := snd (os_close os c (snd (os_send os c t (rm_world s'))))\<rparr>)"
    by (auto simp: rpc_client_def bindE_eq_Inr Let_def case_prod_beta)
  from session.Answer [OF s1 assms(2) this(1)] have "session os js lib st (tr @ [(r, t)]) (args', s')" .
  then have "session os js lib st (tr @ [(r, t)]) st'" by (subst st') (rule session.World)
  then show ?thesis ..
qed

section \<open>Conversations of the specification\<close>

fun conversation :: "transcript \<Rightarrow> vm_spec \<Rightarrow> vm_spec \<Rightarrow> bool" where
  "conversation [] a c \<longleftrightarrow> c = a"
| "conversation (e # es) a c \<longleftrightarrow> (\<exists>b. answered (fst e) a (snd e) b \<and> conversation es b c)"

lemma conversation_append:
  "conversation (xs @ ys) a c \<longleftrightarrow> (\<exists>b. conversation xs a b \<and> conversation ys b c)"
  by (induction xs arbitrary: a) (simp, metis append_Cons conversation.simps(2))

lemma act_unseen:
  assumes "rm_inv s" "k < nat MAX_NUM_VM" "VM_running (vm_at s k)" "monitor_acts os js lib k s s'"
  shows "rm_inv s' \<and> vm_spec_of s' = vm_spec_of s"
proof -
  from monitor_acts_put [OF assms(4)] obtain V w where
    "s' = (put_vm k V s)\<lparr>rm_world := w\<rparr>" "perf_frame (vm_at s k) V"
    "VM_perf_event_fds V = VM_perf_event_fds (vm_at s k)" by blast
  with put_counters_spec [OF assms(1,3,2), of V w] show ?thesis by simp
qed

lemma session_conversation:
  assumes "session os js lib st tr st'" "rm_inv (snd st)"
  shows "rm_inv (snd st') \<and> conversation tr (vm_spec_of (snd st)) (vm_spec_of (snd st'))"
  using assms
proof (induction rule: session.induct)
  case (Work tr args s k s')
  with act_unseen [of s k os js lib s'] show ?case by simp
next
  case (Answer tr args s r t args' s')
  note inv = serve_inv [of s os js "print_request r" args]
  from Answer(3) serve_request [OF Answer(2), of os js args s] have "perform os js r s = Inr (t, s')"
    by (auto simp: bindE_eq_Inr)
  with Answer perform_answered [of s r os js t s'] inv show ?case
    by (auto simp: conversation_append sim_def simp del: answered.simps dest!: ensuresD)
qed auto

section \<open>What the answers promise\<close>

lemma show_int_inject: "show_int i = show_int j \<longleftrightarrow> i = j"
  using scan_int_show [of "[]" i] scan_int_show [of "[]" j] by (metis no_digit_first_simps(1) option.inject prod.inject)

lemma append_cut:
  assumes "c \<notin> set ys" "c \<notin> set ys'" "xs @ c # ys = xs' @ c # ys'"
  shows "ys = ys'"
proof -
  have "takeWhile (\<lambda>x. x \<noteq> c) (rev (xs @ c # ys)) = rev ys" if "c \<notin> set ys" for xs ys
    using that by (auto simp: takeWhile_tail takeWhile_append takeWhile_eq_all_conv)
  with assms have "rev ys = rev ys'" by metis
  then show ?thesis by simp
qed

text \<open>The answer to \<open>alloc-mem\<close> tells the id and the offset of the grant.\<close>

lemma grant_text_inject:
  assumes "grant_text i q = grant_text j r"
  shows "i = j" and "req_offset_mb q = req_offset_mb r"
proof -
  have "scan_int (drop 6 (grant_text i q)) = scan_int (drop 6 (grant_text j r))" using assms by simp
  then show "i = j" by (simp add: grant_text_def scan_int_show is_digit_def)
  have eq: "CHR ''='' \<notin> set (show_int k @ ''M'')" for k
    using show_int_chars [of "CHR ''=''" k] by (auto simp: is_digit_def)
  have "\<exists>p. grant_text i q = p @ CHR ''='' # show_int (req_offset_mb q) @ ''M''" for i q
    unfolding grant_text_def
    by (intro exI [of _ "''id=mem'' @ show_int i @ '',mem-path='' @ req_dev_path q @ '',size='' @
      show_int (req_size_mb q) @ ''M,align='' @ show_int (req_align_mb q) @ ''M,offset''"]) simp
  then obtain p p' where "p @ CHR ''='' # show_int (req_offset_mb q) @ ''M'' = p' @ CHR ''='' # show_int (req_offset_mb r) @ ''M''"
    using assms by metis
  from append_cut [OF eq eq this] show "req_offset_mb q = req_offset_mb r" by (simp add: show_int_inject)
qed

lemma grant_not_failed: "grant_text i q \<noteq> ''Allocate failed''"
  by (simp add: grant_text_def)

text \<open>The answers that give a grant back.\<close>

definition gives_back :: "int \<Rightarrow> int \<Rightarrow> request \<times> string \<Rightarrow> bool" where
  "gives_back v i e \<longleftrightarrow> e = (FreeMem v i, ''Release success'') \<or> e = (DestroyVm v, vm_answer ''Destroy'' v 0)"

lemma answered_keeps:
  assumes "answered r a t b" "sp_grants a (v, i) = Some q" "\<not> gives_back v i (r, t)"
  shows "sp_grants b (v, i) = Some q"
  using assms by (cases r) (auto simp: gives_back_def Let_def split: if_splits)

lemma conversation_keeps:
  assumes "conversation tr a c" "sp_grants a (v, i) = Some q" "\<forall>e \<in> set tr. \<not> gives_back v i e"
  shows "sp_grants c (v, i) = Some q"
  using assms
proof (induction tr arbitrary: a)
  case (Cons e es)
  then obtain b where b: "answered (fst e) a (snd e) b" "conversation es b c" by auto
  with Cons.prems answered_keeps [of "fst e" a "snd e" b v i q] have "sp_grants b (v, i) = Some q" by simp
  with Cons.IH [OF b(2)] Cons.prems(3) show ?case by simp
qed simp

lemma answered_grant:
  assumes "answered (AllocMem n v z) a (grant_text i q) b"
  obtains q' where "sp_grants b (v, i) = Some q'" "req_node_id q' = n" "req_size_mb q' = z"
    "req_offset_mb q' = req_offset_mb q" "\<And>k r. sp_grants a k = Some r \<Longrightarrow> grants_apart q' r"
proof -
  from assms grant_not_failed obtain j q' where
    "grant_text i q = grant_text j q'" "req_node_id q' = n" "req_size_mb q' = z"
    "\<And>k r. sp_grants a k = Some r \<Longrightarrow> grants_apart q' r" "b = a\<lparr>sp_grants := (sp_grants a)((v, j) \<mapsto> q')\<rparr>"
    by auto
  with grant_text_inject [OF this(1)] show thesis by (intro that [of q']) auto
qed

lemma conversation_apart:
  assumes "conversation (xs @ (AllocMem n v z, grant_text i q) # ys @ (AllocMem n v' z', grant_text j r) # zs) a c"
    "\<forall>e \<in> set ys. \<not> gives_back v i e"
  shows "req_offset_mb q + z \<le> req_offset_mb r \<or> req_offset_mb r + z' \<le> req_offset_mb q"
proof -
  from assms(1) obtain a1 a2 a3 a4 where
    q: "answered (AllocMem n v z) a1 (grant_text i q) a2" and ys: "conversation ys a2 a3"
    and r: "answered (AllocMem n v' z') a3 (grant_text j r) a4"
    by (auto simp: conversation_append simp del: answered.simps)
  from answered_grant [OF q] obtain q' where
    q': "sp_grants a2 (v, i) = Some q'" "req_node_id q' = n" "req_size_mb q' = z" "req_offset_mb q' = req_offset_mb q" .
  from answered_grant [OF r] obtain r' where
    r': "req_node_id r' = n" "req_size_mb r' = z'" "req_offset_mb r' = req_offset_mb r"
      "\<And>k r. sp_grants a3 k = Some r \<Longrightarrow> grants_apart r' r" by blast
  from r'(4) [OF conversation_keeps [OF ys q'(1) assms(2)]] q' r' show ?thesis
    by (auto simp: grants_apart_def)
qed

end
