(* ===== verification/CoreWalk.thy ===== *)
theory CoreWalk
  imports Vm
begin

text \<open>
  The walk over a core set once more, at the level of \<open>strtok\<close>.  Between two calls \<open>strtok\<close> keeps its
  position in a static variable that the server and the monitor share, and each walk works on a
  copy of its core set that it frees at the end.  A walk that nobody disturbs is
  \<open>vm_mngr_for_each_core\<close>; one that is interrupted by another walk is left with a position in a
  string that is gone.
\<close>

section \<open>The static position\<close>

text \<open>A position is a buffer and the text from there to its end.\<close>

record strtok_state =
  tok_save :: "(nat \<times> string) option"
  tok_live :: "nat set"

definition strtok_from :: "char \<Rightarrow> nat \<times> string \<Rightarrow> strtok_state \<Rightarrow> string option \<times> strtok_state" where
  "strtok_from d p st =
     (let s = dropWhile (\<lambda>c. c = d) (snd p) in
      if s = [] then (None, st\<lparr>tok_save := Some (fst p, [])\<rparr>)
      else (Some (takeWhile (\<lambda>c. c \<noteq> d) s),
            st\<lparr>tok_save := Some (fst p, drop 1 (dropWhile (\<lambda>c. c \<noteq> d) s))\<rparr>))"

text \<open>\<open>strtok(NULL, d)\<close>.\<close>

definition strtok_next :: "char \<Rightarrow> strtok_state \<Rightarrow> (string option \<times> strtok_state) res" where
  "strtok_next d st =
     (case tok_save st of
        None \<Rightarrow> Inl BadPointer
      | Some p \<Rightarrow> if fst p \<in> tok_live st then Inr (strtok_from d p st) else Inl BadPointer)"

definition saved_length :: "strtok_state \<Rightarrow> nat" where
  "saved_length st = (case tok_save st of None \<Rightarrow> 0 | Some p \<Rightarrow> length (snd p))"

lemma strtok_from_shorter:
  assumes "strtok_from d p st = (Some t, st')"
  shows "saved_length st' < length (snd p)"
proof -
  let ?s = "dropWhile (\<lambda>c. c = d) (snd p)"
  from assms have s: "?s \<noteq> []" "tok_save st' = Some (fst p, drop 1 (dropWhile (\<lambda>c. c \<noteq> d) ?s))"
    by (auto simp: strtok_from_def Let_def split: if_splits)
  have "length (dropWhile (\<lambda>c. c \<noteq> d) ?s) \<le> length ?s" "length ?s \<le> length (snd p)"
    by (rule length_dropWhile_le)+
  with s show ?thesis by (cases ?s) (auto simp: saved_length_def)
qed

lemma strtok_next_shorter:
  "strtok_next d st = Inr p \<Longrightarrow> fst p \<noteq> None \<Longrightarrow> saved_length (snd p) < saved_length st"
  by (cases p) (auto simp: strtok_next_def saved_length_def [of st] split: option.splits if_splits
      dest: strtok_from_shorter)

section \<open>The walk\<close>

text \<open>The \<open>while\<close> loop of \<open>vm_mngr_for_each_core\<close>, from a token on.\<close>

function walk_rest ::
    "(int \<Rightarrow> 's \<Rightarrow> 's res) \<Rightarrow> string option \<Rightarrow> 's \<Rightarrow> strtok_state \<Rightarrow> ('s \<times> strtok_state) res" where
  "walk_rest core_handler token s st =
     (case token of
        None \<Rightarrow> Inr (s, st)
      | Some t \<Rightarrow>
          bindE (visit_token core_handler t s) (\<lambda>s.
          bindE (strtok_next CHR '','' st) (\<lambda>p.
          walk_rest core_handler (fst p) s (snd p))))"
  by pat_completeness auto
termination
  by (relation "measure (\<lambda>(h, token, s, st). if token = None then 0 else Suc (saved_length st))")
    (auto dest: strtok_next_shorter)

declare walk_rest.simps [simp del]

definition each_core_strtok ::
    "nat \<Rightarrow> string \<Rightarrow> (int \<Rightarrow> 's \<Rightarrow> 's res) \<Rightarrow> 's \<Rightarrow> strtok_state \<Rightarrow> ('s \<times> strtok_state) res" where
  "each_core_strtok copy core_set core_handler s st =
     bindE (BUG_ON (core_set = [])) (\<lambda>_.
     let (token, st) = strtok_from CHR '','' (copy, core_set) (st\<lparr>tok_live := insert copy (tok_live st)\<rparr>) in
     bindE (walk_rest core_handler token s st) (\<lambda>(s, st).
     Inr (s, st\<lparr>tok_live := tok_live st - {copy}\<rparr>)))"


section \<open>Undisturbed walks\<close>

lemma split_at_piece: "d \<notin> set t \<Longrightarrow> split_at d (t @ d # r) = t # split_at d r"
  by (induction t) auto

lemma split_at_last: "d \<notin> set t \<Longrightarrow> split_at d t = [t]"
  by (induction t) auto

lemma strtok_all_drop: "strtok_all d s = strtok_all d (dropWhile (\<lambda>c. c = d) s)"
  by (induction s) (auto simp: strtok_all_def)

text \<open>\<open>strtok_all\<close> is what the calls of \<open>strtok\<close> yield.\<close>

lemma strtok_all_step:
  assumes "dropWhile (\<lambda>c. c = d) s = u" "u \<noteq> []"
  shows "strtok_all d s = takeWhile (\<lambda>c. c \<noteq> d) u # strtok_all d (drop 1 (dropWhile (\<lambda>c. c \<noteq> d) u))"
proof -
  have hd: "hd u \<noteq> d" using hd_dropWhile [of "\<lambda>c. c = d" s] assms by simp
  define t where "t = takeWhile (\<lambda>c. c \<noteq> d) u"
  define r where "r = dropWhile (\<lambda>c. c \<noteq> d) u"
  have u: "u = t @ r" and t: "d \<notin> set t" by (auto simp: t_def r_def dest: set_takeWhileD)
  have "t \<noteq> []" using hd assms(2) by (cases u) (auto simp: t_def)
  moreover have "r = [] \<or> hd r = d" using hd_dropWhile [of "\<lambda>c. c \<noteq> d" u] by (auto simp: r_def)
  ultimately have "strtok_all d u = t # strtok_all d (drop 1 r)"
    using t u by (cases r) (auto simp: strtok_all_def split_at_piece split_at_last)
  then show ?thesis using strtok_all_drop [of d s] assms(1) by (simp add: t_def r_def)
qed

lemma walk_rest_all:
  assumes "b \<in> tok_live st" "strtok_from CHR '','' (b, str) st = (token, st')"
  shows "walk_rest h token s st' =
    bindE (foldE (visit_token h) (strtok_all CHR '','' str) s) (\<lambda>s. Inr (s, st\<lparr>tok_save := Some (b, [])\<rparr>))"
  using assms
proof (induction "length str" arbitrary: str token st st' s rule: less_induct)
  case less
  define u where "u = dropWhile (\<lambda>c. c = CHR '','') str"
  show ?case
  proof (cases "u = []")
    case True
    then have "strtok_all CHR '','' str = []"
      using strtok_all_drop [of "CHR '',''" str] by (simp add: u_def [symmetric]) (simp add: strtok_all_def)
    with True less.prems show ?thesis
      by (auto simp: strtok_from_def u_def [symmetric] walk_rest.simps [of _ None])
  next
    case False
    let ?t = "takeWhile (\<lambda>c. c \<noteq> CHR '','') u" and ?r = "drop 1 (dropWhile (\<lambda>c. c \<noteq> CHR '','') u)"
    have all: "strtok_all CHR '','' str = ?t # strtok_all CHR '','' ?r"
      by (rule strtok_all_step [OF u_def [symmetric] False])
    have tok: "token = Some ?t" "st' = st\<lparr>tok_save := Some (b, ?r)\<rparr>"
      using less.prems(2) False by (auto simp: strtok_from_def u_def [symmetric])
    have "length ?r < length str"
      using strtok_from_shorter [OF less.prems(2) [unfolded tok(1)]] tok(2) by (simp add: saved_length_def)
    note IH = less.hyps [OF this]
    obtain tk st2 where nx: "strtok_from CHR '','' (b, ?r) st' = (tk, st2)" by (metis surj_pair)
    then have "strtok_next CHR '','' st' = Inr (tk, st2)" using less.prems(1) tok(2) by (simp add: strtok_next_def)
    then show ?thesis
      using IH [OF _ nx] less.prems(1) by (simp add: all tok walk_rest.simps [of _ "Some ?t"] bindE_assoc)
  qed
qed

lemma each_core_alone:
  assumes "copy \<notin> tok_live st"
  shows "each_core_strtok copy core_set h s st =
    bindE (vm_mngr_for_each_core core_set h s) (\<lambda>s. Inr (s, st\<lparr>tok_save := Some (copy, [])\<rparr>))"
proof -
  let ?st = "st\<lparr>tok_live := insert copy (tok_live st)\<rparr>"
  obtain token st' where t: "strtok_from CHR '','' (copy, core_set) ?st = (token, st')" by (metis surj_pair)
  have "walk_rest h token s st' = bindE (foldE (visit_token h) (strtok_all CHR '','' core_set) s)
      (\<lambda>s. Inr (s, ?st\<lparr>tok_save := Some (copy, [])\<rparr>))"
    by (rule walk_rest_all [OF _ t]) simp
  moreover have "insert copy (tok_live st) - {copy} = tok_live st" using assms by simp
  ultimately show ?thesis
    by (simp add: each_core_strtok_def vm_mngr_for_each_core_def t bindE_assoc)
qed

section \<open>Disturbed walks\<close>

text \<open>A walk that is between two tokens while another one runs through.\<close>

lemma walk_disturbed:
  assumes "copy \<notin> tok_live st" "each_core_strtok copy core_set h s st = Inr (s', st')"
    "visit_token g t u = Inr u'"
  shows "walk_rest g (Some t) u st' = Inl BadPointer"
proof -
  have "tok_save st' = Some (copy, [])" "copy \<notin> tok_live st'"
    using assms(1,2) each_core_alone [OF assms(1), of core_set h s] by (auto simp: bindE_eq_Inr)
  then show ?thesis by (simp add: walk_rest.simps [of g "Some t"] assms(3) strtok_next_def)
qed

end
