(* ===== verification/QemuContract.thy ===== *)
theory QemuContract
  imports ProtocolCorrect
begin

text \<open>
  Attaching and detaching against a QEMU that keeps its documentation.  QEMU is not part of the
  sources; what the agent relies on is the predicate \<open>qemu_contract\<close> about the four commands for one
  memory id of one VM, over two observations of the world: whether the backend object exists, and
  whether the DIMM does.
\<close>

section \<open>The contract\<close>

text \<open>
  \<open>object-add\<close> refuses an id in use, \<open>device_add\<close> needs the object and refuses a device id in use,
  \<open>device_del\<close> needs the device, which goes away at some later time, \<open>object-del\<close> needs an object that no
  device uses.  Waiting and allocating memory in the server create nothing in QEMU.  Nothing is said
  of what a command that is answered by an error, or not at all, has done beyond that.
\<close>

definition qemu_contract ::
    "'w os \<Rightarrow> 'j json_lib \<Rightarrow> int \<Rightarrow> int \<Rightarrow> memory_request \<Rightarrow> ('w \<Rightarrow> bool) \<Rightarrow> ('w \<Rightarrow> bool) \<Rightarrow> bool" where
  "qemu_contract os js v i q obj dev \<longleftrightarrow>
     (\<forall>n w r w'. qmp_execute os js v (create_object_cmd js (hotplug_request_of i n q)) w = Inr (r, w') \<longrightarrow>
        (r = 0 \<longrightarrow> \<not> obj w \<and> obj w') \<and> (obj w \<longrightarrow> obj w') \<and> dev w' = dev w) \<and>
     (\<forall>n w r w'. qmp_execute os js v (add_device_cmd js (hotplug_request_of i n q)) w = Inr (r, w') \<longrightarrow>
        (r = 0 \<longrightarrow> obj w \<and> \<not> dev w \<and> dev w') \<and> obj w' = obj w) \<and>
     (\<forall>w r w'. qmp_execute os js v (del_device_cmd js (hotunplug_request_of i)) w = Inr (r, w') \<longrightarrow>
        (r = 0 \<longrightarrow> dev w) \<and> obj w' = obj w \<and> (dev w' \<longrightarrow> dev w)) \<and>
     (\<forall>w r w'. qmp_execute os js v (free_object_cmd js (hotunplug_request_of i)) w = Inr (r, w') \<longrightarrow>
        (r = 0 \<longrightarrow> obj w \<and> \<not> dev w \<and> \<not> obj w') \<and> dev w' = dev w) \<and>
     (\<forall>n w. obj (os_usleep os n w) = obj w \<and> (dev (os_usleep os n w) \<longrightarrow> dev w)) \<and>
     (\<forall>n w. obj (snd (os_malloc os n w)) = obj w \<and> dev (snd (os_malloc os n w)) = dev w)"

lemma contractD:
  assumes "qemu_contract os js v i q obj dev"
  shows "qmp_execute os js v (create_object_cmd js (hotplug_request_of i n q)) w = Inr (r, w') \<Longrightarrow>
      (r = 0 \<longrightarrow> \<not> obj w \<and> obj w') \<and> (obj w \<longrightarrow> obj w') \<and> dev w' = dev w"
    and "qmp_execute os js v (add_device_cmd js (hotplug_request_of i n q)) w = Inr (r, w') \<Longrightarrow>
      (r = 0 \<longrightarrow> obj w \<and> \<not> dev w \<and> dev w') \<and> obj w' = obj w"
    and "qmp_execute os js v (del_device_cmd js (hotunplug_request_of i)) w = Inr (r, w') \<Longrightarrow>
      (r = 0 \<longrightarrow> dev w) \<and> obj w' = obj w \<and> (dev w' \<longrightarrow> dev w)"
    and "qmp_execute os js v (free_object_cmd js (hotunplug_request_of i)) w = Inr (r, w') \<Longrightarrow>
      (r = 0 \<longrightarrow> obj w \<and> \<not> dev w \<and> \<not> obj w') \<and> dev w' = dev w"
    and "obj (os_usleep os m w) = obj w \<and> (dev (os_usleep os m w) \<longrightarrow> dev w)"
    and "obj (snd (os_malloc os m w)) = obj w \<and> dev (snd (os_malloc os m w)) = dev w"
proof -
  note c = assms [unfolded qemu_contract_def] and T = conjunct2
  note laws = c [THEN conjunct1] c [THEN T, THEN conjunct1] c [THEN T, THEN T, THEN conjunct1]
    c [THEN T, THEN T, THEN T, THEN conjunct1] c [THEN T, THEN T, THEN T, THEN T, THEN conjunct1]
    c [THEN T, THEN T, THEN T, THEN T, THEN T]
  show "qmp_execute os js v (create_object_cmd js (hotplug_request_of i n q)) w = Inr (r, w') \<Longrightarrow>
      (r = 0 \<longrightarrow> \<not> obj w \<and> obj w') \<and> (obj w \<longrightarrow> obj w') \<and> dev w' = dev w"
    by (rule laws(1) [THEN spec, THEN spec, THEN spec, THEN spec, THEN mp])
  show "qmp_execute os js v (add_device_cmd js (hotplug_request_of i n q)) w = Inr (r, w') \<Longrightarrow>
      (r = 0 \<longrightarrow> obj w \<and> \<not> dev w \<and> dev w') \<and> obj w' = obj w"
    by (rule laws(2) [THEN spec, THEN spec, THEN spec, THEN spec, THEN mp])
  show "qmp_execute os js v (del_device_cmd js (hotunplug_request_of i)) w = Inr (r, w') \<Longrightarrow>
      (r = 0 \<longrightarrow> dev w) \<and> obj w' = obj w \<and> (dev w' \<longrightarrow> dev w)"
    by (rule laws(3) [THEN spec, THEN spec, THEN spec, THEN mp])
  show "qmp_execute os js v (free_object_cmd js (hotunplug_request_of i)) w = Inr (r, w') \<Longrightarrow>
      (r = 0 \<longrightarrow> obj w \<and> \<not> dev w \<and> \<not> obj w') \<and> dev w' = dev w"
    by (rule laws(4) [THEN spec, THEN spec, THEN spec, THEN mp])
  show "obj (os_usleep os m w) = obj w \<and> (dev (os_usleep os m w) \<longrightarrow> dev w)"
    by (rule laws(5) [THEN spec, THEN spec])
  show "obj (snd (os_malloc os m w)) = obj w \<and> dev (snd (os_malloc os m w)) = dev w"
    by (rule laws(6) [THEN spec, THEN spec])
qed

section \<open>The agent against it\<close>

lemma plug_effect:
  assumes con: "qemu_contract os js v i q obj dev"
    and run: "qemu_agent_hotplug_memory os js v (hotplug_request_of i n q) w = Inr (ret, w')"
  shows "ret = 0 \<Longrightarrow> \<not> obj w \<and> \<not> dev w \<and> obj w' \<and> dev w'"
    and "obj w \<Longrightarrow> \<not> dev w \<Longrightarrow> ret = -1 \<and> obj w' \<and> \<not> dev w'"
proof -
  from run obtain r w1 where c: "qmp_execute os js v (create_object_cmd js (hotplug_request_of i n q)) w = Inr (r, w1)"
    by (auto simp: qemu_agent_hotplug_memory_def qemu_agent_create_object_def bindE_eq_Inr)
  note law = contractD(1) [OF con c]
  show "\<not> obj w \<and> \<not> dev w \<and> obj w' \<and> dev w'" if "ret = 0"
  proof -
    from hotplug_success [THEN iffD1, OF run [unfolded that]] c have
      d: "r = 0" "qmp_execute os js v (add_device_cmd js (hotplug_request_of i n q)) w1 = Inr (0, w')" by auto
    from contractD(2) [OF con d(2)] law d(1) show ?thesis by simp
  qed
  show "ret = -1 \<and> obj w' \<and> \<not> dev w'" if "obj w" "\<not> dev w"
  proof -
    have "r = -1" using law that(1) qmp_execute_ret [OF c] by auto
    with run c have "ret = -1 \<and> w' = w1"
      by (simp add: qemu_agent_hotplug_memory_def qemu_agent_create_object_def)
    with law that show ?thesis by simp
  qed
qed

lemma unplug_effect:
  assumes con: "qemu_contract os js v i q obj dev"
    and run: "qemu_agent_hotunplug_memory os js v (hotunplug_request_of i) w = Inr (ret, w')"
  shows "ret = 0 \<Longrightarrow> \<not> obj w' \<and> \<not> dev w'"
    and "obj w \<Longrightarrow> \<not> dev w \<Longrightarrow> ret = -1 \<and> obj w' \<and> \<not> dev w'"
proof -
  from run obtain r w1 where c: "qmp_execute os js v (del_device_cmd js (hotunplug_request_of i)) w = Inr (r, w1)"
    by (auto simp: qemu_agent_hotunplug_memory_def qemu_agent_del_device_def bindE_eq_Inr)
  note law = contractD(3) [OF con c]
  show "\<not> obj w' \<and> \<not> dev w'" if "ret = 0"
  proof -
    from hotunplug_success [THEN iffD1, OF run [unfolded that]] obtain w2 where
      "qmp_execute os js v (free_object_cmd js (hotunplug_request_of i)) (os_usleep os 3000000 w2) = Inr (0, w')" by blast
    from contractD(4) [OF con this] show ?thesis by simp
  qed
  show "ret = -1 \<and> obj w' \<and> \<not> dev w'" if "obj w" "\<not> dev w"
  proof -
    have "r = -1" using law that(2) qmp_execute_ret [OF c] by auto
    with run c have "ret = -1 \<and> w' = w1"
      by (simp add: qemu_agent_hotunplug_memory_def qemu_agent_del_device_def)
    with law that show ?thesis by simp
  qed
qed

section \<open>The requests against it\<close>

lemma perform_attach:
  assumes "vm_mngr_instance_get_mem v i (rm_vms s) = Some q" "perform os js (AttachMem i v n) s = Inr (t, s')"
  shows "\<exists>ret w'. qemu_agent_hotplug_memory os js v (hotplug_request_of i n q)
      (snd (os_malloc os (nat BUFFER_SIZE) (rm_world s))) = Inr (ret, w') \<and> s' = s\<lparr>rm_world := w'\<rparr> \<and>
    t = (if ret = 0 then ''Hotplug memory success'' else ''Hotplug memory failed'')"
  using assms by (auto simp: rpc_malloc_def bindE_eq_Inr case_prod_beta split: if_splits)

lemma perform_detach:
  assumes "vm_mngr_instance_get_mem v i (rm_vms s) = Some q" "perform os js (DetachMem i v) s = Inr (t, s')"
  shows "\<exists>ret w'. qemu_agent_hotunplug_memory os js v (hotunplug_request_of i)
      (snd (os_malloc os (nat BUFFER_SIZE) (rm_world s))) = Inr (ret, w') \<and> s' = s\<lparr>rm_world := w'\<rparr> \<and>
    t = (if ret = 0 then ''Hotunplug memory success'' else ''Hotunplug memory failed'')"
  using assms by (auto simp: rpc_malloc_def bindE_eq_Inr case_prod_beta split: if_splits)

lemma serve_perform:
  "request_ok r \<Longrightarrow> serve os js (print_request r) old s = Inr (t, a, s') \<Longrightarrow> perform os js r s = Inr (t, s')"
  by (auto simp: serve_request bindE_eq_Inr)

lemma attach_then_detach:
  assumes con: "qemu_contract os js v i q obj dev" and mem: "vm_mngr_instance_get_mem v i (rm_vms s) = Some q"
    and att: "perform os js (AttachMem i v n) s = Inr (''Hotplug memory success'', s1)"
    and det: "perform os js (DetachMem i v) s1 = Inr (''Hotunplug memory success'', s2)"
  shows "\<not> obj (rm_world s) \<and> \<not> dev (rm_world s) \<and> obj (rm_world s1) \<and> dev (rm_world s1) \<and>
    \<not> obj (rm_world s2) \<and> \<not> dev (rm_world s2) \<and> s2 = s\<lparr>rm_world := rm_world s2\<rparr>"
proof -
  from perform_attach [OF mem att] obtain w1 where
    a: "qemu_agent_hotplug_memory os js v (hotplug_request_of i n q) (snd (os_malloc os (nat BUFFER_SIZE) (rm_world s)))
      = Inr (0, w1)" "s1 = s\<lparr>rm_world := w1\<rparr>" by (auto split: if_splits)
  have mem1: "vm_mngr_instance_get_mem v i (rm_vms s1) = Some q" using mem by (simp add: a(2))
  from perform_detach [OF mem1 det] obtain w2 where
    d: "qemu_agent_hotunplug_memory os js v (hotunplug_request_of i) (snd (os_malloc os (nat BUFFER_SIZE) (rm_world s1)))
      = Inr (0, w2)" "s2 = s1\<lparr>rm_world := w2\<rparr>" by (auto split: if_splits)
  from plug_effect(1) [OF con a(1)] unplug_effect(1) [OF con d(1)] contractD(6) [OF con] show ?thesis
    by (simp add: a(2) d(2))
qed

text \<open>A backend without its DIMM is never used and never removed again.\<close>

lemma stuck_attach:
  assumes con: "qemu_contract os js v i q obj dev" and mem: "vm_mngr_instance_get_mem v i (rm_vms s) = Some q"
    and stuck: "obj (rm_world s)" "\<not> dev (rm_world s)" and run: "perform os js (AttachMem i v n) s = Inr (t, s')"
  shows "t = ''Hotplug memory failed'' \<and> obj (rm_world s') \<and> \<not> dev (rm_world s') \<and> rm_vms s' = rm_vms s"
proof -
  from perform_attach [OF mem run] obtain ret w' where
    a: "qemu_agent_hotplug_memory os js v (hotplug_request_of i n q) (snd (os_malloc os (nat BUFFER_SIZE) (rm_world s)))
      = Inr (ret, w')" "s' = s\<lparr>rm_world := w'\<rparr>"
      "t = (if ret = 0 then ''Hotplug memory success'' else ''Hotplug memory failed'')" by blast
  from plug_effect(2) [OF con a(1)] contractD(6) [OF con] stuck show ?thesis by (simp add: a(2,3))
qed

lemma stuck_detach:
  assumes con: "qemu_contract os js v i q obj dev" and mem: "vm_mngr_instance_get_mem v i (rm_vms s) = Some q"
    and stuck: "obj (rm_world s)" "\<not> dev (rm_world s)" and run: "perform os js (DetachMem i v) s = Inr (t, s')"
  shows "t = ''Hotunplug memory failed'' \<and> obj (rm_world s') \<and> \<not> dev (rm_world s') \<and> rm_vms s' = rm_vms s"
proof -
  from perform_detach [OF mem run] obtain ret w' where
    a: "qemu_agent_hotunplug_memory os js v (hotunplug_request_of i) (snd (os_malloc os (nat BUFFER_SIZE) (rm_world s)))
      = Inr (ret, w')" "s' = s\<lparr>rm_world := w'\<rparr>"
      "t = (if ret = 0 then ''Hotunplug memory success'' else ''Hotunplug memory failed'')" by blast
  from unplug_effect(2) [OF con a(1)] contractD(6) [OF con] stuck show ?thesis by (simp add: a(2,3))
qed

section \<open>After a refused attach\<close>

text \<open>Requests served one after the other, with their answers.\<close>

primrec serve_all ::
    "'w os \<Rightarrow> 'j json_lib \<Rightarrow> request list \<Rightarrow> string option \<Rightarrow> 'w rm_state \<Rightarrow> (string list \<times> 'w rm_state) res" where
  "serve_all os js [] old s = Inr ([], s)"
| "serve_all os js (r # rs) old s =
     bindE (serve os js (print_request r) old s) (\<lambda>(t, args, s).
     bindE (serve_all os js rs args s) (\<lambda>(ts, s). Inr (t # ts, s)))"

definition concerns :: "int \<Rightarrow> int \<Rightarrow> request \<Rightarrow> bool" where
  "concerns v i r \<longleftrightarrow> request_ok r \<and> (r = DetachMem i v \<or> (\<exists>m. r = AttachMem i v m))"

definition failure_text :: "request \<Rightarrow> string" where
  "failure_text r = (case r of DetachMem i v \<Rightarrow> ''Hotunplug memory failed'' | _ \<Rightarrow> ''Hotplug memory failed'')"

lemma stuck_forever:
  assumes con: "qemu_contract os js v i q obj dev"
  shows "vm_mngr_instance_get_mem v i (rm_vms s) = Some q \<Longrightarrow> obj (rm_world s) \<Longrightarrow> \<not> dev (rm_world s) \<Longrightarrow>
    \<forall>r \<in> set rs. concerns v i r \<Longrightarrow> serve_all os js rs old s = Inr (ts, s') \<Longrightarrow>
    ts = map failure_text rs \<and> obj (rm_world s') \<and> \<not> dev (rm_world s')"
proof (induction rs arbitrary: old s ts)
  case (Cons r rs)
  from Cons.prems(5) obtain t a s1 us where
    one: "serve os js (print_request r) old s = Inr (t, a, s1)"
    and rest: "serve_all os js rs a s1 = Inr (us, s')" "ts = t # us"
    by (auto simp: bindE_eq_Inr)
  have r: "request_ok r" "r = DetachMem i v \<or> (\<exists>m. r = AttachMem i v m)"
    using Cons.prems(4) by (simp_all add: concerns_def)
  from serve_perform [OF r(1) one] r(2) stuck_attach [OF con Cons.prems(1-3), of _ t s1]
    stuck_detach [OF con Cons.prems(1-3), of t s1]
  have "t = failure_text r \<and> obj (rm_world s1) \<and> \<not> dev (rm_world s1) \<and> rm_vms s1 = rm_vms s"
    by (auto simp: failure_text_def)
  with Cons.IH [OF _ _ _ _ rest(1)] Cons.prems(1,4) rest(2) show ?case by simp
qed simp

lemma refused_attach:
  assumes con: "qemu_contract os js v i q obj dev" and mem: "vm_mngr_instance_get_mem v i (rm_vms s) = Some q"
    and made: "qmp_execute os js v (create_object_cmd js (hotplug_request_of i n q))
      (snd (os_malloc os (nat BUFFER_SIZE) (rm_world s))) = Inr (0, w1)"
    and refused: "qmp_execute os js v (add_device_cmd js (hotplug_request_of i n q)) w1 = Inr (-1, w2)"
    and run: "perform os js (AttachMem i v n) s = Inr (t, s')"
  shows "t = ''Hotplug memory failed'' \<and> rm_world s' = w2 \<and> obj w2 \<and> rm_vms s' = rm_vms s"
proof -
  from perform_attach [OF mem run] obtain ret w' where
    a: "qemu_agent_hotplug_memory os js v (hotplug_request_of i n q) (snd (os_malloc os (nat BUFFER_SIZE) (rm_world s)))
      = Inr (ret, w')" "s' = s\<lparr>rm_world := w'\<rparr>"
      "t = (if ret = 0 then ''Hotplug memory success'' else ''Hotplug memory failed'')" by blast
  from a(1) have "ret = -1" "w' = w2"
    by (simp_all add: qemu_agent_hotplug_memory_def qemu_agent_create_object_def qemu_agent_add_device_def made refused)
  with a(2,3) contractD(1) [OF con made] contractD(2) [OF con refused] show ?thesis by simp
qed

section \<open>One command for two grants\<close>

lemma attach_success:
  assumes "vm_mngr_instance_get_mem v i (rm_vms s) = Some q"
    "perform os js (AttachMem i v n) s = Inr (''Hotplug memory success'', s')"
  shows "\<exists>cmd w. create_object_cmd js (hotplug_request_of i n q) = Inr cmd \<and>
    qmp_execute os js v (Inr cmd) (snd (os_malloc os (nat BUFFER_SIZE) (rm_world s))) = Inr (0, w) \<and>
    rm_vms s' = rm_vms s"
proof -
  from perform_attach [OF assms] obtain w' where
    a: "qemu_agent_hotplug_memory os js v (hotplug_request_of i n q) (snd (os_malloc os (nat BUFFER_SIZE) (rm_world s)))
      = Inr (0, w')" "s' = s\<lparr>rm_world := w'\<rparr>" by (auto split: if_splits)
  from a(1) obtain w where
    c: "qmp_execute os js v (create_object_cmd js (hotplug_request_of i n q))
      (snd (os_malloc os (nat BUFFER_SIZE) (rm_world s))) = Inr (0, w)"
    unfolding hotplug_success by blast
  then obtain cmd where "create_object_cmd js (hotplug_request_of i n q) = Inr cmd"
    by (auto simp: qmp_execute_def bindE_eq_Inr)
  with c a(2) show ?thesis by auto
qed

end
