(* ===== verification/Tailq.thy ===== *)
theory Tailq
  imports Prelude
begin

text \<open>
  The tail queue macros of \<open>src/util_queue.h\<close>, at the level of pointers.

  An element is named by its address; the heap maps an address to the element's \<open>link\<close>
  entry.  A pointer to a \<open>next\<close> field (\<open>tqe_prev\<close>, \<open>tqh_last\<close>) is a \<open>link_ref\<close>: the field
  \<open>tqh_first\<close> of the head or the field \<open>tqe_next\<close> of an element.  Touching the link of an
  address that is not in the heap is \<open>BadPointer\<close>.  The lemmas show that the macros refine
  the operations on the list of elements, which is how the VM manager's model keeps its queue.
\<close>

type_synonym addr = nat

datatype link_ref = HeadFirst | NextOf addr

record tq_entry =
  tqe_next :: "addr option"
  tqe_prev :: link_ref

record tailq =
  tqh_first :: "addr option"
  tqh_last :: link_ref
  tq_links :: "addr \<Rightarrow> tq_entry option"

section \<open>The macros\<close>

definition link_of :: "tailq \<Rightarrow> addr \<Rightarrow> tq_entry res" where
  "link_of q a = (case tq_links q a of None \<Rightarrow> Inl BadPointer | Some l \<Rightarrow> Inr l)"

definition set_link :: "addr \<Rightarrow> tq_entry \<Rightarrow> tailq \<Rightarrow> tailq res" where
  "set_link a l q =
     bindE (link_of q a) (\<lambda>_. Inr (q\<lparr>tq_links := (tq_links q)(a := Some l)\<rparr>))"

text \<open>\<open>*ref = v\<close>.\<close>

definition store_ref :: "link_ref \<Rightarrow> addr option \<Rightarrow> tailq \<Rightarrow> tailq res" where
  "store_ref ref v q =
     (case ref of
        HeadFirst \<Rightarrow> Inr (q\<lparr>tqh_first := v\<rparr>)
      | NextOf a \<Rightarrow> bindE (link_of q a) (\<lambda>l. set_link a (l\<lparr>tqe_next := v\<rparr>) q))"

definition TAILQ_INIT :: "tailq \<Rightarrow> tailq" where
  "TAILQ_INIT q = q\<lparr>tqh_first := None, tqh_last := HeadFirst\<rparr>"

definition TAILQ_INSERT_TAIL :: "addr \<Rightarrow> tailq \<Rightarrow> tailq res" where
  "TAILQ_INSERT_TAIL elm q =
     bindE (link_of q elm) (\<lambda>l.
     bindE (set_link elm (l\<lparr>tqe_next := None\<rparr>) q) (\<lambda>q.
     bindE (link_of q elm) (\<lambda>l.
     bindE (set_link elm (l\<lparr>tqe_prev := tqh_last q\<rparr>) q) (\<lambda>q.
     bindE (store_ref (tqh_last q) (Some elm) q) (\<lambda>q.
     Inr (q\<lparr>tqh_last := NextOf elm\<rparr>))))))"

definition TAILQ_REMOVE :: "addr \<Rightarrow> tailq \<Rightarrow> tailq res" where
  "TAILQ_REMOVE elm q =
     bindE (link_of q elm) (\<lambda>l.
     bindE (case tqe_next l of
              Some nx \<Rightarrow> bindE (link_of q nx) (\<lambda>ln. set_link nx (ln\<lparr>tqe_prev := tqe_prev l\<rparr>) q)
            | None \<Rightarrow> Inr (q\<lparr>tqh_last := tqe_prev l\<rparr>)) (\<lambda>q.
     bindE (link_of q elm) (\<lambda>l. store_ref (tqe_prev l) (tqe_next l) q)))"

text \<open>\<open>TAILQ_FOREACH\<close>: the elements in the order the loop visits them.\<close>

partial_function (option) tq_walk :: "(addr \<Rightarrow> tq_entry option) \<Rightarrow> addr option \<Rightarrow> addr list \<Rightarrow> addr list option" where
  "tq_walk L p visited =
     (case p of
        None \<Rightarrow> Some visited
      | Some a \<Rightarrow> (case L a of None \<Rightarrow> None | Some l \<Rightarrow> tq_walk L (tqe_next l) (visited @ [a])))"

definition TAILQ_FOREACH :: "tailq \<Rightarrow> addr list option" where
  "TAILQ_FOREACH q = tq_walk (tq_links q) (tqh_first q) []"

section \<open>The list a queue represents\<close>

text \<open>
  \<open>tq_seg L ref p xs ref' p'\<close>: the field \<open>ref\<close> holds \<open>p\<close>, following \<open>next\<close> fields visits \<open>xs\<close>, each
  element's \<open>prev\<close> points to the field it was reached by, and the walk ends with the field
  \<open>ref'\<close> holding \<open>p'\<close>.
\<close>

fun tq_seg :: "(addr \<Rightarrow> tq_entry option) \<Rightarrow> link_ref \<Rightarrow> addr option \<Rightarrow> addr list \<Rightarrow>
    link_ref \<Rightarrow> addr option \<Rightarrow> bool" where
  "tq_seg L ref p [] ref' p' = (ref = ref' \<and> p = p')"
| "tq_seg L ref p (a # as) ref' p' =
     (p = Some a \<and>
      (case L a of None \<Rightarrow> False
       | Some l \<Rightarrow> tqe_prev l = ref \<and> tq_seg L (NextOf a) (tqe_next l) as ref' p'))"

definition tq_repr :: "tailq \<Rightarrow> addr list \<Rightarrow> bool" where
  "tq_repr q xs \<longleftrightarrow> distinct xs \<and> tq_seg (tq_links q) HeadFirst (tqh_first q) xs (tqh_last q) None"

lemma seg_append:
  "tq_seg L ref p (xs @ ys) ref' p' \<longleftrightarrow> (\<exists>r m. tq_seg L ref p xs r m \<and> tq_seg L r m ys ref' p')"
  by (induction xs arbitrary: ref p) (auto split: option.splits)

lemma seg_frame: "a \<notin> set xs \<Longrightarrow> tq_seg (L(a := v)) ref p xs ref' p' = tq_seg L ref p xs ref' p'"
  by (induction xs arbitrary: ref p) (auto split: option.splits)

lemma seg_dom: "tq_seg L ref p xs ref' p' \<Longrightarrow> a \<in> set xs \<Longrightarrow> L a \<noteq> None"
  by (induction xs arbitrary: ref p) (auto split: option.splits)

lemma seg_end: "tq_seg L ref p xs ref' p' \<Longrightarrow> ref' = (if xs = [] then ref else NextOf (last xs))"
  by (induction xs arbitrary: ref p) (auto split: option.splits)

text \<open>Writing the field a segment ends with.\<close>

fun set_next :: "link_ref \<Rightarrow> addr option \<Rightarrow> (addr \<Rightarrow> tq_entry option) \<Rightarrow> addr \<Rightarrow> tq_entry option" where
  "set_next HeadFirst v L = L"
| "set_next (NextOf a) v L = L(a := map_option (\<lambda>l. l\<lparr>tqe_next := v\<rparr>) (L a))"

definition set_first :: "link_ref \<Rightarrow> addr option \<Rightarrow> addr option \<Rightarrow> addr option" where
  "set_first ref v p = (if ref = HeadFirst then v else p)"

lemma store_ref_eq:
  assumes "\<And>a. ref = NextOf a \<Longrightarrow> tq_links q a \<noteq> None"
  shows "store_ref ref v q =
    Inr (q\<lparr>tqh_first := set_first ref v (tqh_first q), tq_links := set_next ref v (tq_links q)\<rparr>)"
  using assms
  by (cases ref) (auto simp: store_ref_def set_first_def link_of_def set_link_def)

lemma seg_redirect:
  assumes "tq_seg L ref p xs ref' p'" "distinct xs" "xs \<noteq> []"
  shows "tq_seg (set_next ref' v L) ref p xs ref' v"
  using assms
proof (induction xs arbitrary: ref p)
  case Nil
  then show ?case by simp
next
  case (Cons a as)
  from Cons.prems(1) obtain l where l: "p = Some a" "L a = Some l" "tqe_prev l = ref"
    "tq_seg L (NextOf a) (tqe_next l) as ref' p'" by (auto split: option.splits)
  show ?case
  proof (cases "as = []")
    case True
    with l show ?thesis by auto
  next
    case False
    with seg_end [OF l(4)] have r: "ref' = NextOf (last as)" by simp
    have "last as \<noteq> a" using False Cons.prems(2) by (metis distinct.simps(2) last_in_set)
    with r l Cons.IH [OF l(4)] Cons.prems(2) False show ?thesis by simp
  qed
qed

text \<open>From the head: the first field is written too when the segment is empty.\<close>

lemma seg_redirect_head:
  assumes "tq_seg L HeadFirst p xs ref' p'" "distinct xs"
  shows "tq_seg (set_next ref' v L) HeadFirst (set_first ref' v p) xs ref' v"
proof (cases "xs = []")
  case True
  with assms(1) have "ref' = HeadFirst" by simp
  with True show ?thesis by (simp add: set_first_def)
next
  case False
  with seg_end [OF assms(1)] have "ref' \<noteq> HeadFirst" by simp
  with seg_redirect [OF assms False] show ?thesis by (simp add: set_first_def)
qed

lemma seg_set_next_frame:
  assumes "\<And>a. r = NextOf a \<Longrightarrow> a \<notin> set xs"
  shows "tq_seg (set_next r v L) ref p xs ref' p' = tq_seg L ref p xs ref' p'"
  using assms by (cases r) (simp_all add: seg_frame)

lemma tq_walk_seg: "tq_seg L ref p xs ref' None \<Longrightarrow> tq_walk L p vs = Some (vs @ xs)"
proof (induction xs arbitrary: ref p vs)
  case Nil
  then show ?case by (simp add: tq_walk.simps)
next
  case (Cons x xs)
  then show ?case by (subst tq_walk.simps) (auto split: option.splits)
qed

lemma foreach_repr: "tq_repr q xs \<Longrightarrow> TAILQ_FOREACH q = Some xs"
  using tq_walk_seg [of "tq_links q" HeadFirst "tqh_first q" xs "tqh_last q" "[]"]
  by (simp add: tq_repr_def TAILQ_FOREACH_def)

lemma init_repr: "tq_repr (TAILQ_INIT q) []"
  by (simp add: tq_repr_def TAILQ_INIT_def)

lemma insert_repr:
  assumes repr: "tq_repr q xs" and new: "e \<notin> set xs" "tq_links q e \<noteq> None"
  shows "\<exists>q'. TAILQ_INSERT_TAIL e q = Inr q' \<and> tq_repr q' (xs @ [e]) \<and>
              (\<forall>a. tq_links q' a = None \<longleftrightarrow> tq_links q a = None)"
proof -
  define L where "L = (tq_links q)(e := Some \<lparr>tqe_next = None, tqe_prev = tqh_last q\<rparr>)"
  have s: "tq_seg L HeadFirst (tqh_first q) xs (tqh_last q) None" and d: "distinct xs"
    using repr new(1) by (auto simp: tq_repr_def L_def seg_frame)
  have last: "a \<in> set xs" if "tqh_last q = NextOf a" for a
    using that seg_end [OF s] by (auto split: if_splits)
  define q1 where "q1 = q\<lparr>tq_links := L\<rparr>"
  define q2 where "q2 = q1\<lparr>tqh_first := set_first (tqh_last q) (Some e) (tqh_first q),
                            tq_links := set_next (tqh_last q) (Some e) L\<rparr>"
  have st: "store_ref (tqh_last q) (Some e) q1 = Inr q2"
    using last seg_dom [OF s] by (subst store_ref_eq) (auto simp: q1_def q2_def)
  have ins: "TAILQ_INSERT_TAIL e q = Inr (q2\<lparr>tqh_last := NextOf e\<rparr>)"
  proof -
    obtain l where l: "tq_links q e = Some l" using new(2) by blast
    have "(tq_links q)(e \<mapsto> l\<lparr>tqe_next := None, tqe_prev := tqh_last q\<rparr>) = L"
      unfolding L_def by (cases l) simp
    with l have "bindE (link_of q e) (\<lambda>l. bindE (set_link e (l\<lparr>tqe_next := None\<rparr>) q) (\<lambda>q.
        bindE (link_of q e) (\<lambda>l. set_link e (l\<lparr>tqe_prev := tqh_last q\<rparr>) q))) = Inr q1"
      by (simp add: link_of_def set_link_def q1_def)
    with st show ?thesis
      by (auto simp: TAILQ_INSERT_TAIL_def bindE_eq_Inr q1_def set_link_def)
  qed
  have "tq_seg (set_next (tqh_last q) (Some e) L) HeadFirst
          (set_first (tqh_last q) (Some e) (tqh_first q)) xs (tqh_last q) (Some e)"
    by (rule seg_redirect_head [OF s d])
  moreover have "set_next (tqh_last q) (Some e) L e = Some \<lparr>tqe_next = None, tqe_prev = tqh_last q\<rparr>"
    using last new(1) by (cases "tqh_last q") (auto simp: L_def)
  ultimately have "tq_repr (q2\<lparr>tqh_last := NextOf e\<rparr>) (xs @ [e])"
    using d new(1) by (auto simp: tq_repr_def q2_def q1_def seg_append)
  moreover have "tq_links q2 a = None \<longleftrightarrow> tq_links q a = None" for a
    using new(2) by (cases "tqh_last q") (auto simp: q2_def q1_def L_def)
  ultimately show ?thesis using ins by auto
qed

lemma remove_repr:
  assumes repr: "tq_repr q xs" and mem: "e \<in> set xs"
  shows "\<exists>q'. TAILQ_REMOVE e q = Inr q' \<and> tq_repr q' (remove1 e xs) \<and>
              (\<forall>a. tq_links q' a = None \<longleftrightarrow> tq_links q a = None)"
proof -
  from mem obtain us vs where xs: "xs = us @ e # vs" by (auto simp: in_set_conv_decomp)
  from repr have d: "distinct (us @ e # vs)" by (simp add: tq_repr_def xs)
  then have rem: "remove1 e xs = us @ vs" by (simp add: xs remove1_append)
  let ?L = "tq_links q"
  from repr obtain r l where us: "tq_seg ?L HeadFirst (tqh_first q) us r (Some e)"
    and l: "?L e = Some l" "tqe_prev l = r"
    and vs: "tq_seg ?L (NextOf e) (tqe_next l) vs (tqh_last q) None"
    by (auto simp: tq_repr_def xs seg_append split: option.splits)
  have r_us: "a \<in> set us" if "r = NextOf a" for a
    using that seg_end [OF us] by (auto split: if_splits)
  \<comment> \<open>the state after the first statement\<close>
  obtain q1 where q1: "(case tqe_next l of
              Some nx \<Rightarrow> bindE (link_of q nx) (\<lambda>ln. set_link nx (ln\<lparr>tqe_prev := tqe_prev l\<rparr>) q)
            | None \<Rightarrow> Inr (q\<lparr>tqh_last := tqe_prev l\<rparr>)) = Inr q1"
    and first1: "tqh_first q1 = tqh_first q" and e1: "tq_links q1 e = Some l"
    and us1: "tq_seg (tq_links q1) HeadFirst (tqh_first q) us r (Some e)"
    and vs1: "tq_seg (tq_links q1) r (tqe_next l) vs (tqh_last q1) None"
    and dom1: "\<And>a. tq_links q1 a = None \<longleftrightarrow> ?L a = None"
  proof (cases vs)
    case Nil
    with vs have "tqe_next l = None" "tqh_last q = NextOf e" by auto
    with Nil us l that [of "q\<lparr>tqh_last := r\<rparr>"] show ?thesis by simp
  next
    case (Cons b bs)
    with vs obtain lb where b: "tqe_next l = Some b" "?L b = Some lb" "tqe_prev lb = NextOf e"
      "tq_seg ?L (NextOf b) (tqe_next lb) bs (tqh_last q) None" by (auto split: option.splits)
    let ?q1 = "q\<lparr>tq_links := ?L(b := Some (lb\<lparr>tqe_prev := r\<rparr>))\<rparr>"
    have "b \<notin> set us" "b \<noteq> e" "b \<notin> set bs" using d Cons by auto
    then show ?thesis
      using that [of ?q1] b us l Cons by (auto simp: link_of_def set_link_def seg_frame)
  qed
  define q2 where "q2 = q1\<lparr>tqh_first := set_first r (tqe_next l) (tqh_first q),
                            tq_links := set_next r (tqe_next l) (tq_links q1)\<rparr>"
  have "store_ref r (tqe_next l) q1 = Inr q2"
    using r_us seg_dom [OF us1] first1 by (subst store_ref_eq) (auto simp: q2_def)
  then have run: "TAILQ_REMOVE e q = Inr q2"
    using q1 e1 l by (simp add: TAILQ_REMOVE_def link_of_def)
  have "tq_seg (tq_links q2) HeadFirst (tqh_first q2) us r (tqe_next l)"
    using seg_redirect_head [OF us1] d by (simp add: q2_def)
  moreover have "tq_seg (tq_links q2) r (tqe_next l) vs (tqh_last q2) None"
  proof -
    have "a \<notin> set vs" if "r = NextOf a" for a using r_us [OF that] d by auto
    with vs1 show ?thesis by (simp add: q2_def seg_set_next_frame)
  qed
  ultimately have "tq_repr q2 (us @ vs)" using d by (auto simp: tq_repr_def seg_append)
  moreover have "tq_links q2 a = None \<longleftrightarrow> ?L a = None" for a
    using dom1 by (cases r) (auto simp: q2_def)
  ultimately show ?thesis using run rem by auto
qed

section \<open>The queue as an interface\<close>

text \<open>
  What a client of the macros relies on: \<open>repr q xs\<close> says that the queue holds \<open>xs\<close>, \<open>live q a\<close>
  that the element \<open>a\<close> is allocated.
\<close>

locale tail_queue =
  fixes repr :: "'q \<Rightarrow> 'a list \<Rightarrow> bool"
    and live :: "'q \<Rightarrow> 'a \<Rightarrow> bool"
    and init :: "'q \<Rightarrow> 'q"
    and insert_tail :: "'a \<Rightarrow> 'q \<Rightarrow> 'q res"
    and remove :: "'a \<Rightarrow> 'q \<Rightarrow> 'q res"
    and walk :: "'q \<Rightarrow> 'a list option"
  assumes repr_init: "repr (init q) []"
    and live_init: "live (init q) a = live q a"
    and repr_insert: "repr q xs \<Longrightarrow> a \<notin> set xs \<Longrightarrow> live q a \<Longrightarrow>
          \<exists>q'. insert_tail a q = Inr q' \<and> repr q' (xs @ [a]) \<and> (\<forall>b. live q' b = live q b)"
    and repr_remove: "repr q xs \<Longrightarrow> a \<in> set xs \<Longrightarrow>
          \<exists>q'. remove a q = Inr q' \<and> repr q' (remove1 a xs) \<and> (\<forall>b. live q' b = live q b)"
    and repr_walk: "repr q xs \<Longrightarrow> walk q = Some xs"

datatype 'a tq_op = Insert 'a | Remove 'a

text \<open>A run of operations on the list, with the conditions under which each may be used.\<close>

fun list_op :: "'a tq_op \<Rightarrow> 'a list \<Rightarrow> 'a list" where
  "list_op (Insert a) xs = xs @ [a]"
| "list_op (Remove a) xs = remove1 a xs"

fun ops_ok :: "('a \<Rightarrow> bool) \<Rightarrow> 'a tq_op list \<Rightarrow> 'a list \<Rightarrow> bool" where
  "ops_ok al [] xs = True"
| "ops_ok al (Insert a # ops) xs = (a \<notin> set xs \<and> al a \<and> ops_ok al ops (xs @ [a]))"
| "ops_ok al (Remove a # ops) xs = (a \<in> set xs \<and> ops_ok al ops (remove1 a xs))"

definition run_ops ::
    "('a \<Rightarrow> 'q \<Rightarrow> 'q res) \<Rightarrow> ('a \<Rightarrow> 'q \<Rightarrow> 'q res) \<Rightarrow> 'a tq_op list \<Rightarrow> 'q \<Rightarrow> 'q res" where
  "run_ops ins rem = foldE (\<lambda>op. case op of Insert a \<Rightarrow> ins a | Remove a \<Rightarrow> rem a)"

context tail_queue
begin

lemma run_ops_refines:
  assumes "repr q xs" "ops_ok (live q) ops xs"
  shows "\<exists>q'. run_ops insert_tail remove ops q = Inr q' \<and> repr q' (fold list_op ops xs) \<and>
              walk q' = Some (fold list_op ops xs)"
  using assms
proof (induction ops arbitrary: q xs)
  case Nil
  then show ?case using repr_walk by (simp add: run_ops_def)
next
  case (Cons op ops)
  have "\<exists>q1. (case op of Insert a \<Rightarrow> insert_tail a | Remove a \<Rightarrow> remove a) q = Inr q1 \<and>
             repr q1 (list_op op xs) \<and> ops_ok (live q1) ops (list_op op xs)"
  proof (cases op)
    case (Insert a)
    with Cons.prems repr_insert [of q xs a] obtain q1 where
      "insert_tail a q = Inr q1" "repr q1 (xs @ [a])" "\<forall>b. live q1 b = live q b" by auto
    moreover from this(3) have "live q1 = live q" by auto
    ultimately show ?thesis using Insert Cons.prems(2) by auto
  next
    case (Remove a)
    with Cons.prems repr_remove [of q xs a] obtain q1 where
      "remove a q = Inr q1" "repr q1 (remove1 a xs)" "\<forall>b. live q1 b = live q b" by auto
    moreover from this(3) have "live q1 = live q" by auto
    ultimately show ?thesis using Remove Cons.prems(2) by auto
  qed
  with Cons.IH show ?case by (fastforce simp: run_ops_def)
qed

end

interpretation tq: tail_queue tq_repr "\<lambda>q a. tq_links q a \<noteq> None" TAILQ_INIT
  TAILQ_INSERT_TAIL TAILQ_REMOVE TAILQ_FOREACH
proof unfold_locales
  fix q a show "(tq_links (TAILQ_INIT q) a \<noteq> None) = (tq_links q a \<noteq> None)"
    by (simp add: TAILQ_INIT_def)
next
  fix q xs and a :: addr assume "tq_repr q xs" "a \<notin> set xs" "tq_links q a \<noteq> None"
  from insert_repr [OF this] show "\<exists>q'. TAILQ_INSERT_TAIL a q = Inr q' \<and> tq_repr q' (xs @ [a]) \<and>
      (\<forall>b. (tq_links q' b \<noteq> None) = (tq_links q b \<noteq> None))"
    by (elim ex_forward) simp
next
  fix q xs and a :: addr assume "tq_repr q xs" "a \<in> set xs"
  from remove_repr [OF this] show "\<exists>q'. TAILQ_REMOVE a q = Inr q' \<and> tq_repr q' (remove1 a xs) \<and>
      (\<forall>b. (tq_links q' b \<noteq> None) = (tq_links q b \<noteq> None))"
    by (elim ex_forward) simp
qed (rule init_repr, rule foreach_repr)

end
