(* ===== verification/Examples.thy ===== *)
theory Examples
  imports Accounting Session CoreWalk QemuContract Tailq
begin

text \<open>
  Concrete instances for the witnesses: a pool of one device with four segments of 128 MB, a
  kernel that answers every call, a JSON library that understands one text, and states of the
  process with and without a VM.
\<close>

definition ex_dev :: memory_dax_dev where
  "ex_dev = entry_dev (''/dev/dax0.0'', 512, 1, 0)"

definition ex_pool :: memory_pool where
  "ex_pool = \<lparr>g_mem_devs = initialised_all 128 0 [ex_dev], g_segment_size_mb = 128\<rparr>"

lemma ex_pool_wf: "pool_wf ex_pool" and ex_pool_free: "pool_owner ex_pool x = None"
proof -
  have "list_all (\<lambda>d. 0 < dax_total_size_mb d \<and> dax_total_size_mb d \<le> INT_MAX \<and>
      dax_total_size_mb d div 128 \<le> MAX_SEGMENTS) [ex_dev]"
    by (simp add: ex_dev_def entry_dev_def zero_dev_def INT_MAX_def MAX_SEGMENTS_def)
  with pool_wf_initialised [of 128 "[ex_dev]"] show "pool_wf ex_pool" "pool_owner ex_pool x = None"
    by (simp_all add: ex_pool_def INT_MAX_def MAX_DEVICES_def)
qed

definition ex_os :: "unit os" where
  "ex_os = \<lparr>os_socket = (\<lambda>w. (3, w)), os_accept = (\<lambda>fd w. (4, w)), os_connect = (\<lambda>fd p w. (0, w)),
     os_close = (\<lambda>fd w. (0, w)), os_send = (\<lambda>fd t w. (0, w)),
     os_recv = (\<lambda>fd n w. (Some ''create-vm vid=1 coreset=[0-1]'', w)), os_usleep = (\<lambda>n w. w),
     os_malloc = (\<lambda>n w. (True, w)), os_perf_event_open = (\<lambda>a pid c g flags w. (5, w)),
     os_read_counter = (\<lambda>fd w. ((24, \<lparr>prf_value = 7, prf_time_enabled = 2, prf_time_running = 2\<rparr>), w)),
     os_ioctl = (\<lambda>fd r a w. (0, w)), os_bind = (\<lambda>fd p w. (0, w)), os_listen = (\<lambda>fd n w. (0, w)),
     os_unlink = (\<lambda>p w. w), os_epoll_create1 = (\<lambda>w. (6, w)), os_epoll_add = (\<lambda>e fd w. (0, w)),
     os_epoll_wait = (\<lambda>e n w. ([3], w)), os_clock = (\<lambda>w. (1700000000, w)),
     os_pthread_create = (\<lambda>w. (0, w)), os_pthread_join = (\<lambda>w. w),
     os_fopen = (\<lambda>p w. Some (config_text 128 [(''/dev/dax0.0'', 512, 1, 0)])),
     os_printf = (\<lambda>err t w. w), os_perror = (\<lambda>t w. w)\<rparr>"

text \<open>A library whose values are strings and that takes every answer for a success.\<close>

definition ex_js :: "string json_lib" where
  "ex_js = \<lparr>json_object_new_object = Some [], json_object_new_string = (\<lambda>t. t),
     json_object_new_int = show_int, json_object_new_int64 = show_int,
     json_object_new_boolean = (\<lambda>b. if b then ''true'' else ''false''),
     json_object_object_add = (\<lambda>j k v. j @ k @ v), json_object_object_get_ex = (\<lambda>j k. Some []),
     json_object_is_object = (\<lambda>j. True), json_object_object_length = (\<lambda>j. int (length j)),
     json_object_to_json_string = (\<lambda>j. j), json_tokener_parse = Some,
     json_object_to_json_string_pretty = (\<lambda>j. j), json_object_array_length = (\<lambda>j. 1),
     json_object_array_get_idx = (\<lambda>j i. Some j), json_object_object_get = (\<lambda>j k. j),
     json_object_get_int = (\<lambda>j. 0)\<rparr>"

lemma ex_scale: "perf_scale \<lparr>prf_value = 7, prf_time_enabled = 2, prf_time_running = 2\<rparr> = Inr 7"
  by (subst perf_scale_exact) simp_all

lemma ex_reads: "perf_reads_ok ex_os" and ex_closes: "perf_closes_ok ex_os"
  using ex_scale by (auto simp: perf_reads_ok_def perf_closes_ok_def ex_os_def sizeof_perf_read_format_def)

lemma ex_opens: "perf_opens_ok ex_os"
  by (simp add: perf_opens_ok_def ex_os_def)

text \<open>Before any request, and with the VM 1 on the cores 0 and 1.\<close>

definition ex_state :: "unit rm_state" where
  "ex_state = start_state ex_pool ()"

lemma ex_state_inv: "rm_inv ex_state"
  unfolding ex_state_def by (rule rm_inv_init [OF ex_pool_wf ex_pool_free])

definition ex_vms :: vm_instance_manager where
  "ex_vms = (case vm_mngr_instance_create 1 ''0-1'' zero_mngr of Inr (r, m) \<Rightarrow> m | Inl e \<Rightarrow> zero_mngr)"

lemma ex_cores: "core_ids ''0-1'' = Inr [0, 1]"
  by code_simp

lemma ex_create: "vm_mngr_instance_create 1 ''0-1'' zero_mngr = Inr (0, ex_vms)"
proof -
  have none: "vm_mngr_get_instance 1 zero_mngr = None"
    by (simp add: vm_mngr_get_instance_def zero_mngr_def find_vm_zero)
  have slot: "free_slot (mngr_VMs zero_mngr) = 0" "mngr_VMs zero_mngr ! 0 = zero_vm"
    by (simp_all add: zero_mngr_def MAX_NUM_VM_def zero_vm_def eval_nat_numeral)
  have "vm_mngr_for_each_core ''0-1'' vm_num_core_update 0 = Inr 2"
    unfolding for_each_core_ids [OF ex_cores]
    by (simp add: vm_num_core_update_def c_add_def in_int_def INT_MIN_def INT_MAX_def)
  then have "\<exists>m. vm_mngr_instance_create 1 ''0-1'' zero_mngr = Inr (0, m)"
    using zero_mngr_wf(2)
    by (simp add: vm_mngr_instance_create_def vm_mngr_check_exit_def none slot MAX_NUM_VM_def
        zero_vm_def snprintf_def CORE_SET_LEN_def c_add_def in_int_def INT_MIN_def INT_MAX_def)
  then show ?thesis by (auto simp: ex_vms_def)
qed

definition ex_state1 :: "unit rm_state" where
  "ex_state1 = ex_state\<lparr>rm_vms := ex_vms\<rparr>"

lemma ex_state1_inv: "rm_inv ex_state1"
  unfolding ex_state1_def
  using create_inv [OF ex_state_inv, of 1 "''0-1''"] ex_create by (simp add: ex_state_def start_state_def)

text \<open>The client that creates this VM.\<close>

lemma ex_serve:
  "serve ex_os ex_js ''create-vm vid=1 coreset=[0-1]'' None ex_state =
     Inr (''Create VM 1 success, coreset: [0-1]'', Some ''vid=1 coreset=[0-1]'', ex_state1)"
proof -
  have scan: "scan_request ''create-vm vid=1 coreset=[0-1]'' None =
      Inr (Some (''create-vm'', Some ''vid=1 coreset=[0-1]''))" by code_simp
  have args: "sscanf ''vid=1 coreset=[0-1]'' fmt_create = Inr [SInt 1, SStr ''[0-1]'']" by code_simp
  have br: "bracketed ''[0-1]'' = Some ''0-1''" by code_simp
  have one: "show_int 1 = ''1''" by code_simp
  have mal: "rpc_malloc ex_os ex_state = Inr ex_state"
    by (simp add: rpc_malloc_def ex_os_def)
  have vms: "rm_vms ex_state = zero_mngr" by (simp add: ex_state_def start_state_def)
  have "rpc_handle_create_vm ex_os ''vid=1 coreset=[0-1]'' ex_state =
      Inr (RText ''Create VM 1 success, coreset: [0-1]'', ex_state1)"
    by (simp add: rpc_handle_create_vm_def args br one mal vms ex_create rpc_text_def snprintf_def
        BUFFER_SIZE_def ex_state1_def)
  then show ?thesis
    by (simp add: serve_def scan rpc_dispatch_def with_args_def reply_text_def)
qed

lemma unit_world: "s\<lparr>rm_world := ()\<rparr> = (s :: unit rm_state)"
  by (cases s) simp

lemma ex_client:
  "rpc_client ex_os ex_js fd (None, ex_state) = Inr (Some ''vid=1 coreset=[0-1]'', ex_state1)"
proof -
  have "sys_recv ex_os 4 (nat BUFFER_SIZE) () = (Some ''create-vm vid=1 coreset=[0-1]'', ())"
    by (simp add: sys_recv_def ex_os_def BUFFER_SIZE_def)
  moreover have "request_text (Some ''create-vm vid=1 coreset=[0-1]'') = Inr ''create-vm vid=1 coreset=[0-1]''"
    by code_simp
  moreover have "os_accept ex_os fd () = (4, ())" by (simp add: ex_os_def)
  ultimately show ?thesis using ex_serve
    by (simp add: rpc_client_def Let_def case_prod_beta unit_world)
qed

text \<open>Libraries that answer every call, and the process they start.\<close>

definition ex_lib :: "unit curl_lib" where
  "ex_lib = \<lparr>curl_easy_init = (\<lambda>w. (True, w)), curl_slist_append = (\<lambda>hs h. hs @ [h]),
     curl_setopt_url = (\<lambda>u w. w), curl_setopt_httpheader = (\<lambda>h w. w), curl_setopt_proxy = (\<lambda>p w. w),
     curl_setopt_postfields = (\<lambda>t w. w), curl_easy_perform = (\<lambda>w. (True, w)),
     curl_easy_cleanup = (\<lambda>w. w), curl_slist_free_all = (\<lambda>h w. w)\<rparr>"

definition ex_pcm :: "unit pcm_lib" where
  "ex_pcm = \<lparr>pcm_c_init = (\<lambda>w. (0, w)), pcm_c_start = (\<lambda>w. w), pcm_c_cleanup = (\<lambda>w. w),
     pcm_c_get_metrics = (\<lambda>out w. (\<lparr>core_local_bw = (\<lambda>c. 2048), core_remote_bw = (\<lambda>c. 1024)\<rparr>, w)),
     pcm_c_get_num_cores = (\<lambda>w. 8)\<rparr>"

definition ex_zlog :: "unit zlog_lib" where
  "ex_zlog = \<lparr>zlog_level_debug = 20, zlog_level_info = 40, zlog_level_warn = 80, zlog_level_error = 100,
     zlog_init = (\<lambda>c w. (0, w)), zlog_get_category = (\<lambda>c w. (True, w)), zlog_fini = (\<lambda>w. w),
     vzlog = (\<lambda>f fn ln lv m w. w)\<rparr>"

definition ex_process :: "unit process" where
  "ex_process = \<lparr>pr_state = ex_state, pr_monitor = initial_monitor\<lparr>monitor_thread := True\<rparr>,
     pr_log = \<lparr>g_log_cat = True, g_log_inited = True\<rparr>, pr_args = None, g_server_fd = 3, g_epoll_fd = 6\<rparr>"

lemma ex_entry_ok: "list_all entry_ok [(''/dev/dax0.0'', 512, 1, 0)]"
  by (simp add: entry_ok_def is_word_def is_space_def INT_MAX_def in_int_def INT_MIN_def)

lemma ex_pool_init: "memory_pool_init (Some (config_text 128 [(''/dev/dax0.0'', 512, 1, 0)])) empty_pool = Inr (0, ex_pool)"
  using init_config_text [OF _ _ ex_entry_ok, of 128]
  by (simp add: INT_MAX_def MAX_DEVICES_def ex_pool_def ex_dev_def)

lemma ex_monitor_load:
  "guest_monitor_load_config (Some (config_text 128 [(''/dev/dax0.0'', 512, 1, 0)])) gm = Inr (0, gm)"
proof -
  have "in_int 128" by (simp add: in_int_def INT_MIN_def INT_MAX_def)
  then show ?thesis
    using monitor_skips_devs [OF ex_entry_ok]
    by (simp add: guest_monitor_load_config_def config_text_def monitor_skips_segment_size)
qed

lemma ex_set_world: "set_world w p = (p :: unit process)"
  by (cases p) (simp add: set_world_def unit_world)

lemma ex_boot: "main_init ex_os ex_zlog ex_pcm ex_lib False () = Inr (True, ex_process)"
proof -
  have "guest_monitor_server_start ex_os ex_pcm ex_lib (os_fopen ex_os CONFIG_FILE ()) initial_monitor () =
      Inr (0, initial_monitor\<lparr>monitor_thread := True\<rparr>, ())"
    using ex_monitor_load [of initial_monitor]
    by (simp add: guest_monitor_server_start_def initial_monitor_def perf_agent_init_def ex_pcm_def ex_os_def)
  moreover have "memory_pool_init (os_fopen ex_os CONFIG_FILE ()) empty_pool = Inr (0, ex_pool)"
    using ex_pool_init by (simp add: ex_os_def)
  moreover have "rm_log_init ex_os ex_zlog LOG_CONFIG_FILE initial_log () =
      (0, \<lparr>g_log_cat = True, g_log_inited = True\<rparr>, ())"
    by (simp add: rm_log_init_def initial_log_def ex_zlog_def)
  moreover have "rpc_server_setup ex_os p = (True, p\<lparr>g_server_fd := 3, g_epoll_fd := 6\<rparr>)" for p
    by (simp add: rpc_server_setup_def ex_set_world ex_os_def)
  ultimately show ?thesis
    by (simp add: main_init_def ex_set_world initial_process_def pr_world_def start_state_def ex_process_def
        ex_state_def)
qed

lemma ex_fits: "pool_fits (rm_pool (pr_state ex_process))"
  by (simp add: ex_process_def ex_state_def start_state_def pool_fits_def ex_pool_def initialised_def ex_dev_def
      entry_dev_def zero_dev_def MAX_SEGMENTS_def)

lemma ex_turn: "rpc_server_turns ex_os ex_js 1 ex_process =
    Inr (ex_process\<lparr>pr_args := Some ''vid=1 coreset=[0-1]'', pr_state := ex_state1\<rparr>)"
proof -
  have "os_epoll_wait ex_os e n () = ([3], ())" for e n by (simp add: ex_os_def)
  then show ?thesis
    using ex_client [of 3]
    by (simp add: rpc_server_turns_def rpc_server_turn_def server_event_def MAX_EVENTS_def set_world_def
        pr_world_def unit_world ex_process_def)
qed

lemma ex_steps1: "rm_steps ex_os ex_js ex_lib (shared ex_process) (Some ''vid=1 coreset=[0-1]'', ex_state1)"
  using server_turns_steps [OF ex_turn] by (simp add: shared_def)

text \<open>The VM 1 is in entry 0 and has no memory; then with a grant of 256 MB.\<close>

lemma ex_get1: "vm_mngr_get_instance v ex_vms = (if v = 1 then Some 0 else None)"
proof -
  have c: "vm_mngr_check_exit w ex_vms \<longleftrightarrow> w = 1" for w
    using create_correct [OF zero_mngr_wf(1) ex_create] zero_mngr_wf(2)
    by (simp add: MAX_NUM_VM_def vm_mngr_check_exit_def vm_mngr_get_instance_def zero_mngr_def find_vm_zero)
  show ?thesis
  proof (cases "v = 1")
    case False
    with c [of v] show ?thesis by (simp add: vm_mngr_check_exit_def)
  next
    case True
    have "vm_mngr_get_instance 1 ex_vms = Some 0" by code_simp
    with True show ?thesis by simp
  qed
qed

definition ex_grant :: memory_request where
  "ex_grant = \<lparr>req_node_id = 0, req_dev_path = ''/dev/dax0.0'', req_offset_mb = 0,
     req_size_mb = 256, req_align_mb = 128\<rparr>"

lemma ex_dev_segments:
  "dax_total_segments (g_mem_devs ex_pool ! 0) = 4"
  "0 \<le> j \<Longrightarrow> j < 4096 \<Longrightarrow> \<not> allocated (dax_segments (g_mem_devs ex_pool ! 0) j)"
  "g_segment_size_mb ex_pool = 128" "length (g_mem_devs ex_pool) = 1"
  "dax_dev_path (g_mem_devs ex_pool ! 0) = ''/dev/dax0.0''"
  by (simp_all add: ex_pool_def initialised_def ex_dev_def entry_dev_def zero_dev_def MAX_SEGMENTS_def)

lemma ex_first_fit:
  "first_fit (dax_segments (g_mem_devs ex_pool ! 0)) 4 2 = 0"
  using ex_dev_segments(2) [of 0] ex_dev_segments(2) [of 1]
  by (simp add: first_fit_def upto_rec1 free_run_def)

lemma ex_allocate: "\<exists>p. memory_pool_allocate_segments 0 v 256 ex_pool = Inr (Some ex_grant, p)"
  using memory_pool_allocate_eq [OF ex_pool_wf, of 256 0 v] ex_first_fit
  by (simp add: ex_dev_segments ex_grant_def INT_MAX_def)

definition ex_state2 :: "unit rm_state" where
  "ex_state2 = (case vm_mngr_instance_alloc_mem ex_os 0 1 256 ex_state1 of
                  Inr (a, s) \<Rightarrow> s | Inl e \<Rightarrow> ex_state1)"

lemma ex_counter: "VM_memdev_counter (vm_at ex_state1 0) = 0"
proof -
  have "VM_memdev_counter (mngr_VMs ex_vms ! 0) = 0" by code_simp
  then show ?thesis by (simp add: vm_at_def ex_state1_def)
qed

lemma ex_core_set:
  "VM_core_set (vm_at ex_state1 0) = ''0-1''" "VM_num_cores (vm_at ex_state1 0) = 2"
proof -
  have "VM_core_set (mngr_VMs ex_vms ! 0) = ''0-1''" "VM_num_cores (mngr_VMs ex_vms ! 0) = 2"
    by code_simp+
  then show "VM_core_set (vm_at ex_state1 0) = ''0-1''" "VM_num_cores (vm_at ex_state1 0) = 2"
    by (simp_all add: vm_at_def ex_state1_def)
qed

lemma ex_rooms: "vm_mngr_get_instance 1 (rm_vms ex_state1) = Some k \<Longrightarrow> VM_memdev_counter (vm_at ex_state1 k) < INT_MAX"
  using ex_counter by (simp add: ex_state1_def ex_get1 INT_MAX_def)

lemma ex_state2_alloc:
  "\<exists>a. vm_mngr_instance_alloc_mem ex_os 0 1 256 ex_state1 = Inr (Some a, ex_state2) \<and> vmr_memdev_idx a = 0"
proof -
  obtain p where p: "memory_pool_allocate_segments 0 1 256 ex_pool = Inr (Some ex_grant, p)"
    using ex_allocate by blast
  have pool: "rm_pool ex_state1 = ex_pool" "rm_vms ex_state1 = ex_vms"
    by (simp_all add: ex_state1_def ex_state_def start_state_def)
  have mal: "os_malloc ex_os n w = (True, w)" for n w by (simp add: ex_os_def)
  have "c_add (VM_memdev_counter (mngr_VMs ex_vms ! 0)) 1 = Inr 1"
    "VM_memdev_counter (mngr_VMs ex_vms ! 0) = 0"
    using ex_counter
    by (simp_all add: vm_at_def ex_state1_def c_add_def in_int_def INT_MIN_def INT_MAX_def)
  then show ?thesis
    by (simp add: ex_state2_def vm_mngr_instance_alloc_mem_def pool ex_get1 mal p Let_def
        vm_mngr_get_new_memdev_idx_def)
qed

lemma ex_state2_inv: "rm_inv ex_state2"
proof -
  have "(256::int) \<le> INT_MAX" by (simp add: INT_MAX_def)
  with ex_state2_alloc alloc_mem_inv [OF ex_state1_inv, of 256] show ?thesis by auto
qed

lemma ex_state2_grant: "vm_mngr_instance_get_mem 1 0 (rm_vms ex_state2) = Some ex_grant"
proof -
  have sz: "0 < (256::int)" "(256::int) \<le> INT_MAX" by (simp_all add: INT_MAX_def)
  have pool: "rm_pool ex_state1 = ex_pool" by (simp add: ex_state1_def ex_state_def start_state_def)
  obtain p where p: "memory_pool_allocate_segments 0 1 256 ex_pool = Inr (Some ex_grant, p)"
    using ex_allocate by blast
  from alloc_mem_correct [OF ex_state1_inv sz, of 1 ex_os 0] ex_rooms ex_state2_alloc
  have "vm_ledger (rm_vms ex_state2) (1, 0) = Some ex_grant" by (auto simp: p pool)
  then show ?thesis by (simp add: vm_ledger_def)
qed

text \<open>A second grant of the same size on the same device.\<close>

definition ex_state3 :: "unit rm_state" where
  "ex_state3 = (case vm_mngr_instance_alloc_mem ex_os 0 1 256 ex_state2 of
                  Inr (a, s) \<Rightarrow> s | Inl e \<Rightarrow> ex_state2)"

lemma ex_state3_inv: "rm_inv ex_state3"
  using alloc_mem_inv [OF ex_state2_inv, of 256] ex_state2_inv
  by (auto simp: ex_state3_def INT_MAX_def split: sum.split prod.split)

lemma ex_state3_grants:
  "vm_mngr_instance_get_mem 1 0 (rm_vms ex_state3) = Some ex_grant"
  "vm_mngr_instance_get_mem 1 1 (rm_vms ex_state3) = Some (ex_grant\<lparr>req_offset_mb := 256\<rparr>)"
proof -
  have "map_option (\<lambda>q. (req_node_id q, req_dev_path q, req_offset_mb q, req_size_mb q, req_align_mb q))
      (vm_mngr_instance_get_mem 1 1 (rm_vms ex_state3)) = Some (0, ''/dev/dax0.0'', 256, 256, 128)"
    by code_simp
  then obtain q where q: "vm_mngr_instance_get_mem 1 1 (rm_vms ex_state3) = Some q"
    "(req_node_id q, req_dev_path q, req_offset_mb q, req_size_mb q, req_align_mb q) =
       (0, ''/dev/dax0.0'', 256, 256, 128)" by blast
  then have "q = ex_grant\<lparr>req_offset_mb := 256\<rparr>" by (cases q) (simp add: ex_grant_def)
  with q show "vm_mngr_instance_get_mem 1 1 (rm_vms ex_state3) = Some (ex_grant\<lparr>req_offset_mb := 256\<rparr>)"
    by simp
  have "map_option (\<lambda>q. (req_node_id q, req_dev_path q, req_offset_mb q, req_size_mb q, req_align_mb q))
      (vm_mngr_instance_get_mem 1 0 (rm_vms ex_state3)) = Some (0, ''/dev/dax0.0'', 0, 256, 128)"
    by code_simp
  then obtain r where r: "vm_mngr_instance_get_mem 1 0 (rm_vms ex_state3) = Some r"
    "(req_node_id r, req_dev_path r, req_offset_mb r, req_size_mb r, req_align_mb r) =
       (0, ''/dev/dax0.0'', 0, 256, 128)" by blast
  then have "r = ex_grant" by (cases r) (simp add: ex_grant_def)
  with r show "vm_mngr_instance_get_mem 1 0 (rm_vms ex_state3) = Some ex_grant" by simp
qed

text \<open>The VM 1 runs: a round of the monitor can start.\<close>

definition ex_running :: "unit rm_state" where
  "ex_running = (case vm_mngr_instance_start ex_os 1 ex_state2 of Inr (r, s) \<Rightarrow> s | Inl e \<Rightarrow> ex_state2)"

lemma ex_running_inv: "rm_inv ex_running"
  using start_inv [OF ex_state2_inv, of ex_os 1] ex_state2_inv
  by (auto simp: ex_running_def split: sum.split prod.split)

lemma ex_running_table:
  "VM_running (vm_at ex_running 0)" "VM_core_set (vm_at ex_running 0) = ''0-1''"
  "VM_num_cores (vm_at ex_running 0) = 2" "vm_mngr_get_instance 1 (rm_vms ex_running) = Some 0"
  "list_all (\<lambda>k. \<not> VM_running (vm_at ex_running k)) [1..<16]"
  by code_simp+

lemma ex_round_ready: "round_ready ex_running"
proof -
  have "k = 0" if "VM_running (vm_at ex_running k)" "k < nat MAX_NUM_VM" for k
    using ex_running_table(5) that by (cases k) (auto simp: list_all_iff MAX_NUM_VM_def)
  moreover have "\<exists>ids. core_ids (VM_core_set (vm_at ex_running 0)) = Inr ids \<and> (\<forall>c \<in> set ids. measured_core c)"
    using ex_running_table(2) ex_cores by (simp add: measured_core_def MAX_CORES_def)
  ultimately show ?thesis unfolding round_ready_def vms_measured_def using ex_running_inv by metis
qed

text \<open>A heap of cells with an empty queue over it.\<close>

definition ex_queue :: tailq where
  "ex_queue = TAILQ_INIT \<lparr>tqh_first = None, tqh_last = HeadFirst,
     tq_links = (\<lambda>a. Some \<lparr>tqe_next = None, tqe_prev = HeadFirst\<rparr>)\<rparr>"

lemma ex_queue_cells: "tq_repr ex_queue []" "tq_links ex_queue a \<noteq> None"
  by (simp_all only: ex_queue_def init_repr) (simp add: TAILQ_INIT_def)

text \<open>QEMU accepts every command.\<close>

lemma ex_accepts: "qmp_execute ex_os ex_js v (Inr c) () = Inr (0, ())"
  by (simp add: qmp_execute_def send_qemu_cmd_def connect_to_socket_def close_sockect_def
      init_qemu_qmp_session_def is_response_success_def sys_recv_def recv_ret_def put_nul_def BUFFER_SIZE_def
      ex_os_def ex_js_def)

lemma ex_commands: "\<exists>c. qmp_command ex_js name (json_members ex_js kvs) = Inr c"
  by (simp add: qmp_command_def json_members_def ex_js_def)

lemma ex_plug: "qemu_agent_hotplug_memory ex_os ex_js v req () = Inr (0, ())"
proof -
  obtain c d where "create_object_cmd ex_js req = Inr c" "add_device_cmd ex_js req = Inr d"
    using ex_commands unfolding create_object_cmd_def add_device_cmd_def by meson
  then show ?thesis
    by (simp add: qemu_agent_hotplug_memory_def qemu_agent_create_object_def qemu_agent_add_device_def ex_accepts)
qed

lemma ex_unplug: "qemu_agent_hotunplug_memory ex_os ex_js v req () = Inr (0, ())"
proof -
  obtain c d where "del_device_cmd ex_js req = Inr c" "free_object_cmd ex_js req = Inr d"
    using ex_commands unfolding del_device_cmd_def free_object_cmd_def by meson
  then show ?thesis
    by (simp add: qemu_agent_hotunplug_memory_def qemu_agent_del_device_def qemu_agent_free_object_def ex_accepts)
qed

text \<open>A request as a value.\<close>

lemma ex_create_request: "request_ok (CreateVm 1 ''0-1'')"
  "print_request (CreateVm 1 ''0-1'') = ''create-vm vid=1 coreset=[0-1]''"
  by code_simp+

lemma ex_env: "env_ok ex_os ex_js"
  using ex_opens ex_reads ex_closes by (simp add: env_ok_def ex_os_def ex_js_def)

lemma ex_start_request: "request_ok (StartVm 1)" "servable ex_os (StartVm 1) ex_state1"
  "print_request (StartVm 1) = ''start-vm vid=1''" "request_args (StartVm 1) None = Some ''vid=1''"
  "fst (request_words (StartVm 1)) = ''start-vm''" "snd (request_words (StartVm 1)) = [''vid=1'']"
proof -
  show "servable ex_os (StartVm 1) ex_state1"
    using ex_cores ex_core_set by (simp add: sane_cores_def ex_state1_def ex_get1)
qed code_simp+

section \<open>A QEMU with one memory device\<close>

text \<open>
  Its state is whether the backend exists, whether the DIMM does, and whether the last command
  was accepted; \<open>full\<close> is a QEMU without a free slot.  The JSON library keeps the name of a command.
\<close>

definition ex_qemu_send :: "bool \<Rightarrow> string \<Rightarrow> bool \<times> bool \<times> bool \<Rightarrow> bool \<times> bool \<times> bool" where
  "ex_qemu_send full t w =
     (case w of (obj, dev, ok) \<Rightarrow>
        if t = ''object-add'' then (True, dev, \<not> obj)
        else if t = ''device_add'' then (if full \<or> \<not> obj \<or> dev then (obj, dev, False) else (obj, True, True))
        else if t = ''device_del'' then (obj, False, dev)
        else if t = ''object-del'' then (if obj \<and> \<not> dev then (False, dev, True) else (obj, dev, False))
        else (obj, dev, True))"

definition ex_qemu :: "bool \<Rightarrow> (bool \<times> bool \<times> bool) os" where
  "ex_qemu full =
    \<lparr>os_socket = (\<lambda>w. (3, w)), os_accept = (\<lambda>fd w. (4, w)), os_connect = (\<lambda>fd p w. (0, w)),
     os_close = (\<lambda>fd w. (0, w)), os_send = (\<lambda>fd t w. (0, ex_qemu_send full t w)),
     os_recv = (\<lambda>fd n w. (Some (if snd (snd w) then ''ok'' else ''no''), w)), os_usleep = (\<lambda>n w. w),
     os_malloc = (\<lambda>n w. (True, w)), os_perf_event_open = (\<lambda>a pid c g flags w. (5, w)),
     os_read_counter = (\<lambda>fd w. ((24, \<lparr>prf_value = 7, prf_time_enabled = 2, prf_time_running = 2\<rparr>), w)),
     os_ioctl = (\<lambda>fd r a w. (0, w)), os_bind = (\<lambda>fd p w. (0, w)), os_listen = (\<lambda>fd n w. (0, w)),
     os_unlink = (\<lambda>p w. w), os_epoll_create1 = (\<lambda>w. (6, w)), os_epoll_add = (\<lambda>e fd w. (0, w)),
     os_epoll_wait = (\<lambda>e n w. ([3], w)), os_clock = (\<lambda>w. (1700000000, w)),
     os_pthread_create = (\<lambda>w. (0, w)), os_pthread_join = (\<lambda>w. w), os_fopen = (\<lambda>p w. None),
     os_printf = (\<lambda>err t w. w), os_perror = (\<lambda>t w. w)\<rparr>"

definition ex_qmp_js :: "string json_lib" where
  "ex_qmp_js = ex_js\<lparr>json_object_object_add := (\<lambda>j k v. if k = ''execute'' then v else j),
     json_object_object_get_ex := (\<lambda>j k. if j = ''ok'' then Some [] else None),
     json_object_object_length := (\<lambda>j. 0)\<rparr>"

lemma ex_qemu_simps: "os_malloc (ex_qemu full) n w = (True, w)" "os_usleep (ex_qemu full) m w = w"
  by (simp_all add: ex_qemu_def)

lemma ex_qmp_execute:
  "qmp_execute (ex_qemu full) ex_qmp_js v (Inr t) w =
     (let w' = ex_qemu_send full t (fst w, fst (snd w), True) in Inr (if snd (snd w') then 0 else -1, w'))"
  by (cases w)
    (simp add: qmp_execute_def send_qemu_cmd_def connect_to_socket_def close_sockect_def Let_def
      init_qemu_qmp_session_def is_response_success_def sys_recv_def recv_ret_def put_nul_def BUFFER_SIZE_def
      ex_qemu_def ex_qmp_js_def ex_js_def ex_qemu_send_def c_str_def)

lemma ex_qmp_commands:
  "create_object_cmd ex_qmp_js req = Inr ''object-add''" "add_device_cmd ex_qmp_js req = Inr ''device_add''"
  "del_device_cmd ex_qmp_js hreq = Inr ''device_del''" "free_object_cmd ex_qmp_js hreq = Inr ''object-del''"
  by (simp_all add: create_object_cmd_def add_device_cmd_def del_device_cmd_def free_object_cmd_def
      qmp_command_def json_members_def ex_qmp_js_def ex_js_def)

lemma ex_qemu_contract: "qemu_contract (ex_qemu full) ex_qmp_js v i q fst (fst \<circ> snd)"
  unfolding qemu_contract_def ex_qmp_commands ex_qmp_execute
  by (simp add: ex_qemu_send_def ex_qemu_def Let_def split: prod.split)

definition ex_unplugged :: "(bool \<times> bool \<times> bool) rm_state" where
  "ex_unplugged = \<lparr>rm_pool = rm_pool ex_state2, rm_vms = rm_vms ex_state2, rm_agents = rm_agents ex_state2,
     rm_world = (False, False, True)\<rparr>"

lemma ex_unplugged_grant: "vm_mngr_instance_get_mem 1 0 (rm_vms ex_unplugged) = Some ex_grant"
  using ex_state2_grant by (simp add: ex_unplugged_def)

lemma ex_attach_request: "request_ok (AttachMem 0 1 0)" "request_ok (DetachMem 0 1)"
  by code_simp+

lemma ex_plugging:
  "perform (ex_qemu full) ex_qmp_js (AttachMem 0 1 0) (ex_unplugged\<lparr>rm_world := (obj, dev, ok)\<rparr>) =
     (let good = \<not> full \<and> \<not> obj \<and> \<not> dev in
      Inr (if good then ''Hotplug memory success'' else ''Hotplug memory failed'',
           ex_unplugged\<lparr>rm_world := (True, dev \<or> good, good)\<rparr>))"
  "perform (ex_qemu full) ex_qmp_js (DetachMem 0 1) (ex_unplugged\<lparr>rm_world := (obj, dev, ok)\<rparr>) =
     (let good = obj \<and> dev in
      Inr (if good then ''Hotunplug memory success'' else ''Hotunplug memory failed'',
           ex_unplugged\<lparr>rm_world := (obj \<and> \<not> good, False, good)\<rparr>))"
  using ex_unplugged_grant
  by (auto simp: rpc_malloc_def qemu_agent_hotplug_memory_def qemu_agent_create_object_def qemu_agent_add_device_def
      qemu_agent_hotunplug_memory_def qemu_agent_del_device_def qemu_agent_free_object_def
      ex_qmp_commands ex_qmp_execute ex_qemu_send_def ex_qemu_simps Let_def)

text \<open>A session: the VM 1 is created and gets memory twice.\<close>

lemma ex_two_allocs:
  obtains a b where "vm_mngr_instance_alloc_mem ex_os 0 1 256 ex_state1 = Inr (Some a, ex_state2)"
    "vm_mngr_instance_alloc_mem ex_os 0 1 256 ex_state2 = Inr (Some b, ex_state3)"
proof -
  have "case vm_mngr_instance_alloc_mem ex_os 0 1 256 ex_state2 of Inr (Some b, s) \<Rightarrow> True | _ \<Rightarrow> False"
    by code_simp
  then obtain b where "vm_mngr_instance_alloc_mem ex_os 0 1 256 ex_state2 = Inr (Some b, ex_state3)"
    by (auto simp: ex_state3_def split: sum.splits option.splits)
  with ex_state2_alloc show thesis using that by blast
qed

lemma ex_alloc_exchange:
  assumes "rm_inv s" "vm_mngr_instance_alloc_mem ex_os 0 1 256 s = Inr (Some a, s')"
  shows "\<exists>i q args. serve ex_os ex_js (print_request (AllocMem 0 1 256)) old s = Inr (grant_text i q, args, s')"
proof -
  have ok: "request_ok (AllocMem 0 1 256)" by (simp add: is_index_def INT_MAX_def)
  have z: "0 < (256::int)" "(256::int) \<le> INT_MAX" by (simp_all add: INT_MAX_def)
  have "rpc_malloc ex_os s = Inr s" by (simp add: rpc_malloc_def ex_os_def unit_world)
  with alloc_granted [OF assms(1) z assms(2)] serve_request [OF ok, of ex_os ex_js old s] assms(2)
  show ?thesis by auto
qed

lemma ex_session:
  "\<exists>i q j r st. session ex_os ex_js ex_lib (shared ex_process)
     ([(CreateVm 1 ''0-1'', ''Create VM 1 success, coreset: [0-1]'')] @
      (AllocMem 0 1 256, grant_text i q) # [] @ (AllocMem 0 1 256, grant_text j r) # []) st"
proof -
  have ok: "request_ok (AllocMem 0 1 256)" by (simp add: is_index_def INT_MAX_def)
  have st: "shared ex_process = (None, ex_state)" by (simp add: shared_def ex_process_def)
  obtain a b where alloc: "vm_mngr_instance_alloc_mem ex_os 0 1 256 ex_state1 = Inr (Some a, ex_state2)"
    "vm_mngr_instance_alloc_mem ex_os 0 1 256 ex_state2 = Inr (Some b, ex_state3)" by (rule ex_two_allocs)
  from session.Answer [OF session.Begin [of ex_os ex_js ex_lib "(None, ex_state)"] ex_create_request(1)] ex_serve
  have 1: "session ex_os ex_js ex_lib (shared ex_process)
      [(CreateVm 1 ''0-1'', ''Create VM 1 success, coreset: [0-1]'')] (Some ''vid=1 coreset=[0-1]'', ex_state1)"
    unfolding ex_create_request(2) st by fastforce
  from ex_alloc_exchange [OF ex_state1_inv alloc(1)] session.Answer [OF 1 ok] obtain i q args where
    2: "session ex_os ex_js ex_lib (shared ex_process)
      ([(CreateVm 1 ''0-1'', ''Create VM 1 success, coreset: [0-1]'')] @ [(AllocMem 0 1 256, grant_text i q)])
      (args, ex_state2)" by blast
  from ex_alloc_exchange [OF ex_state2_inv alloc(2)] session.Answer [OF 2 ok] show ?thesis
    by (metis append.assoc append_Cons append_Nil)
qed

text \<open>What node 0 can still give.\<close>

lemma ex_pool_request: "serve ex_os ex_js (print_request GetMemPool) None ex_state2 =
  Inr (take 1023 (usage_table (rm_pool ex_state2)), None, ex_state2)"
  using serve_request [of GetMemPool ex_os ex_js None ex_state2]
  by (simp add: rpc_malloc_def ex_os_def unit_world request_args_def get_usage_text)

lemma ex_alloc_request: "request_ok (AllocMem 0 1 256)" "servable ex_os (AllocMem 0 1 256) ex_state1"
  "1 \<in> sp_vms (vm_spec_of ex_state1)" "fits_at (rm_pool ex_state1) 0 (256 div g_segment_size_mb (rm_pool ex_state1)) 0"
  "g_segment_size_mb (rm_pool ex_state1) dvd 256"
proof -
  have pool: "rm_pool ex_state1 = ex_pool" "rm_vms ex_state1 = ex_vms"
    by (simp_all add: ex_state1_def ex_state_def start_state_def)
  have seg: "g_segment_size_mb ex_pool = 128" by (simp add: ex_pool_def)
  show "request_ok (AllocMem 0 1 256)" by (simp add: is_index_def INT_MAX_def)
  show "servable ex_os (AllocMem 0 1 256) ex_state1" using ex_rooms by (auto split: option.split)
  show "1 \<in> sp_vms (vm_spec_of ex_state1)" by (simp add: vm_mngr_check_exit_def pool ex_get1)
  show "g_segment_size_mb (rm_pool ex_state1) dvd 256" by (simp add: pool seg)
  show "fits_at (rm_pool ex_state1) 0 (256 div g_segment_size_mb (rm_pool ex_state1)) 0"
    using ex_dev_segments by (simp add: pool seg fits_at_def)
qed

section \<open>Answers with a terminator\<close>

text \<open>A kernel that is like \<open>ex_os\<close>, except that whatever is received ends in a NUL.\<close>

definition ex_ending :: "unit os" where
  "ex_ending = ex_os\<lparr>os_recv := (\<lambda>fd n w. (Some [CHR ''{'', CHR ''}'', CHR 0x00], w))\<rparr>"

lemma ex_ending_recv: "sys_recv ex_ending fd 1024 w = (Some [CHR ''{'', CHR ''}'', CHR 0x00], w)"
  by (simp add: sys_recv_def ex_ending_def)

lemma ex_ending_env: "env_ok ex_ending ex_js"
  using ex_env
  by (simp add: env_ok_def perf_opens_ok_def perf_reads_ok_def perf_closes_ok_def ex_ending_def)

lemma ex_ending_reads: "perf_reads_ok ex_ending"
  using ex_ending_env by (simp add: env_ok_def)

lemma ex_info_request: "request_ok (GetMemInfo 1)" "servable ex_ending (GetMemInfo 1) ex_running"
proof -
  show "servable ex_ending (GetMemInfo 1) ex_running" by (simp add: agent_ends_def ex_ending_recv)
qed code_simp

lemma ex_ending_answer:
  assumes "guest_agent_get_meminfo ex_ending ex_js v st = Inr (Some bs, w)"
  shows "CHR 0x00 \<in> set bs"
proof -
  have "json_object_new_object ex_js \<noteq> None" by (simp add: ex_js_def)
  then obtain cmd where "guest_agent_get_meminfo ex_ending ex_js v st = send_guest_cmd ex_ending v cmd st"
    by (rule meminfo_sent)
  with assms have "send_guest_cmd ex_ending v cmd st = Inr (Some bs, w)" by simp
  from guest_answer [OF this] show ?thesis by (auto simp: ex_ending_recv BUFFER_SIZE_def)
qed

text \<open>Each agent's answer is as short as QEMU's.\<close>

lemma ex_short: "answers_short ex_os" "answers_short ex_ending"
proof -
  have "fst (sys_recv ex_os fd 1024 w) = Some ''create-vm vid=1 coreset=[0-1]''" for fd w
    by (simp add: sys_recv_def ex_os_def)
  then show "answers_short ex_os" by (simp add: answers_short_def)
  show "answers_short ex_ending" by (simp add: answers_short_def ex_ending_recv)
qed

section \<open>Two VMs\<close>

text \<open>The VM 2 beside VM 1, and each has a grant with the index 0.\<close>

definition ex_two :: "unit rm_state" where
  "ex_two = (case vm_mngr_instance_create 2 ''2-3'' (rm_vms ex_state2) of
       Inl e \<Rightarrow> ex_state2
     | Inr (r, m) \<Rightarrow> (case vm_mngr_instance_alloc_mem ex_os 0 2 256 (ex_state2\<lparr>rm_vms := m\<rparr>) of
                         Inl e \<Rightarrow> ex_state2 | Inr (a, s) \<Rightarrow> s))"

lemma ex_two_inv: "rm_inv ex_two"
  using create_inv [OF ex_state2_inv, of 2 "''2-3''"] alloc_mem_inv [where sz = 256] ex_state2_inv
  by (fastforce simp: ex_two_def INT_MAX_def split: sum.split prod.split)

lemma ex_two_grants:
  "vm_mngr_instance_get_mem 1 0 (rm_vms ex_two) = Some ex_grant"
  "vm_mngr_instance_get_mem 2 0 (rm_vms ex_two) = Some (ex_grant\<lparr>req_offset_mb := 256\<rparr>)"
proof -
  have eq: "q = \<lparr>req_node_id = a, req_dev_path = b, req_offset_mb = c, req_size_mb = d, req_align_mb = e\<rparr>"
    if "(req_node_id q, req_dev_path q, req_offset_mb q, req_size_mb q, req_align_mb q) = (a, b, c, d, e)"
    for q :: memory_request and a b c d e
    using that by (cases q) simp
  have "map_option (\<lambda>q. (req_node_id q, req_dev_path q, req_offset_mb q, req_size_mb q, req_align_mb q))
      (vm_mngr_instance_get_mem 1 0 (rm_vms ex_two)) = Some (0, ''/dev/dax0.0'', 0, 256, 128)"
    by code_simp
  then show "vm_mngr_instance_get_mem 1 0 (rm_vms ex_two) = Some ex_grant"
    by (auto dest!: eq simp: ex_grant_def)
  have "map_option (\<lambda>q. (req_node_id q, req_dev_path q, req_offset_mb q, req_size_mb q, req_align_mb q))
      (vm_mngr_instance_get_mem 2 0 (rm_vms ex_two)) = Some (0, ''/dev/dax0.0'', 256, 256, 128)"
    by code_simp
  then show "vm_mngr_instance_get_mem 2 0 (rm_vms ex_two) = Some (ex_grant\<lparr>req_offset_mb := 256\<rparr>)"
    by (auto dest!: eq simp: ex_grant_def)
qed

lemma ex_two_requests: "request_ok (AttachMem 0 1 0)" "request_ok (AttachMem 0 2 0)"
  by code_simp+

lemma ex_two_attach:
  assumes "v \<in> {1, 2}"
  shows "serve ex_os ex_js (print_request (AttachMem 0 v 0)) old ex_two =
    Inr (''Hotplug memory success'', request_args (AttachMem 0 v 0) old, ex_two)"
proof -
  obtain q where "vm_mngr_instance_get_mem v 0 (rm_vms ex_two) = Some q" using assms ex_two_grants by blast
  moreover have "request_ok (AttachMem 0 v 0)" using assms ex_two_requests by blast
  moreover have "os_malloc ex_os n w = (True, w)" for n w by (simp add: ex_os_def)
  ultimately show ?thesis by (simp add: serve_request rpc_malloc_def unit_world ex_plug)
qed

end
