(* ===== verification/Corners.thy ===== *)
theory Corners
  imports Examples
begin

text \<open>
  Corners of the program beside the properties of the root theory: what the pool does with
  configurations that no sane file holds, a VM created without cores, a counter that was never
  scheduled, identifiers the agent does not check, and how single answers and listings read.
\<close>

text \<open>\<open>memory_pool_init\<close> reads back a written configuration: a file with a segment size and at
  most ten device lines gives one initialised device per line, in order, with the line's path,
  size, tier and dax id, all segments free.\<close>

theorem config_roundtrip:
  assumes "0 < seg" "seg \<le> INT_MAX" "list_all entry_ok es" "length es \<le> 10"
  shows "\<exists>p. memory_pool_init (Some (config_text seg es)) empty_pool = Inr (0, p) \<and>
           g_segment_size_mb p = seg \<and> length (g_mem_devs p) = length es \<and>
           (\<forall>k < length es. \<forall>path sz tier dax. es ! k = (path, sz, tier, dax) \<longrightarrow>
              dax_dev_path (g_mem_devs p ! k) = path \<and> dax_total_size_mb (g_mem_devs p ! k) = sz \<and>
              dax_tier_id (g_mem_devs p ! k) = tier \<and> dax_dax_id (g_mem_devs p ! k) = dax \<and>
              dax_node_id (g_mem_devs p ! k) = int k \<and>
              dax_total_segments (g_mem_devs p ! k) = sz div seg \<and>
              (\<forall>j. 0 \<le> j \<and> j < 4096 \<longrightarrow> \<not> allocated (dax_segments (g_mem_devs p ! k) j)))"
proof -
  have "int (length es) \<le> MAX_DEVICES" using assms(4) by (simp add: MAX_DEVICES_def)
  from init_config_text [OF assms(1-3) this] show ?thesis
    by (auto simp: initialised_all_nth initialised_def entry_dev_def MAX_SEGMENTS_def)
qed

theorem config_roundtrip_witness:
  "\<exists>p. memory_pool_init (Some (config_text 128 [(''/dev/dax0.0'', 512, 1, 0)])) empty_pool = Inr (0, p) \<and>
     dax_total_segments (g_mem_devs p ! 0) = 4"
proof -
  have "list_all entry_ok [(''/dev/dax0.0'', 512, 1, 0)]"
    by (simp add: entry_ok_def is_word_def is_space_def INT_MAX_def in_int_def INT_MIN_def)
  with config_roundtrip [of 128 "[(''/dev/dax0.0'', 512, 1, 0)]"] show ?thesis
    by (auto simp: INT_MAX_def)
qed

text \<open>A successful initialisation gives a well-formed pool without owners, when the devices do
  not exceed the segment table.\<close>

theorem init_well_formed:
  assumes "memory_pool_init cfg empty_pool = Inr (0, p)"
    "g_mem_devs p \<noteq> [] \<or> 0 < g_segment_size_mb p"
    "list_all (\<lambda>d. dax_total_segments d \<le> 4096) (g_mem_devs p)"
  shows "pool_wf p \<and> (\<forall>x. pool_owner p x = None)"
  using memory_pool_init_wf [OF assms(1,2)] assms(3) by (simp add: MAX_SEGMENTS_def)

theorem init_well_formed_witness: "pool_wf ex_pool"
proof -
  have ok: "list_all entry_ok [(''/dev/dax0.0'', 512, 1, 0)]"
    by (simp add: entry_ok_def is_word_def is_space_def INT_MAX_def in_int_def INT_MIN_def)
  have "memory_pool_init (Some (config_text 128 [(''/dev/dax0.0'', 512, 1, 0)])) empty_pool = Inr (0, ex_pool)"
    using init_config_text [OF _ _ ok] by (simp add: INT_MAX_def MAX_DEVICES_def ex_pool_def ex_dev_def)
  from init_well_formed [OF this] show ?thesis
    by (simp add: ex_pool_def initialised_def ex_dev_def entry_dev_def)
qed

text \<open>A configuration with devices and no segment size divides by zero.\<close>

theorem config_without_segment_size:
  assumes "list_all entry_ok es" "length es \<le> 10" "es \<noteq> []"
  shows "memory_pool_init (Some (concat (map render_dev es))) empty_pool = Inl DivByZero"
  using init_no_segment_size [OF assms(1) _ assms(3)] assms(2) by (simp add: MAX_DEVICES_def)

theorem config_without_segment_size_witness:
  "memory_pool_init (Some (render_dev (''/dev/dax0.0'', 512, 1, 0))) empty_pool = Inl DivByZero"
  using config_without_segment_size [of "[(''/dev/dax0.0'', 512, 1, 0)]"]
  by (simp add: entry_ok_def is_word_def is_space_def INT_MAX_def in_int_def INT_MIN_def)

text \<open>A request of size 0 passes the alignment check, whose message asks for a size that is not
  zero, and then fails the assertion of \<open>allocate_segments\<close> on every device.\<close>

theorem zero_size_aborts:
  assumes "pool_wf p" "0 \<le> node" "nat node < length (g_mem_devs p)"
  shows "memory_pool_allocate_segments node v 0 p = Inl Aborted"
  by (rule allocate_zero_aborts [OF assms])

theorem zero_size_aborts_witness: "memory_pool_allocate_segments 0 7 0 ex_pool = Inl Aborted"
  by (rule zero_size_aborts [OF ex_pool_wf]) (simp_all add: ex_dev_segments)

text \<open>On a device with more segments than the table holds, all of the table in use, the search
  reads past the table.\<close>

theorem oversized_device_overrun:
  assumes "4096 + n \<le> dax_total_segments d" "dax_total_segments d \<le> INT_MAX" "0 < n"
    "\<And>j. 0 \<le> j \<Longrightarrow> j < 4096 \<Longrightarrow> allocated (dax_segments d j)"
  shows "find_free_segments d n = Inl OutOfBounds"
  by (rule find_free_segments_overrun) (use assms in \<open>simp_all add: MAX_SEGMENTS_def\<close>)

theorem oversized_device_overrun_witness:
  "find_free_segments (zero_dev\<lparr>dax_total_segments := 5000,
     dax_segments := (\<lambda>_. \<lparr>allocated = True, used_vm_id = 1\<rparr>)\<rparr>) 2 = Inl OutOfBounds"
  by (rule oversized_device_overrun) (simp_all add: INT_MAX_def)

text \<open>A request to create a VM on the empty core set aborts the whole process whenever the
  creation gets as far as counting cores.\<close>

theorem vm_create_no_cores_aborts:
  assumes "rm_inv s" "mngr_count (rm_vms s) < 16" "\<not> vm_mngr_check_exit v (rm_vms s)"
  shows "vm_mngr_instance_create v [] (rm_vms s) = Inl Aborted"
proof -
  have "mngr_wf (rm_vms s)" using assms(1) by (simp add: rm_inv_def)
  from create_no_cores [OF this] assms(2,3) show ?thesis by (simp add: MAX_NUM_VM_def)
qed

theorem vm_create_no_cores_aborts_witness: "vm_mngr_instance_create 1 [] (rm_vms ex_state) = Inl Aborted"
proof -
  have "rm_vms ex_state = zero_mngr" by (simp add: ex_state_def start_state_def)
  moreover have "\<not> vm_mngr_check_exit 1 zero_mngr"
    by (simp add: vm_mngr_check_exit_def vm_mngr_get_instance_def zero_mngr_def find_vm_zero)
  ultimately show ?thesis
    using vm_create_no_cores_aborts [OF ex_state_inv, of 1] zero_mngr_wf(2) by simp
qed

text \<open>A counter that was never scheduled divides by zero in floating point, and converting the
  infinity or NaN back to an integer is undefined.\<close>

theorem counter_never_scheduled:
  assumes "os_read_counter os fd w = ((24, d), w')" "prf_time_running d = 0"
  shows "perf_event_read os fd w = Inl ConvOverflow"
  using perf_scale_unscheduled [OF assms(2)] assms(1)
  by (simp add: perf_event_read_def sizeof_perf_read_format_def)

theorem counter_never_scheduled_witness:
  "perf_event_read (ex_os\<lparr>os_read_counter := (\<lambda>fd w. ((24, \<lparr>prf_value = 0, prf_time_enabled = 9,
     prf_time_running = 0\<rparr>), w))\<rparr>) 5 () = Inl ConvOverflow"
  by (rule counter_never_scheduled
      [where d = "\<lparr>prf_value = 0, prf_time_enabled = 9, prf_time_running = 0\<rparr>"]) simp_all

text \<open>\<open>get-mem-info\<close> does not check the VM id: an id outside 0 to 15 is an access outside the
  table of guest agents.\<close>

theorem mem_info_id_unchecked:
  assumes "in_int v" "\<not> (0 \<le> v \<and> v < 16)" "json_object_new_object js \<noteq> None"
  shows "rpc_handle_get_mem_info os js (''vid='' @ show_int v) s = Inl OutOfBounds"
proof -
  have "\<not> (0 \<le> v \<and> v < MAX_NUM_VM)" using assms(2) by (simp add: MAX_NUM_VM_def)
  then show ?thesis using assms(3) guest_agent_out_of_range(3) [of v os]
    unfolding rpc_handle_get_mem_info_def scan_vid [OF assms(1)]
    by (auto simp: guest_agent_get_meminfo_def json_members_def)
qed

theorem mem_info_id_unchecked_witness:
  "rpc_handle_get_mem_info ex_os ex_js (''vid='' @ show_int 16) ex_state = Inl OutOfBounds"
  by (rule mem_info_id_unchecked) (simp_all add: in_int_def INT_MIN_def INT_MAX_def ex_js_def)

text \<open>Before any request has carried arguments, a bare command that needs them reads an
  uninitialised buffer.\<close>

theorem bare_command_reads_uninitialised:
  assumes "cmd \<in> {''get-mem-info'', ''get-node-info'', ''alloc-mem'', ''free-mem'', ''attach-mem'',
                   ''detach-mem'', ''create-vm'', ''destroy-vm'', ''start-vm'', ''stop-vm''}"
  shows "serve os js cmd None s = Inl UninitRead"
proof -
  from assms have "is_word cmd \<and> length cmd \<le> 63"
    by (elim insertE emptyE; hypsubst) (simp_all add: is_word_def is_space_def)
  then have "scan_request cmd None = Inr (Some (cmd, None))" by (intro scan_bare_command) auto
  moreover have "rpc_dispatch os js cmd None s = Inl UninitRead"
    using assms by (elim insertE emptyE; hypsubst) (simp_all add: rpc_dispatch_def with_args_def)
  ultimately show ?thesis by (simp add: serve_def)
qed

theorem bare_command_reads_uninitialised_witness: "serve ex_os ex_js ''stop-vm'' None ex_state = Inl UninitRead"
  by (rule bare_command_reads_uninitialised) simp

text \<open>The usage table is the header and one line per device, cut to the buffer.\<close>

theorem usage_table_printed: "memory_pool_get_usage n p = take (nat (n - 1)) (usage_table p)"
  by (rule get_usage_text)

text \<open>The listing of the VMs is the count and one block per VM with one line per device, cut to
  the buffer; it always leaves a string.\<close>

theorem vm_listing_printed:
  assumes "0 < n"
  shows "vm_mngr_dump_state n m = Some (take (nat (n - 1)) (vms_listing m))"
  by (rule dump_state_text [OF assms])

theorem vm_listing_printed_witness: "vm_mngr_dump_state 6 zero_mngr = Some ''VM Co''"
  by (subst vm_listing_printed) (simp_all add: vms_listing_def)

text \<open>A request of 1024 bytes or more without a NUL byte makes the server read past its
  buffer.\<close>

theorem long_request_overruns:
  assumes "os_accept os server_fd (rm_world s) = (fd, w1)" "0 \<le> fd"
    "os_recv os fd 1024 w1 = (Some bs, w2)" "1024 \<le> length bs" "CHR 0x00 \<notin> set bs"
  shows "rpc_client os js server_fd (args, s) = Inl OutOfBounds"
proof -
  have "CHR 0x00 \<notin> set (take 1024 bs)" using assms(5) set_take_subset by fastforce
  with assms show ?thesis
    by (simp add: rpc_client_def sys_recv_def request_text_def BUFFER_SIZE_def)
qed

theorem long_request_overruns_witness:
  "rpc_client (ex_os\<lparr>os_recv := (\<lambda>fd n w. (Some (replicate 1024 CHR ''a''), w))\<rparr>) ex_js 0 (None, ex_state)
     = Inl OutOfBounds"
  by (rule long_request_overruns [where fd = 4 and bs = "replicate 1024 CHR ''a''"]) (simp_all add: ex_os_def)

text \<open>A hotplug succeeds exactly when the backend object and then the device are accepted; a
  hotunplug exactly when the device is deleted and, after the fixed wait of three seconds, the
  backend object.\<close>

theorem hotplug_both_accepted:
  "(qemu_agent_hotplug_memory os js v req w = Inr (0, w') \<longleftrightarrow>
      (\<exists>w1. qemu_agent_create_object os js v req w = Inr (0, w1) \<and>
            qemu_agent_add_device os js v req w1 = Inr (0, w'))) \<and>
   (qemu_agent_hotunplug_memory os js v unreq w = Inr (0, w') \<longleftrightarrow>
      (\<exists>w1. qemu_agent_del_device os js v unreq w = Inr (0, w1) \<and>
            qemu_agent_free_object os js v unreq (os_usleep os 3000000 w1) = Inr (0, w')))"
  using hotplug_success [of os js v req w w'] hotunplug_success [of os js v unreq w w']
  by (simp add: qemu_agent_create_object_def qemu_agent_add_device_def qemu_agent_del_device_def
      qemu_agent_free_object_def)

text \<open>A well-formed \<open>alloc-mem\<close> request is answered.  Either the answer is \<open>Allocate failed\<close> and
  pool and VMs are unchanged, or it is the complete text of a grant of the asked size on the asked
  node, which the VM now holds under a new index.\<close>

theorem alloc_request_answered:
  assumes "rm_inv s" "\<And>n w. fst (os_malloc os n w)" "0 \<le> nid" "nid \<le> INT_MAX" "0 \<le> vid" "vid \<le> INT_MAX"
    "0 < sz" "sz \<le> INT_MAX"
    and "\<And>k. vm_mngr_get_instance vid (rm_vms s) = Some k \<Longrightarrow> VM_memdev_counter (vm_at s k) < INT_MAX"
  shows "\<exists>reply s'. serve os js (''alloc-mem '' @ alloc_args nid vid sz) old s =
             Inr (reply, Some (alloc_args nid vid sz), s') \<and> rm_inv s' \<and>
           (reply = ''Allocate failed'' \<and> rm_pool s' = rm_pool s \<and> rm_vms s' = rm_vms s \<or>
            (\<exists>i q. vm_mngr_instance_get_mem vid i (rm_vms s) = None \<and>
                   vm_mngr_instance_get_mem vid i (rm_vms s') = Some q \<and>
                   req_node_id q = nid \<and> req_size_mb q = sz \<and> reply = grant_text i q))"
proof -
  let ?r = "AllocMem nid vid sz"
  have ok: "request_ok ?r" using assms(3-8) by (simp add: is_index_def)
  have printed: "print_request ?r = ''alloc-mem '' @ alloc_args nid vid sz" "request_args ?r old = Some (alloc_args nid vid sz)"
    by (simp_all add: print_request_def request_args_def alloc_args_def)
  from rpc_malloc_ok [OF assms(2), of s] obtain w where w: "rpc_malloc os s = Inr (s\<lparr>rm_world := w\<rparr>)" by blast
  have inv: "rm_inv (s\<lparr>rm_world := w\<rparr>)" using assms(1) by simp
  have "servable os ?r s" using assms(9) by (auto split: option.split)
  from alloc_step [OF assms(1) ok this, of w] obtain ret s' where
    run: "vm_mngr_instance_alloc_mem os nid vid sz (s\<lparr>rm_world := w\<rparr>) = Inr (ret, s')" by blast
  have sv: "serve os js (print_request ?r) old s =
      Inr (case ret of Some a \<Rightarrow> take 1023 (alloc_text a) | None \<Rightarrow> ''Allocate failed'', request_args ?r old, s')"
    unfolding serve_request [OF ok] by (simp add: w run)
  have inv': "rm_inv s'" using alloc_mem_inv [OF inv assms(7,8) run] by simp
  show ?thesis
  proof (cases ret)
    case None
    with alloc_spec [OF inv assms(7,8) run] have "s' = (s\<lparr>rm_world := w\<rparr>)\<lparr>rm_world := rm_world s'\<rparr>" by simp
    then have "rm_pool s' = rm_pool s" "rm_vms s' = rm_vms s" by (metis rm_state.select_convs(1,2) rm_state.surjective rm_state.update_convs(4))+
    with sv inv' None show ?thesis unfolding printed by simp
  next
    case (Some a)
    from alloc_granted [OF inv assms(7,8) run [unfolded Some]] obtain q where
      q: "take 1023 (alloc_text a) = grant_text (vmr_memdev_idx a) q" "req_node_id q = nid" "req_size_mb q = sz"
        "sp_grants (vm_spec_of (s\<lparr>rm_world := w\<rparr>)) (vid, vmr_memdev_idx a) = None"
      and spec: "vm_spec_of s' = (vm_spec_of (s\<lparr>rm_world := w\<rparr>))\<lparr>sp_grants :=
        (sp_grants (vm_spec_of (s\<lparr>rm_world := w\<rparr>)))((vid, vmr_memdev_idx a) \<mapsto> q)\<rparr>" by blast
    have "sp_grants (vm_spec_of s') (vid, vmr_memdev_idx a) = Some q" unfolding spec by simp
    with sv inv' Some q show ?thesis unfolding printed by (auto simp: vm_ledger_def)
  qed
qed

theorem alloc_request_answered_witness:
  "\<exists>reply s'. serve ex_os ex_js (''alloc-mem '' @ alloc_args 0 1 256) None ex_state1 =
     Inr (reply, Some (alloc_args 0 1 256), s') \<and> rm_inv s'"
proof -
  have mal: "fst (os_malloc ex_os n w)" for n w by (simp add: ex_os_def)
  have nid: "0 \<le> (0::int)" "(0::int) \<le> INT_MAX" and vid: "0 \<le> (1::int)" "(1::int) \<le> INT_MAX"
    and sz: "0 < (256::int)" "(256::int) \<le> INT_MAX" by (simp_all add: INT_MAX_def)
  from alloc_request_answered [where os = ex_os, OF ex_state1_inv mal nid vid sz ex_rooms]
  show ?thesis by blast
qed

text \<open>The requests \<open>attach-mem\<close> and \<open>detach-mem\<close> for memory the VM holds.  Both name the DIMM and its
  backend after the memory id, in full, so that a detach asks for exactly what the attach made; the
  attach carries path, size and alignment of the grant; the answer says whether QEMU accepted both
  commands, and nothing of the manager's own state changes.\<close>

theorem attach_detach_served:
  assumes "\<And>n w. fst (os_malloc os n w)" "0 \<le> memid" "memid \<le> INT_MAX" "0 \<le> vid" "vid \<le> INT_MAX"
    "0 \<le> nid" "nid \<le> INT_MAX" "vm_mngr_instance_get_mem vid memid (rm_vms s) = Some q"
    "length (req_dev_path q) < 64"
  shows "serve os js (''attach-mem '' @ attach_args memid vid nid) old s =
           bindE (qemu_agent_hotplug_memory os js vid
             \<lparr>hp_dimm_id = ''dimm'' @ show_int memid, hp_memdev_id = ''mem'' @ show_int memid,
              hp_dev_path = req_dev_path q, hp_size_bytes = word_of_int (req_size_mb q) * 1048576,
              hp_align_bytes = word_of_int (req_align_mb q) * 1048576, hp_share = True, hp_numa_node = nid\<rparr>
             (snd (os_malloc os 1024 (rm_world s)))) (\<lambda>(ret, w).
           Inr (if ret = 0 then ''Hotplug memory success'' else ''Hotplug memory failed'',
                Some (attach_args memid vid nid), s\<lparr>rm_world := w\<rparr>)) \<and>
         serve os js (''detach-mem '' @ detach_args memid vid) old s =
           bindE (qemu_agent_hotunplug_memory os js vid
             \<lparr>hu_dimm_id = ''dimm'' @ show_int memid, hu_memdev_id = ''mem'' @ show_int memid\<rparr>
             (snd (os_malloc os 1024 (rm_world s)))) (\<lambda>(ret, w).
           Inr (if ret = 0 then ''Hotunplug memory success'' else ''Hotunplug memory failed'',
                Some (detach_args memid vid), s\<lparr>rm_world := w\<rparr>))"
  unfolding attach_served [OF assms] detach_served [OF assms(1-5,8)] attach_request_def detach_request_def
    mb_to_bytes by (intro conjI refl)

theorem attach_detach_served_witness:
  "serve ex_os ex_js (''detach-mem '' @ detach_args 0 1) None ex_state2 =
     Inr (''Hotunplug memory success'', Some (detach_args 0 1), ex_state2)"
proof -
  have mal: "fst (os_malloc ex_os n w)" for n w by (simp add: ex_os_def)
  have ids: "0 \<le> (0::int)" "(0::int) \<le> INT_MAX" "0 \<le> (1::int)" "(1::int) \<le> INT_MAX" by (simp_all add: INT_MAX_def)
  have path: "length (req_dev_path ex_grant) < 64" by (simp add: ex_grant_def)
  from attach_detach_served [where os = ex_os and js = ex_js and old = None, OF mal ids ids(1,2) ex_state2_grant path]
  show ?thesis by (simp add: ex_unplug)
qed

text \<open>A counter that was scheduled all the time is read exactly, as long as the product of
  count and time fits the 53-bit significand.\<close>

theorem counter_read_exact:
  assumes "os_read_counter os fd w = ((24, d), w')"
    "prf_time_running d = prf_time_enabled d" "prf_time_enabled d \<noteq> 0"
    "uint (prf_time_enabled d) < 2 ^ 53" "uint (prf_value d) * uint (prf_time_enabled d) < 2 ^ 53"
  shows "perf_event_read os fd w = Inr (prf_value d, w')"
  using perf_scale_exact [OF assms(2-5)] assms(1)
  by (simp add: perf_event_read_def sizeof_perf_read_format_def)

theorem counter_read_exact_witness: "perf_event_read ex_os 5 () = Inr (7, ())"
  using counter_read_exact [of ex_os 5 "()" "\<lparr>prf_value = 7, prf_time_enabled = 2, prf_time_running = 2\<rparr>" "()"]
  by (simp add: ex_os_def)

text \<open>The server keeps the arguments of an earlier request.  A bare command word is served
  exactly like the command with those arguments: \<open>destroy-vm\<close> after \<open>stop-vm vid=1\<close> destroys VM 1.\<close>

theorem bare_command_reuses_arguments:
  assumes "is_word cmd" "length cmd \<le> 63" "a \<noteq> []" "\<not> is_space (hd a)" "newline \<notin> set a" "length a < 1024"
  shows "serve os js cmd (Some a) s = serve os js (cmd @ '' '' @ a) b s"
  unfolding serve_def scan_command [OF assms] scan_bare_command [OF assms(1,2)] by simp

theorem bare_command_reuses_arguments_witness:
  "serve ex_os ex_js ''destroy-vm'' (Some ''vid=1'') ex_state2 =
     serve ex_os ex_js ''destroy-vm vid=1'' None ex_state2"
  using bare_command_reuses_arguments [of "''destroy-vm''" "''vid=1''" ex_os ex_js ex_state2 None]
  by (simp add: is_word_def is_space_def newline_def)

text \<open>The two readers disagree on how long a word may be.  A setting whose value has 128 to 255
  characters, such as a long token, is taken by the monitor, but the pool's reading of the same line
  writes past its stack buffer.\<close>

theorem long_setting_overflows_pool:
  assumes "is_word k" "length k < 32" "hd k \<notin> {CHR ''#'', CHR ''[''}" "is_word v" "128 \<le> length v" "length v < 256"
  shows "monitor_line (k @ '' '' @ v @ [newline]) gm = monitor_setting k v gm \<and>
         load_line (k @ '' '' @ v @ [newline]) p = Inl OutOfBounds"
  using long_setting_overflows(1) [OF assms, of gm] long_setting_overflows(2) [OF assms, of p]
  by (simp add: render_setting_def)

theorem long_setting_overflows_pool_witness:
  "load_line (''influxdb_token'' @ '' '' @ replicate 200 CHR ''a'' @ [newline]) empty_pool = Inl OutOfBounds"
proof -
  have "is_word ''influxdb_token''" "is_word (replicate 200 CHR ''a'')"
    by (simp_all add: is_word_def is_space_def list_all_iff)
  from long_setting_overflows_pool [OF this(1) _ _ this(2), of initial_monitor empty_pool] show ?thesis by simp
qed

text \<open>Every answer of the server fits the client's buffer with room for the terminating NUL, so
  that the client never reads past it.\<close>

theorem answer_fits_client:
  assumes "serve os js buffer args s = Inr (t, args', s')"
  shows "length t < 1024 \<and> request_text (Some t) = Inr (c_str t)"
  using serve_fits [OF assms] by (simp add: request_text_def BUFFER_SIZE_def)

theorem answer_fits_client_witness: "length ''Create VM 1 success, coreset: [0-1]'' < (1024 :: nat)"
  using answer_fits_client [OF ex_serve] by blast

text \<open>The command line client and the server agree.  A command the client accepts, if it is not
  too long for the buffer, is received whole, split by the server into the command word and the
  arguments as given, and served with exactly these; and a command it sends without arguments is
  served the same whatever arguments an earlier request left behind.\<close>

theorem client_request_understood:
  assumes "client_command cmd args = Inr t" "length (spaced (cmd # args)) < 1024" "args_ok args"
  shows "request_text (Some t) = Inr t \<and>
         serve os js t old s =
           bindE (rpc_dispatch os js cmd (Some (spaced args)) s) (\<lambda>(r, s).
           bindE (reply_text r) (\<lambda>u. Inr (u, if args = [] then old else Some (spaced args), s)))"
proof (cases "args = []")
  case True
  then have "client_argc cmd = Some 2" using client_command_Inr [OF assms(1)] by simp
  from bare_dispatch [OF this, of os js old s "Some []"] client_scanned [OF assms, of old] True show ?thesis
    by (auto simp: serve_def)
next
  case False
  with client_scanned [OF assms, of old] show ?thesis by (auto simp: serve_def)
qed

theorem client_request_understood_witness:
  "request_text (Some ''free-mem vid=1 memid=0'') = Inr ''free-mem vid=1 memid=0''"
proof -
  have "client_command ''free-mem'' [''vid=1'', ''memid=0''] = Inr ''free-mem vid=1 memid=0''"
    by (simp add: client_command_def client_argc_def snprintf_def BUFFER_SIZE_def)
  moreover have "args_ok [''vid=1'', ''memid=0'']" by (simp add: args_ok_def newline_def is_space_def)
  ultimately show ?thesis
    using client_request_understood [of "''free-mem''" "[''vid=1'', ''memid=0'']" _ ex_os ex_js None ex_state]
    by simp
qed

text \<open>\<open>memory_pool_release_vm_memory\<close> frees exactly the segments of the VM.\<close>

theorem pool_release_vm_exact:
  assumes "pool_wf p"
  shows "\<exists>p'. memory_pool_release_vm_memory v p = Inr p' \<and> pool_wf p' \<and>
           (\<forall>x. pool_owner p' x = (if pool_owner p x = Some v then None else pool_owner p x))"
  using memory_pool_release_vm_correct [OF assms, of v] by auto

theorem pool_release_vm_exact_witness:
  "\<exists>p'. memory_pool_release_vm_memory 1 ex_pool = Inr p' \<and> pool_wf p'"
  using pool_release_vm_exact [OF ex_pool_wf, of 1] by blast

text \<open>On one device the release frees exactly the longest prefix of the run that the VM owns,
  and reports success if and only if that prefix is the whole run: a failed release is not
  undone.\<close>

theorem release_longest_prefix:
  assumes "dev_wf seg d" "0 \<le> start" "0 \<le> n" "start + n \<le> MAX_SEGMENTS"
  shows "\<exists>k d'. 0 \<le> k \<and> k \<le> n \<and> (\<forall>m. 0 \<le> m \<and> m < k \<longrightarrow> owns d v (start + m)) \<and>
           (k < n \<longrightarrow> \<not> owns d v (start + k)) \<and>
           release_segments d v start n = Inr (if k = n then 0 else -1, d') \<and> dev_wf seg d' \<and>
           (\<forall>w j. owns d' w j = (owns d w j \<and> \<not> (start \<le> j \<and> j < start + k)))"
proof -
  from release_loop_correct [OF assms(1,2,4), of 0 v] assms(3) obtain k where
    "0 \<le> k" "k \<le> n" "\<forall>m. 0 \<le> m \<and> m < k \<longrightarrow> owns d v (start + m)"
    "k < n \<longrightarrow> \<not> owns d v (start + k)"
    "release_loop v start n 0 d = Inr (if k = n then 0 else -1, cleared d start k)"
    "dev_wf seg (cleared d start k)" by auto
  then show ?thesis
    by (intro exI [of _ k] exI [of _ "cleared d start k"]) (auto simp: release_segments_def owns_cleared)
qed

theorem release_longest_prefix_witness:
  "\<exists>(k::int) d'. release_segments (g_mem_devs ex_pool ! 0) 7 0 2 = Inr (if k = 2 then 0 else -1, d')"
proof -
  have "dev_wf (g_segment_size_mb ex_pool) (g_mem_devs ex_pool ! 0)"
    by (rule pool_dev_wf [OF ex_pool_wf]) (simp add: ex_dev_segments)
  from release_longest_prefix [OF this, of 0 2 7] show ?thesis by (auto simp: MAX_SEGMENTS_def)
qed

text \<open>A metric is clamped to the range 0 to 350, or is NaN.\<close>

theorem metric_range:
  "VM_cur_metrics (vm_update_metrics VM) j = DNaN \<or>
   (\<exists>q. VM_cur_metrics (vm_update_metrics VM) j = DFin q \<and> 0 \<le> q \<and> q \<le> 350)"
  using cur_metrics_sane [of VM j] by (simp add: metric_sane_def)

text \<open>The usage table is the header and one line per device, the listing of the VMs the count and
  one block per VM with one line per device; both are cut to the buffer and leave a string.\<close>

theorem listings_printed:
  assumes "0 < n"
  shows "memory_pool_get_usage n p = take (nat (n - 1)) (usage_table p) \<and>
         vm_mngr_dump_state n m = Some (take (nat (n - 1)) (vms_listing m))"
  using get_usage_text dump_state_text [OF assms] by blast

theorem listings_printed_witness: "vm_mngr_dump_state 6 zero_mngr = Some ''VM Co''"
  using listings_printed [of 6 empty_pool zero_mngr] by (simp add: vms_listing_def)

text \<open>The answer of a guest agent is sent on with \<open>strlen\<close> although nothing ends it: an answer
  without a NUL byte makes the server read indeterminate bytes, or past the buffer when it fills
  it.\<close>

theorem mem_info_answer_unterminated:
  assumes "agent_up (rm_agents s) v" "json_object_new_object js \<noteq> None" "\<And>n w. fst (os_malloc os n w)"
    "\<And>fd w. fst (os_recv os fd 1024 w) = Some bs" "CHR 0x00 \<notin> set bs"
  shows "serve os js (''get-mem-info vid='' @ show_int v) old s =
           Inl (if length bs < 1024 then UninitRead else OutOfBounds)"
proof -
  have v: "0 \<le> v" "v < MAX_NUM_VM" "ga_initialized (guest_agents (rm_agents s) v)"
    using assms(1) by (simp_all add: agent_up_def)
  then have int: "in_int v" by (intro MAX_NUM_VM_in_int) auto
  have "newline \<notin> set (''vid='' @ show_int v)" "length (''vid='' @ show_int v) < 1024"
    using word_newline_free [OF show_int_word] show_int_length [OF int] by (simp_all add: newline_def)
  then have scan: "scan_request (''get-mem-info vid='' @ show_int v) old =
      Inr (Some (''get-mem-info'', Some (''vid='' @ show_int v)))"
    using scan_command [of "''get-mem-info''" "''vid='' @ show_int v" old]
    by (simp add: is_word_def is_space_def)
  have nul: "CHR 0x00 \<notin> set (take 1024 bs)" using assms(5) set_take_subset by fastforce
  obtain w where "guest_agent_get_meminfo os js v (rm_agents s, rm_world s) = Inr (Some (take 1024 bs), w)"
    using assms(2-4) v
    by (auto simp: guest_agent_get_meminfo_def json_members_def send_guest_cmd_def agent_get_def
        arr_get_def sys_recv_def BUFFER_SIZE_def case_prod_beta)
  then have "rpc_handle_get_mem_info os js (''vid='' @ show_int v) s = Inr (RRaw (take 1024 bs), s\<lparr>rm_world := w\<rparr>)"
    by (simp add: rpc_handle_get_mem_info_def scan_vid [OF int] del: sscanf.simps append_Cons)
  then show ?thesis unfolding serve_def scan using nul
    by (simp add: rpc_dispatch_def with_args_def reply_text_def read_recv_buffer_def BUFFER_SIZE_def)
qed

theorem mem_info_answer_unterminated_witness:
  "serve ex_os ex_js (''get-mem-info vid='' @ show_int 1) None
     (ex_state\<lparr>rm_agents := \<lparr>guest_agents = (\<lambda>_. \<lparr>ga_socket_path = [], ga_agent_fd = 7, ga_initialized = True\<rparr>),
        ga_count = 16\<rparr>\<rparr>) = Inl UninitRead"
proof -
  let ?s = "ex_state\<lparr>rm_agents := \<lparr>guest_agents = (\<lambda>_. \<lparr>ga_socket_path = [], ga_agent_fd = 7,
      ga_initialized = True\<rparr>), ga_count = 16\<rparr>\<rparr>"
  have "agent_up (rm_agents ?s) 1" by (simp add: agent_up_def MAX_NUM_VM_def)
  from mem_info_answer_unterminated [OF this, of ex_js ex_os "''create-vm vid=1 coreset=[0-1]''" None]
  show ?thesis by (simp add: ex_os_def ex_js_def)
qed

end
