(* ===== verification/Spec2Isabelle.thy ===== *)
theory Spec2Isabelle
  imports Corners
begin

text \<open>
  Ramryder, a manager of disaggregated memory: the resource manager daemon and its command line
  client, \<open>src/*.c\<close>.

  The daemon owns a few DAX devices and hands out runs of their segments to VMs.  A client sends
  one text request per connection; the server parses it, calls the VM manager, the pool or an
  agent, and sends a text back.  A monitor thread measures the running VMs once per interval and
  sends the figures to a database.  SIGINT stops and destroys every VM.

  \<^bold>\<open>State and calls.\<close>  The record \<open>process\<close> holds all variables of the daemon: in \<open>rm_state\<close> the
  pool (\<open>g_mem_devs\<close>, \<open>g_num_devs\<close>, \<open>g_segment_size_mb\<close>), the VM table (\<open>g_vm_mngr\<close>), the table of
  guest agents (\<open>g_agent_manager\<close>) and the \<open>world\<close> of the kernel; beside it the variables of the
  monitor, of the log and of the server.  The server calls the VM manager, which calls the pool
  (allocation, release, release of a VM), the guest agents and the performance events (on start and
  stop); attach and detach call the QEMU agent.  The monitor walks over the running VMs and writes
  the counters, metrics and bandwidths of their entries.

  \<^bold>\<open>Conventions.\<close>  An operation returns \<open>Inl\<close> a fault (division by zero, access outside an array,
  signed overflow, read of an indeterminate value, bad pointer, abort) or \<open>Inr\<close> its C result and
  the new state.  A theorem that says \<open>\<exists>s'. f s = Inr ...\<close> therefore says that \<open>f\<close> returns and that
  nothing undefined happens on the way.  \<open>int\<close> is HOL's \<open>int\<close> with every sum and product checked
  against 32 bits; \<open>uint64_t\<close> is \<open>64 word\<close>, \<open>uint32_t\<close> is \<open>32 word\<close>; \<open>double\<close> is an exact binary64
  with rounding, overflow and NaN; a fixed C array is a function on indices whose accesses check the
  bound.  The kernel (\<open>os\<close>), json-c (\<open>js\<close>), libcurl (\<open>lib\<close>), PCM (\<open>pcm\<close>) and zlog (\<open>z\<close>) are
  parameters about which nothing is assumed, except where a theorem names it.

  \<^bold>\<open>Theories of the model.\<close>
  \<^item> \<open>UtilCommon\<close>: the macros of \<open>util_common.h\<close>, at the width of their uses.
  \<^item> \<open>Prelude\<close>: faults, sequencing, checked arithmetic, arrays, loops over lists, \<open>snprintf\<close>.
  \<^item> \<open>CString\<close>, \<open>CDouble\<close>: the parts of the C library the sources use (\<open>sscanf\<close>, \<open>fgets\<close>,
    \<open>strtok\<close>, \<open>strchr\<close>, \<open>atoi\<close>, \<open>%d\<close>) with their round trips, and \<open>double\<close>.
  \<^item> \<open>MemoryPool\<close>, \<open>PoolConfig\<close>: \<open>memory_pool.c\<close>; \<open>Tailq\<close>: the macros of \<open>util_queue.h\<close>.
  \<^item> \<open>Os\<close>, \<open>Json\<close>: the system calls and json-c as parameters; \<open>util_socket.c\<close>.
  \<^item> \<open>GuestAgent\<close>: \<open>guest_agent.c\<close>; \<open>QemuAgent\<close>: \<open>qemu_agent.c\<close>, the QMP sessions and the two-step
    hotplug and hotunplug; \<open>PerfCounter\<close>: \<open>perf_counter.c\<close>; \<open>RmLog\<close>: \<open>util_log.c\<close>.
  \<^item> \<open>Vm\<close>, \<open>VmManager\<close>: \<open>vm_manager.c\<close>, the entry of a VM with core set, counters and metrics, and
    the table with its operations.
  \<^item> \<open>GuestMonitor\<close>: \<open>guest_monitor.c\<close>, its configuration, uploads and rounds.
  \<^item> \<open>ResourceManager\<close>, \<open>Process\<close>: \<open>resource_manager.c\<close>, the handlers, the dispatch and one client;
    \<open>main\<close>, the event loop and the signal handler.
  \<^item> \<open>ResourceClient\<close>: \<open>resource_client.c\<close>.

  \<^bold>\<open>Theories of proofs.\<close>
  \<^item> \<open>PoolCorrect\<close>, \<open>Pool\<close>: the search and the release loops against their specifications, and the
    pool as an instance of the locale \<open>segment_allocator\<close> (theory \<open>SegmentAllocator\<close>), whose clients
    reason about a ledger of grants.  The queue and the guest agents instantiate \<open>tail_queue\<close> and
    \<open>agent_service\<close> in their own theories.
  \<^item> \<open>VmPerf\<close>, \<open>VmCorrect\<close>, \<open>VmMonitor\<close>: the counters, the invariant of the table, the operations
    against their specifications, the listing and the walks.
  \<^item> \<open>VmSpec\<close>: the abstract machine \<open>spec_step\<close> of VMs and grants, the abstraction \<open>vm_spec_of\<close>, and
    the simulation of each operation.  \<open>Handlers\<close>: the locale \<open>respected\<close> of relations that the
    operations of the VM manager respect; every handler, the dispatch and \<open>rpc_client\<close> respect them,
    too.  It is interpreted on the simulation here and on \<open>stays_or_stops\<close> in \<open>Interleave\<close>.
    \<open>RmCorrect\<close>: start-up, shutdown and grants.
  \<^item> \<open>MonitorCorrect\<close>, \<open>MonitorConfig\<close>: the rounds of the monitor; its reading of the configuration.
  \<^item> \<open>ClientCorrect\<close>: what the client sends, and the length of every answer.
  \<^item> \<open>ProcessCorrect\<close>, \<open>Lifecycle\<close>: the atomic steps \<open>rm_step\<close> of the two threads, start-up and
    shutdown; requests that tear a VM down.  \<open>Hotplug\<close>: the requests for a device a VM holds.
  \<^item> \<open>Interleave\<close>: the finer steps \<open>fine_step\<close> of the two threads, with \<open>vm_mngr_instance_stop\<close> in the two
    halves \<open>stop_flag\<close> and \<open>stop_close\<close> and the monitor's test of \<open>running\<close> apart from its work.
  \<^item> \<open>Protocol\<close>, \<open>ProtocolCorrect\<close>: the thirteen requests as a datatype, how the client writes them,
    \<open>perform\<close>, which is what the server does for each without any text, and \<open>answered\<close>, what its
    answer promises of the abstract state; when it answers at all.
  \<^item> \<open>CoreWalk\<close>: the walk over a core set down to the calls of \<open>strtok\<close> and its static position.
  \<^item> \<open>Session\<close>: runs of the process with the transcript of their requests and answers, and what a
    transcript promises.  \<open>Accounting\<close>: the locale \<open>metered_allocator\<close> extends the allocator's contract
    by a meter; interpreted on \<open>used_segments\<close> it shows that the pool's counters are the sums of the grants.
  \<^item> \<open>QemuContract\<close>: attach and detach against a QEMU that keeps its documentation.
  \<^item> \<open>Examples\<close>: a small machine on which the theorems below are applied; \<open>Corners\<close>: further faults
    and single answers.

  \<^bold>\<open>What is shown.\<close>  \<open>rm_inv\<close> is the invariant of the process: the table, the agents and the pool are
  well-formed, an agent is connected exactly for a running VM, and the segments the pool counts as
  allocated are exactly those of the devices on the VMs' lists, each on one list.  C1 to C20 are
  about the whole process: invariant, refinement, the protocol between client and server (C3 to C7),
  the threads (C8 to C11), isolation inside and as the clients see it (C12, C13), accounting (C14),
  memory of a VM (C15 to C17), removal, shutdown.  C21 to C24 are about the pool, C25 to C27 about the
  life of a VM, C28 to C33 about counters, metrics and the monitor, C34 and C35 about configuration
  and queues, C36 to C40 about hotplug and the agents.  Several of
  them state, as theorems, what the code does where it goes wrong.

  \<^bold>\<open>Loops.\<close>  No fuel is used.  Loops over the table, the devices, the segments or the file are
  recursion on lists or on a measure; the walk of a queue is \<open>partial_function (option)\<close> and shown to
  end.  The loops of the server and of the monitor do not end by themselves: they are observed after
  any number \<open>n\<close> of turns, and the theorems hold for every \<open>n\<close>.

  \<^bold>\<open>Interleaving.\<close>  In \<open>rm_step\<close> the server treats one client at a time and the monitor one VM at a
  time, in every order; the world may change between steps.  Within a step the other thread does not
  run, and the signal handler runs between steps.  The walks of the two threads over core sets
  share the position of \<open>strtok\<close>; a clash of theirs, C11, is shown apart, in \<open>CoreWalk\<close>.  The one place where the sources themselves speak of
  the other thread is the wait in \<open>vm_mngr_instance_stop\<close>; there \<open>fine_step\<close> is finer.  Its second half
  follows its first at any time, as in the code, which only sleeps.  Everything said of \<open>rm_step\<close> holds of
  \<open>fine_step\<close>, too, where a VM counts as running until its stop is finished (\<open>view\<close>), unless a run passes through
  a late close, which is a second half that closes the VM the monitor is at (C9); such runs exist, and then the monitor
  goes through freed arrays (C10).  Every run of \<open>rm_step\<close> is one of \<open>fine_step\<close> (\<open>coarse_steps\<close>).

  \<^bold>\<open>What is assumed of the outside.\<close>  \<open>env_ok\<close>: memory, counters and JSON objects are to be had.
  \<open>perf_reads_ok\<close> and its companions: an open counter can be read and closed.  \<open>answers_short\<close>: the answer of
  QEMU leaves room in its buffer.  \<open>agent_ends\<close>, for \<open>get-mem-info\<close> only: the agent of the VM that is asked for puts
  a NUL into its answer, which no documentation promises; what happens without is C31 for the monitor.
  \<open>delivers\<close>: the client's kernel carries a message over whole.  \<open>qemu_contract\<close>: what QEMU's manual says of the four
  commands.  Each is met by a concrete kernel: \<open>ex_env\<close>, \<open>ex_reads\<close>, \<open>ex_closes\<close>, \<open>ex_short\<close>, \<open>ex_info_request\<close> and
  \<open>ex_qemu_contract\<close> of \<open>Examples\<close>, and \<open>delivers\<close> in the witness of C7.

  \<^bold>\<open>Not modelled.\<close>  Interleavings inside a handler of the monitor or inside any
  request but a stop, and the memory model; how long a call blocks: every call to the
  kernel returns, also \<open>pthread_join\<close>, which waits for the round of the monitor to end; messages that a socket delivers in parts; the log messages and debug output of the
  components other than \<open>util_log.c\<close>; \<open>strdup\<close> failures; freeing of memory that is not looked at
  again; the sign of a floating-point zero or NaN; the tests and the vendored headers.
\<close>

section \<open>The process as a whole\<close>

text \<open>C1: Once \<open>main\<close> has reached the server loop with devices that fit the segment table, whatever
  clients send, however the monitor's work on the VMs is interleaved with their requests and
  whatever the kernel answers, the process is consistent: VM table, guest agents and pool agree, and
  every allocated segment belongs to exactly one device attached to exactly one VM.\<close>

theorem reachable_invariant:
  assumes "main_init os z pcm lib arch_amd w = Inr (True, p)" "pool_fits (rm_pool (pr_state p))"
    "rm_steps os js lib (shared p) (args, s)"
  shows "rm_inv s"
proof -
  from main_init_correct [OF assms(1,2)] have "rm_inv (snd (shared p))"
    by (simp add: process_inv_def shared_def)
  from rm_steps_sim [OF assms(3) this] show ?thesis by simp
qed

theorem reachable_invariant_witness: "rm_inv ex_state1"
  by (rule reachable_invariant [OF ex_boot ex_fits ex_steps1])

text \<open>C2: The process refines the state machine \<open>spec_step\<close>: seen through \<open>vm_spec_of\<close>, every run from
  the start-up is a run of the machine from no VMs, and so at all times at most 16 VMs exist, only
  existing ones run or hold memory, and no two grants overlap.\<close>

theorem process_refines_spec:
  assumes "main_init os z pcm lib arch_amd w = Inr (True, p)" "pool_fits (rm_pool (pr_state p))"
    "rm_steps os js lib (shared p) (args, s)"
  shows "(spec_step (req_valid (rm_pool s)))\<^sup>*\<^sup>* spec_start (vm_spec_of s) \<and>
         spec_safe (req_valid (rm_pool s)) (vm_spec_of s)"
proof -
  from main_init_correct [OF assms(1,2)] have inv: "rm_inv (pr_state p)"
    and empty: "mngr_count (rm_vms (pr_state p)) = 0" by (simp_all add: process_inv_def)
  from rm_steps_sim [OF assms(3)] inv spec_of_empty [OF inv empty]
  have "(spec_step (req_valid (rm_pool s)))\<^sup>*\<^sup>* spec_start (vm_spec_of s)"
    by (simp add: shared_def)
  then show ?thesis using spec_runs_safe by blast
qed

theorem process_refines_spec_witness:
  "(spec_step (req_valid (rm_pool ex_state1)))\<^sup>*\<^sup>* spec_start (vm_spec_of ex_state1)"
  using process_refines_spec [OF ex_boot ex_fits ex_steps1] by blast

text \<open>C3: The server means what it answers.  Whenever it answers a request, the answer and the change
  of the abstract state are those \<open>answered\<close> allows: it reports a success exactly when the VM was created,
  destroyed, runs, is stopped or has its memory released, the grant it prints is the one it
  recorded, apart from all others, and a failure left everything as it was.\<close>

theorem server_meets_spec:
  assumes "rm_inv s" "request_ok r" "serve os js (print_request r) old s = Inr (t, args, s')"
  shows "answered r (vm_spec_of s) t (vm_spec_of s') \<and> rm_inv s' \<and> args = request_args r old"
proof -
  have "perform os js r s = Inr (t, s') \<and> args = request_args r old"
    using assms(3) unfolding serve_request [OF assms(2)] by (auto simp: bindE_eq_Inr)
  with perform_answered [OF assms(1,2), of os js] serve_inv [OF assms(1), of os js "print_request r" old] assms(3) show ?thesis
    by (auto simp: sim_def dest!: ensuresD)
qed

theorem server_meets_spec_witness: "answered (CreateVm 1 ''0-1'') (vm_spec_of ex_state)
  ''Create VM 1 success, coreset: [0-1]'' (vm_spec_of ex_state1)"
  using server_meets_spec [OF ex_state_inv ex_create_request(1), of ex_os ex_js None] ex_serve
  unfolding ex_create_request(2) by blast

text \<open>C4: The server as its clients see it over time.  From the start-up on, whatever requests of the
  protocol are made, with the monitor at work in between and the world changing as it likes, the
  transcript of requests and answers is a conversation of the specification: each answer is one that
  \<open>answered\<close> allows in the abstract state the requests before it led to.\<close>

theorem session_meets_spec:
  assumes "main_init os z pcm lib arch_amd w = Inr (True, p)" "pool_fits (rm_pool (pr_state p))"
    "session os js lib (shared p) tr st"
  shows "conversation tr spec_start (vm_spec_of (snd st)) \<and> rm_inv (snd st)"
proof -
  from main_init_correct [OF assms(1,2)] have inv: "rm_inv (pr_state p)"
    and empty: "mngr_count (rm_vms (pr_state p)) = 0" by (simp_all add: process_inv_def)
  with session_conversation [OF assms(3)] spec_of_empty [OF inv empty] show ?thesis by (simp add: shared_def)
qed

theorem session_meets_spec_witness:
  "conversation [(CreateVm 1 ''0-1'', ''Create VM 1 success, coreset: [0-1]'')] spec_start (vm_spec_of ex_state1)"
proof -
  have "shared ex_process = (None, ex_state)" by (simp add: shared_def ex_process_def)
  then have "session ex_os ex_js ex_lib (shared ex_process)
      ([] @ [(CreateVm 1 ''0-1'', ''Create VM 1 success, coreset: [0-1]'')]) (Some ''vid=1 coreset=[0-1]'', ex_state1)"
    using session.Answer [OF session.Begin ex_create_request(1)] ex_serve unfolding ex_create_request(2) by fastforce
  from session_meets_spec [OF ex_boot ex_fits this] show ?thesis by (simp del: conversation.simps)
qed

text \<open>C5: The command line protocol is transparent.  A request written as words on the client's command
  line is sent by the client in one message, and serving that message is the same as doing what
  \<open>perform\<close> describes for it with no text in between: of the thirteen commands, no argument is lost,
  cut, reordered or mixed up with one of an earlier request on the way through client, scanner,
  dispatch table and the handler's \<open>sscanf\<close>.\<close>

theorem request_served:
  assumes "request_ok r"
  shows "client_command (fst (request_words r)) (snd (request_words r)) = Inr (print_request r) \<and>
         request_text (Some (print_request r)) = Inr (print_request r) \<and>
         serve os js (print_request r) old s =
           bindE (perform os js r s) (\<lambda>(t, s). Inr (t, request_args r old, s))"
proof -
  note p = print_request_sent [OF assms]
  have "length (spaced (fst (request_words r) # snd (request_words r))) < 1024"
    using p(3) by (simp add: print_request_def)
  from client_scanned [OF p(1) this p(2)] have "request_text (Some (print_request r)) = Inr (print_request r)"
    by blast
  with p(1) serve_request [OF assms] show ?thesis by blast
qed

theorem request_served_witness:
  "perform ex_os ex_js (CreateVm 1 ''0-1'') ex_state = Inr (''Create VM 1 success, coreset: [0-1]'', ex_state1)"
proof -
  let ?r = "CreateVm 1 ''0-1''"
  have "bindE (perform ex_os ex_js ?r ex_state) (\<lambda>(t, s). Inr (t, request_args ?r None, s)) =
      Inr (''Create VM 1 success, coreset: [0-1]'', Some ''vid=1 coreset=[0-1]'', ex_state1)"
    using request_served [OF ex_create_request(1), of ex_os ex_js None ex_state] ex_serve
    unfolding ex_create_request(2) by metis
  then show ?thesis by (auto simp: bindE_eq_Inr simp del: perform.simps)
qed

text \<open>C6: The server answers every well-formed request, whatever the requests before it: when memory and
  counters are to be had, QEMU's answers fit their buffer and, for \<open>get-mem-info\<close>, the agent of that VM ends its
  answers with a NUL, serving it ends without a fault, in a consistent state, with an answer the client
  can hold.\<close>

theorem server_answers:
  assumes "rm_inv s" "env_ok os js" "request_ok r" "servable os r s"
  shows "\<exists>t s'. serve os js (print_request r) old s = Inr (t, request_args r old, s') \<and> rm_inv s' \<and> length t < 1024"
proof -
  from perform_total [OF assms] obtain t s' where "perform os js r s = Inr (t, s')" by blast
  then have run: "serve os js (print_request r) old s = Inr (t, request_args r old, s')"
    by (simp add: serve_request [OF assms(3)])
  with serve_inv [OF assms(1), of os js "print_request r" old] serve_fits [OF run] show ?thesis by (auto simp: sim_def dest!: ensuresD)
qed

theorem server_answers_witness:
  "(\<exists>t s'. serve ex_os ex_js ''start-vm vid=1'' None ex_state1 = Inr (t, Some ''vid=1'', s') \<and> rm_inv s') \<and>
   (\<exists>t a s'. serve ex_ending ex_js (print_request (GetMemInfo 1)) None ex_running = Inr (t, a, s') \<and> length t < 1024)"
proof
  show "\<exists>t s'. serve ex_os ex_js ''start-vm vid=1'' None ex_state1 = Inr (t, Some ''vid=1'', s') \<and> rm_inv s'"
    using server_answers [OF ex_state1_inv ex_env ex_start_request(1,2), of None]
    unfolding ex_start_request(3,4) by blast
  show "\<exists>t a s'. serve ex_ending ex_js (print_request (GetMemInfo 1)) None ex_running = Inr (t, a, s') \<and> length t < 1024"
    using server_answers [OF ex_running_inv ex_ending_env ex_info_request, of None] by blast
qed

text \<open>C7: From the command line and back.  When a user runs the client with the words of a request, and
  the server is in any consistent state in which it can serve it, the server answers as specified,
  and the client, if the kernel carries both messages over whole, prints that answer and exits with
  status 0.\<close>

theorem user_gets_answer:
  assumes "rm_inv s" "env_ok os js" "request_ok r" "servable os r s"
  shows "\<exists>t s'. serve os js (print_request r) old s = Inr (t, request_args r old, s') \<and>
           answered r (vm_spec_of s) t (vm_spec_of s') \<and>
           (delivers cli (print_request r) t w \<longrightarrow>
             (\<exists>fd w1. client_main cli cli_js (prog # fst (request_words r) # snd (request_words r)) w =
                Inr (0, snd (os_close cli fd (print_results cli cli_js (c_str t) w1)))))"
proof -
  from perform_total [OF assms] obtain t s' where run: "perform os js r s = Inr (t, s')" by blast
  then have sv: "serve os js (print_request r) old s = Inr (t, request_args r old, s')"
    by (simp add: serve_request [OF assms(3)])
  from serve_fits [OF sv] have "request_text (Some t) = Inr (c_str t)" by (simp add: request_text_def BUFFER_SIZE_def)
  with client_run [OF print_request_sent(1) [OF assms(3)], of cli t w "c_str t" cli_js prog]
    perform_answered [OF assms(1,3) run] sv show ?thesis by blast
qed

theorem user_gets_answer_witness:
  "\<exists>t s'. serve ex_os ex_js ''start-vm vid=1'' None ex_state1 = Inr (t, Some ''vid=1'', s') \<and>
     client_main (ex_os\<lparr>os_recv := (\<lambda>fd n w. (Some t, w))\<rparr>) ex_js [''client'', ''start-vm'', ''vid=1''] () = Inr (0, ())"
proof -
  note req = user_gets_answer [OF ex_state1_inv ex_env ex_start_request(1,2), where old = None and w = "()"
      and cli_js = ex_js and prog = "''client''", unfolded ex_start_request(3-6)]
  obtain t s' where t: "serve ex_os ex_js ''start-vm vid=1'' None ex_state1 = Inr (t, Some ''vid=1'', s')"
    using req [of ex_os] by blast
  let ?cli = "ex_os\<lparr>os_recv := (\<lambda>fd n w. (Some t, w))\<rparr>"
  have "delivers ?cli ''start-vm vid=1'' t ()"
    using serve_fits [OF t] by (simp add: delivers_def ex_os_def sys_recv_def BUFFER_SIZE_def)
  with req [of ?cli] t show ?thesis by auto
qed

text \<open>C8: Any number of turns of the event loop and any number of rounds of the monitor are sequences
  of the atomic steps on which the invariant and the refinement rest.\<close>

theorem threads_run_in_steps:
  assumes "rpc_server_turns os js n p = Inr p'" "monitor_rounds os js pcm lib m (gm, s) = Inr (gm', s')"
  shows "rm_steps os js lib (shared p) (shared p') \<and> rm_steps os js lib (args, s) (args, s')"
  using server_turns_steps [OF assms(1)] monitor_rounds_steps [OF assms(2)] by blast

theorem threads_run_in_steps_witness:
  "\<exists>s'. rm_steps ex_os ex_js ex_lib (shared ex_process) (Some ''vid=1 coreset=[0-1]'', ex_state1) \<and>
     rm_steps ex_os ex_js ex_lib (None, ex_running) (None, s')"
proof -
  have gm: "monitor_interval_in_second initial_monitor \<noteq> 0" "\<not> enable_cloud_db initial_monitor"
    by (simp_all add: initial_monitor_def)
  have js: "json_object_new_object ex_js \<noteq> None" by (simp add: ex_js_def)
  obtain g s' where "monitor_rounds ex_os ex_js ex_pcm ex_lib 3 (initial_monitor, ex_running) = Inr (g, s')"
    using monitor_rounds_total [where pcm = ex_pcm and lib = ex_lib and n = 3, OF ex_round_ready ex_reads js gm]
    by blast
  from threads_run_in_steps [OF ex_turn this] show ?thesis by (auto simp: shared_def)
qed

text \<open>C9: The late close is the only race between a stop and the monitor.  Take any interleaving of the finer
  steps of the two threads, with nothing in the way of the second half of a stop, as in the code.  Then
  either the process still refines the specification, the monitor can read all counters of the VM it
  is at, and a stop that is under way can end well; or the run has passed through a step in which
  \<open>vm_mngr_instance_stop\<close>, after its millisecond, closed the VM the monitor was at, and up to that
  step everything was consistent.\<close>

theorem late_close_only_race:
  assumes "rm_inv s0" "fine_steps os js lib (Serving, Between, s0) (p, m, s)" "perf_reads_ok os" "perf_closes_ok os"
  shows "(rm_inv (view p s) \<and>
          (spec_step (req_valid (rm_pool s)))\<^sup>*\<^sup>* (vm_spec_of s0) (vm_spec_of (view p s)) \<and>
          (\<forall>k. m = Acting k \<longrightarrow> (\<exists>V w. vm_perf_update os (vm_at s k, rm_world s) = Inr (V, w))) \<and>
          (\<exists>m' s'. fine_steps os js lib (p, m, s) (Serving, m', s') \<and> rm_inv s'))
       \<or> (\<exists>k s1 r s2. fine_steps os js lib (Serving, Between, s0) (Stopping k, Acting k, s1) \<and>
            rm_inv (view (Stopping k) s1) \<and>
            (spec_step (req_valid (rm_pool s1)))\<^sup>*\<^sup>* (vm_spec_of s0) (vm_spec_of (view (Stopping k) s1)) \<and>
            stop_close os k s1 = Inr (r, s2) \<and> fine_steps os js lib (Serving, Acting k, s2) (p, m, s))"
  using fine_steps_unless [OF assms(2,1)]
proof (elim disjE exE conjE)
  assume "spec_run s0 (p, m, s)"
  then have inv: "fine_inv (p, m, s)" and spec: "req_valid (rm_pool s) = req_valid (rm_pool s0)"
    "(spec_step (req_valid (rm_pool s0)))\<^sup>*\<^sup>* (vm_spec_of s0) (vm_spec_of (view p s))" by simp_all
  have "\<exists>V w. vm_perf_update os (vm_at s k, rm_world s) = Inr (V, w)" if "m = Acting k" for k
    using acting_reads [OF inv [unfolded that] assms(3)] .
  with stop_finishes [OF inv assms(3,4)] inv spec show ?thesis by (intro disjI1) auto
next
  fix b b'
  assume "fine_steps os js lib (Serving, Between, s0) b" "spec_run s0 b" "late_close os b b'"
    "fine_steps os js lib b' (p, m, s)"
  then obtain k s1 r s2 where b: "b = (Stopping k, Acting k, s1)" "b' = (Serving, Acting k, s2)"
    "stop_close os k s1 = Inr (r, s2)" unfolding late_close_def by blast
  from \<open>spec_run s0 b\<close> have "rm_inv (view (Stopping k) s1)"
    "(spec_step (req_valid (rm_pool s1)))\<^sup>*\<^sup>* (vm_spec_of s0) (vm_spec_of (view (Stopping k) s1))"
    by (simp_all add: b(1))
  with \<open>fine_steps os js lib (Serving, Between, s0) b\<close> \<open>fine_steps os js lib b' (p, m, s)\<close> b(3) show ?thesis
    unfolding b(1,2) by blast
qed

theorem late_close_only_race_witness:
  "(\<exists>V w. vm_perf_update ex_os (vm_at (stop_flag ex_os 0 ex_running) 0, ()) = Inr (V, w)) \<or>
   (\<exists>k s1 r s2. fine_steps ex_os ex_js ex_lib (Serving, Between, ex_running) (Stopping k, Acting k, s1) \<and>
      stop_close ex_os k s1 = Inr (r, s2))"
proof -
  have "fine_steps ex_os ex_js ex_lib (Serving, Between, ex_running) (Serving, Acting 0, ex_running)"
    using ex_running_table(1) by (intro r_into_rtranclp fine_step.Look) (simp_all add: MAX_NUM_VM_def)
  also have "fine_steps ex_os ex_js ex_lib \<dots> (Stopping 0, Acting 0, stop_flag ex_os 0 ex_running)"
    using ex_running_table by (intro r_into_rtranclp fine_step.StopFlag)
  finally have run: "fine_steps ex_os ex_js ex_lib (Serving, Between, ex_running)
    (Stopping 0, Acting 0, stop_flag ex_os 0 ex_running)" .
  from late_close_only_race [OF ex_running_inv run ex_reads ex_closes] show ?thesis by (elim disjE) auto
qed

text \<open>C10: The late close happens.  The wait in \<open>vm_mngr_instance_stop\<close> only sleeps: for every VM that runs
  there is an interleaving in which the monitor sees it running, the stop runs through, and the
  monitor then goes through the arrays of descriptors that the stop has freed.\<close>

theorem stop_races_monitor:
  assumes "rm_inv s" "vm_mngr_get_instance v (rm_vms s) = Some k" "VM_running (vm_at s k)"
    "0 < VM_num_cores (vm_at s k)" "vm_mngr_instance_stop os v s = Inr (r, s')"
  shows "fine_steps os js lib (Serving, Between, s) (Serving, Acting k, s') \<and>
         vm_perf_update os (vm_at s' k, w) = Inl BadPointer"
  using late_monitor [OF assms] by blast

theorem stop_races_monitor_witness:
  "\<exists>s'. fine_steps ex_os ex_js ex_lib (Serving, Between, ex_running) (Serving, Acting 0, s') \<and>
     vm_perf_update ex_os (vm_at s' 0, ()) = Inl BadPointer"
proof -
  obtain r s' where run: "vm_mngr_instance_stop ex_os 1 ex_running = Inr (r, s')"
    using stop_total [OF ex_running_inv ex_reads ex_closes] by blast
  have "0 < VM_num_cores (vm_at ex_running 0)" by (simp add: ex_running_table)
  from stop_races_monitor [OF ex_running_inv ex_running_table(4,1) this run] show ?thesis by blast
qed

text \<open>C11: The walk over a core set is right alone and wrong in company.  Undisturbed, the calls of \<open>strtok\<close> visit
  the cores that \<open>vm_mngr_for_each_core\<close> says, and the copy of the core set is freed.  But the position of
  \<open>strtok\<close> is static: when such a walk of one thread, as the monitor's for the bandwidth, runs through while a walk of the
  other, as the server's for \<open>create-vm\<close> or \<open>start-vm\<close>, is at any of its tokens, the next \<open>strtok\<close> of the latter
  reads from the freed copy of the former.\<close>

theorem core_walks_clash:
  assumes "copy \<notin> tok_live st"
  shows "each_core_strtok copy core_set h s st =
           bindE (vm_mngr_for_each_core core_set h s) (\<lambda>s. Inr (s, st\<lparr>tok_save := Some (copy, [])\<rparr>)) \<and>
         (\<forall>s' st' u'. each_core_strtok copy core_set h s st = Inr (s', st') \<longrightarrow> visit_token g t u = Inr u' \<longrightarrow>
            walk_rest g (Some t) u st' = Inl BadPointer)"
  by (intro conjI allI impI) (rule each_core_alone [OF assms], rule walk_disturbed [OF assms])

theorem core_walks_clash_witness:
  "\<exists>st'. each_core_strtok 2 ''0-1'' vm_num_core_update 0 \<lparr>tok_save = Some (1, ''2-3''), tok_live = {1}\<rparr> = Inr (2, st') \<and>
     walk_rest vm_num_core_update (Some ''0'') 0 st' = Inl BadPointer"
proof -
  let ?st = "\<lparr>tok_save = Some (1, ''2-3''), tok_live = {1}\<rparr>"
  have fresh: "2 \<notin> tok_live ?st" by simp
  have count: "vm_mngr_for_each_core ''0-1'' vm_num_core_update 0 = Inr 2"
    unfolding for_each_core_ids [OF ex_cores]
    by (simp add: vm_num_core_update_def c_add_def in_int_def INT_MIN_def INT_MAX_def)
  have visit: "visit_token vm_num_core_update ''0'' 0 = Inr 1" by code_simp
  from core_walks_clash [OF fresh, of "''0-1''" vm_num_core_update 0 vm_num_core_update "''0''" 0] count visit
  show ?thesis by auto
qed

text \<open>C12: Memory isolation.  In a consistent state the memory granted to any two attached devices,
  of one VM or of two, does not overlap, and every grant lies inside its DAX device.\<close>

theorem grants_isolated:
  assumes "rm_inv s" "vm_mngr_instance_get_mem v i (rm_vms s) = Some q"
  shows "grant_inside (rm_pool s) q \<and>
         (\<forall>w j r. vm_mngr_instance_get_mem w j (rm_vms s) = Some r \<longrightarrow> (v, i) \<noteq> (w, j) \<longrightarrow>
            req_node_id q \<noteq> req_node_id r \<or>
            req_offset_mb q + req_size_mb q \<le> req_offset_mb r \<or>
            req_offset_mb r + req_size_mb r \<le> req_offset_mb q)"
  using rm_inv_grants [OF assms] unfolding grants_apart_def by blast

theorem grants_isolated_witness:
  "grant_inside (rm_pool ex_state2) ex_grant"
  using grants_isolated [OF ex_state2_inv ex_state2_grant] by blast

text \<open>C13: Memory isolation as the clients see it.  Of any two answers that granted memory on a node, to one VM
  or to two, the ranges told do not overlap, unless the memory of the first was given back between
  them, by a \<open>free-mem\<close> of its id or a \<open>destroy-vm\<close> of its VM that was answered with success.\<close>

theorem answers_stay_apart:
  assumes "main_init os z pcm lib arch_amd w = Inr (True, p)" "pool_fits (rm_pool (pr_state p))"
    "session os js lib (shared p)
       (xs @ (AllocMem n v z1, grant_text i q) # ys @ (AllocMem n u z2, grant_text j r) # zs) st"
    "\<forall>e \<in> set ys. \<not> gives_back v i e"
  shows "req_offset_mb q + z1 \<le> req_offset_mb r \<or> req_offset_mb r + z2 \<le> req_offset_mb q"
proof -
  from main_init_correct [OF assms(1,2)] have "rm_inv (pr_state p)" by (simp add: process_inv_def)
  with session_conversation [OF assms(3)] conversation_apart [OF _ assms(4)] show ?thesis
    by (simp add: shared_def) blast
qed

theorem answers_stay_apart_witness:
  "\<exists>i q j r st. session ex_os ex_js ex_lib (shared ex_process)
     ([(CreateVm 1 ''0-1'', ''Create VM 1 success, coreset: [0-1]'')] @
      (AllocMem 0 1 256, grant_text i q) # [] @ (AllocMem 0 1 256, grant_text j r) # []) st \<and>
     (req_offset_mb q + 256 \<le> req_offset_mb r \<or> req_offset_mb r + 256 \<le> req_offset_mb q)"
proof -
  obtain i q j r st where run: "session ex_os ex_js ex_lib (shared ex_process)
     ([(CreateVm 1 ''0-1'', ''Create VM 1 success, coreset: [0-1]'')] @
      (AllocMem 0 1 256, grant_text i q) # [] @ (AllocMem 0 1 256, grant_text j r) # []) st"
    using ex_session by blast
  from answers_stay_apart [OF ex_boot ex_fits run]
  have "req_offset_mb q + 256 \<le> req_offset_mb r \<or> req_offset_mb r + 256 \<le> req_offset_mb q" by simp
  with run show ?thesis by blast
qed

text \<open>C14: The books balance.  \<open>get-mem-pool\<close> is answered with the table in which every device's used segments are what
  the VM manager's grants on it add up to: the pool's counters, which are only ever incremented and
  decremented, agree with the grants handed out, megabyte for megabyte, and a device without
  grants is free from its first segment to its last.\<close>

theorem pool_table_accounts:
  assumes "rm_inv s" "serve os js (print_request GetMemPool) old s = Inr (t, args, s')"
  shows "t = take 1023 (usage_table (recounted s)) \<and>
         (\<forall>k < length (g_mem_devs (rm_pool s)).
            let d = g_mem_devs (rm_pool s) ! k in
            dax_used_segments d * g_segment_size_mb (rm_pool s) = granted_on s (int k) \<and>
            (granted_on s (int k) = 0 \<longrightarrow> fits_at (rm_pool s) (int k) (dax_total_segments d) 0))"
  using pool_table_served [OF assms] used_is_granted [OF assms(1)] idle_fits [OF assms(1)] by (simp add: Let_def)

theorem pool_table_accounts_witness:
  "dax_used_segments (g_mem_devs (rm_pool ex_state2) ! 0) * g_segment_size_mb (rm_pool ex_state2) = granted_on ex_state2 0"
proof -
  have "0 < length (g_mem_devs (rm_pool ex_state2))" by code_simp
  with pool_table_accounts [OF ex_state2_inv ex_pool_request] show ?thesis by (auto simp: Let_def)
qed

text \<open>C15: \<open>vm_mngr_instance_alloc_mem\<close> never faults for a size of 1 to \<open>INT_MAX\<close> MB as long as the
  VM's index counter has room.  Either nothing but the world changes, or the VM gets one device
  under an index it never had, holding what the pool granted, and the answer describes it.\<close>

theorem vm_alloc_mem:
  assumes "rm_inv s" "0 < size_mb" "size_mb \<le> INT_MAX"
    and "\<And>k. vm_mngr_get_instance v (rm_vms s) = Some k \<Longrightarrow> VM_memdev_counter (vm_at s k) < INT_MAX"
  shows "\<exists>r s'. vm_mngr_instance_alloc_mem os node v size_mb s = Inr (r, s') \<and> rm_inv s' \<and>
           (case r of
              None \<Rightarrow> s' = s\<lparr>rm_world := rm_world s'\<rparr>
            | Some a \<Rightarrow>
                vm_mngr_instance_get_mem v (vmr_memdev_idx a) (rm_vms s) = None \<and>
                (\<exists>q. memory_pool_allocate_segments node v size_mb (rm_pool s) = Inr (Some q, rm_pool s') \<and>
                     (\<forall>w i. vm_mngr_instance_get_mem w i (rm_vms s') =
                        (if w = v \<and> i = vmr_memdev_idx a then Some q
                         else vm_mngr_instance_get_mem w i (rm_vms s))) \<and>
                     vmr_dev_path a = take 63 (req_dev_path q) \<and> vmr_offset_mb a = req_offset_mb q \<and>
                     vmr_size_mb a = req_size_mb q \<and> vmr_align_mb a = req_align_mb q))"
proof -
  from alloc_mem_correct [OF assms(1-3), of v os node] assms(4) obtain r s' where
    r: "vm_mngr_instance_alloc_mem os node v size_mb s = Inr (r, s')" "rm_inv s'"
      "case r of None \<Rightarrow> s' = s\<lparr>rm_world := rm_world s'\<rparr>
       | Some a \<Rightarrow> 0 \<le> vmr_memdev_idx a \<and> vmr_memdev_idx a < INT_MAX \<and>
           vm_ledger (rm_vms s) (v, vmr_memdev_idx a) = None \<and>
           (\<exists>q. memory_pool_allocate_segments node v size_mb (rm_pool s) = Inr (Some q, rm_pool s') \<and>
                vm_ledger (rm_vms s') = (vm_ledger (rm_vms s))((v, vmr_memdev_idx a) \<mapsto> q) \<and>
                vmr_dev_path a = take 63 (req_dev_path q) \<and> vmr_offset_mb a = req_offset_mb q \<and>
                vmr_size_mb a = req_size_mb q \<and> vmr_align_mb a = req_align_mb q)" by blast
  then show ?thesis
    by (intro exI [of _ r] exI [of _ s']) (cases r, auto simp: vm_ledger_def fun_eq_iff)
qed

theorem vm_alloc_mem_witness:
  "\<exists>r s'. vm_mngr_instance_alloc_mem ex_os 0 1 256 ex_state1 = Inr (r, s') \<and> rm_inv s'"
proof -
  have "0 < (256::int)" "(256::int) \<le> INT_MAX" by (simp_all add: INT_MAX_def)
  from vm_alloc_mem [where os = ex_os and node = 0, OF ex_state1_inv this ex_rooms] show ?thesis by blast
qed

text \<open>C16: \<open>alloc-mem\<close> fails only for a reason.  When the environment has memory for it, the answer is a grant of
  the size asked for, at the lowest place of the node where it fits, and on record for the VM; and \<open>Allocate failed\<close>
  is answered only if the VM does not exist, the size is not a multiple of the segment size, or the
  node has no free run of that length.\<close>

theorem alloc_answer_complete:
  assumes "rm_inv s" "env_ok os js" "request_ok (AllocMem n v z)" "servable os (AllocMem n v z) s"
  shows "\<exists>t s'. serve os js (print_request (AllocMem n v z)) old s = Inr (t, request_args (AllocMem n v z) old, s') \<and>
    (let seg = g_segment_size_mb (rm_pool s); fits = fits_at (rm_pool s) n (z div seg) in
     if v \<in> sp_vms (vm_spec_of s) \<and> seg dvd z \<and> (\<exists>k. fits k) then
       \<exists>i q k. t = grant_text i q \<and> sp_grants (vm_spec_of s') (v, i) = Some q \<and>
         req_node_id q = n \<and> req_size_mb q = z \<and> req_offset_mb q = k * seg \<and> fits k \<and> (\<forall>j < k. \<not> fits j)
     else t = ''Allocate failed'')"
  using alloc_served [OF assms, of old] by (simp only: Let_def)

theorem alloc_answer_complete_witness:
  "\<exists>i q args s'. serve ex_os ex_js (print_request (AllocMem 0 1 256)) None ex_state1 = Inr (grant_text i q, args, s')"
proof -
  have "\<exists>k. fits_at (rm_pool ex_state1) 0 (256 div g_segment_size_mb (rm_pool ex_state1)) k"
    using ex_alloc_request(4) by blast
  with alloc_answer_complete [OF ex_state1_inv ex_env ex_alloc_request(1,2), of None] ex_alloc_request(3,5)
  show ?thesis unfolding Let_def by (auto simp del: vm_spec_of_simps)
qed

text \<open>C17: \<open>vm_mngr_instance_free_mem\<close> succeeds for every attached device and fails, changing
  nothing, for any other index.  On success the device is gone, exactly its segments are free
  again, and no other device is touched.\<close>

theorem vm_free_mem:
  assumes "rm_inv s"
  shows "case vm_mngr_instance_get_mem v i (rm_vms s) of
           None \<Rightarrow> vm_mngr_instance_free_mem v i s = Inr (-1, s)
         | Some q \<Rightarrow>
             \<exists>s'. vm_mngr_instance_free_mem v i s = Inr (0, s') \<and> rm_inv s' \<and>
               (\<forall>w j. vm_mngr_instance_get_mem w j (rm_vms s') =
                  (if w = v \<and> j = i then None else vm_mngr_instance_get_mem w j (rm_vms s))) \<and>
               (\<forall>x. pool_owner (rm_pool s') x =
                  (if x \<in> req_span (rm_pool s) q then None else pool_owner (rm_pool s) x))"
proof (cases "vm_mngr_instance_get_mem v i (rm_vms s)")
  case None
  with free_mem_correct [OF assms, of v i] show ?thesis by simp
next
  case (Some q)
  with free_mem_correct [OF assms, of v i] obtain s' where
    "rm_inv s'" "vm_mngr_instance_free_mem v i s = Inr (0, s')"
    "vm_ledger (rm_vms s') = (vm_ledger (rm_vms s))((v, i) := None)"
    "pool_owner (rm_pool s') =
       (\<lambda>x. if x \<in> req_span (rm_pool s) q then None else pool_owner (rm_pool s) x)" by auto
  with Some show ?thesis by (auto simp: vm_ledger_def fun_eq_iff intro!: exI [of _ s'])
qed

theorem vm_free_mem_witness:
  "\<exists>s'. vm_mngr_instance_free_mem 1 0 ex_state2 = Inr (0, s') \<and> rm_inv s'"
  using vm_free_mem [OF ex_state2_inv, of 1 0] by (auto simp: ex_state2_grant)

text \<open>C18: \<open>vm_mngr_instance_destroy\<close> never faults.  It succeeds exactly for a VM that exists and
  does not run; then the VM, its devices and all its segments are gone and every other VM
  keeps its own.\<close>

theorem vm_destroy_correct:
  assumes "rm_inv s"
  shows "\<exists>r s'. vm_mngr_instance_destroy v s = Inr (r, s') \<and> rm_inv s' \<and>
           (if vm_mngr_check_exit v (rm_vms s) \<and> \<not> vm_running (rm_vms s) v
            then r = 0 \<and> mngr_count (rm_vms s') = mngr_count (rm_vms s) - 1 \<and>
              (\<forall>w. vm_mngr_check_exit w (rm_vms s') = (w \<noteq> v \<and> vm_mngr_check_exit w (rm_vms s))) \<and>
              (\<forall>w i. vm_mngr_instance_get_mem w i (rm_vms s') =
                 (if w = v then None else vm_mngr_instance_get_mem w i (rm_vms s))) \<and>
              (\<forall>x. pool_owner (rm_pool s') x =
                 (if pool_owner (rm_pool s) x = Some v then None else pool_owner (rm_pool s) x))
            else r = -1 \<and> s' = s)"
proof -
  from destroy_correct [OF assms, of v] obtain r s' where
    "vm_mngr_instance_destroy v s = Inr (r, s')" "rm_inv s'"
    "if vm_mngr_check_exit v (rm_vms s) \<and> \<not> vm_running (rm_vms s) v
     then r = 0 \<and> mngr_count (rm_vms s') = mngr_count (rm_vms s) - 1 \<and>
       (\<forall>w. vm_mngr_get_instance w (rm_vms s') =
              (if w = v then None else vm_mngr_get_instance w (rm_vms s))) \<and>
       vm_ledger (rm_vms s') = (\<lambda>k. if fst k = v then None else vm_ledger (rm_vms s) k) \<and>
       pool_owner (rm_pool s') =
         (\<lambda>x. if pool_owner (rm_pool s) x = Some v then None else pool_owner (rm_pool s) x)
     else r = -1 \<and> s' = s" by blast
  then show ?thesis
    by (intro exI [of _ r] exI [of _ s'])
      (auto simp: vm_ledger_def fun_eq_iff vm_mngr_check_exit_def split: if_splits)
qed

theorem vm_destroy_correct_witness:
  "\<exists>r s'. vm_mngr_instance_destroy 1 ex_state2 = Inr (r, s') \<and> rm_inv s'"
  using vm_destroy_correct [OF ex_state2_inv, of 1] by blast

text \<open>C19: A VM can always be got rid of.  In every consistent state the requests \<open>stop-vm\<close> and then
  \<open>destroy-vm\<close> for an existing VM are both answered with success, and afterwards the VM is gone, no
  segment is its own, and every other VM exists as before.\<close>

theorem vm_removable:
  assumes "rm_inv s" "perf_reads_ok os" "perf_closes_ok os" "\<And>n w. fst (os_malloc os n w)"
    "0 \<le> v" "v \<le> INT_MAX" "vm_mngr_check_exit v (rm_vms s)"
  shows "\<exists>a1 s1 a2 s2.
           serve os js (vm_request ''stop-vm'' v) a0 s = Inr (''Stop VM '' @ show_int v @ '' success'', a1, s1) \<and>
           serve os js (vm_request ''destroy-vm'' v) a1 s1 =
             Inr (''Destroy VM '' @ show_int v @ '' success'', a2, s2) \<and> rm_inv s2 \<and>
           (\<forall>u. vm_mngr_check_exit u (rm_vms s2) = (u \<noteq> v \<and> vm_mngr_check_exit u (rm_vms s))) \<and>
           (\<forall>x. pool_owner (rm_pool s2) x =
              (if pool_owner (rm_pool s) x = Some v then None else pool_owner (rm_pool s) x))"
proof -
  from stop_request [OF assms, of js a0] obtain a1 s1 where
    s1: "serve os js (vm_request ''stop-vm'' v) a0 s = Inr (''Stop VM '' @ show_int v @ '' success'', a1, s1)"
      "rm_inv s1" "rm_pool s1 = rm_pool s"
      "vm_spec_of s1 = (vm_spec_of s)\<lparr>sp_running := sp_running (vm_spec_of s) - {v}\<rparr>" by blast
  have ex: "vm_mngr_check_exit u (rm_vms s1) = vm_mngr_check_exit u (rm_vms s)" for u
    using arg_cong [OF s1(4), of sp_vms] by (simp add: set_eq_iff)
  have "\<not> vm_running (rm_vms s1) v" using arg_cong [OF s1(4), of sp_running] by (simp add: set_eq_iff)
  with destroy_request [OF s1(2) assms(4-6), of js a1] ex assms(7) s1(1,3) show ?thesis by auto
qed

theorem vm_removable_witness:
  "\<exists>a1 s1 a2 s2.
     serve ex_os ex_js (vm_request ''stop-vm'' 1) None ex_running = Inr (''Stop VM 1 success'', a1, s1) \<and>
     serve ex_os ex_js (vm_request ''destroy-vm'' 1) a1 s1 = Inr (''Destroy VM 1 success'', a2, s2)"
proof -
  have mal: "fst (os_malloc ex_os n w)" for n w by (simp add: ex_os_def)
  have v: "0 \<le> (1::int)" "(1::int) \<le> INT_MAX" by (simp_all add: INT_MAX_def)
  have "vm_mngr_check_exit 1 (rm_vms ex_running)" using ex_running_table(4) by (simp add: vm_mngr_check_exit_def)
  from vm_removable [where os = ex_os and js = ex_js and ?a0.0 = None, OF ex_running_inv ex_reads ex_closes mal v this]
  have "\<exists>a1 s1 a2 s2.
     serve ex_os ex_js (vm_request ''stop-vm'' 1) None ex_running =
       Inr (''Stop VM '' @ show_int 1 @ '' success'', a1, s1) \<and>
     serve ex_os ex_js (vm_request ''destroy-vm'' 1) a1 s1 =
       Inr (''Destroy VM '' @ show_int 1 @ '' success'', a2, s2)" by blast
  moreover have "show_int 1 = ''1''" by code_simp
  ultimately show ?thesis by simp
qed

text \<open>C20: The handler of SIGINT terminates without a fault, when the monitor was started, and leaves
  nothing behind: no VM, no connected agent, no allocated segment, no open log.\<close>

theorem shutdown_releases_all:
  assumes "process_inv p" "perf_reads_ok os" "perf_closes_ok os" "monitor_thread (pr_monitor p)"
  shows "\<exists>p'. handle_signal os z pcm lib p = Inr p' \<and> mngr_count (rm_vms (pr_state p')) = 0 \<and>
           (\<forall>v. \<not> vm_mngr_check_exit v (rm_vms (pr_state p'))) \<and>
           (\<forall>v. \<not> agent_up (rm_agents (pr_state p')) v) \<and>
           (\<forall>x. pool_owner (rm_pool (pr_state p')) x = None) \<and> \<not> g_log_cat (pr_log p')"
  by (rule handle_signal_correct [OF assms])

theorem shutdown_releases_all_witness:
  "\<exists>p'. handle_signal ex_os ex_zlog ex_pcm ex_lib (ex_process\<lparr>pr_state := ex_running\<rparr>) = Inr p' \<and>
     mngr_count (rm_vms (pr_state p')) = 0"
proof -
  have "process_inv (ex_process\<lparr>pr_state := ex_running\<rparr>)"
    using ex_running_inv by (simp add: process_inv_def log_wf_def ex_process_def)
  moreover have "monitor_thread (pr_monitor (ex_process\<lparr>pr_state := ex_running\<rparr>))"
    by (simp add: ex_process_def)
  ultimately show ?thesis using shutdown_releases_all [OF _ ex_reads ex_closes] by blast
qed

section \<open>The segment pool\<close>

text \<open>C21: \<open>memory_pool_allocate_segments\<close> is complete and first-fit.  It fails, changing nothing,
  only when the size is not a multiple of the segment size or no free run of that length exists
  on the node; otherwise it grants the lowest one.\<close>

theorem pool_allocate_first_fit:
  assumes "pool_wf p" "0 < size_mb" "size_mb \<le> INT_MAX"
  shows "\<exists>r p'. memory_pool_allocate_segments node v size_mb p = Inr (r, p') \<and>
           (let seg = g_segment_size_mb p; n = size_mb div seg in
            case r of
              None \<Rightarrow> p' = p \<and> (\<not> seg dvd size_mb \<or> (\<forall>k. \<not> fits_at p node n k))
            | Some q \<Rightarrow>
                seg dvd size_mb \<and>
                (\<exists>k. fits_at p node n k \<and> (\<forall>j. j < k \<longrightarrow> \<not> fits_at p node n j) \<and>
                     q = \<lparr>req_node_id = node,
                          req_dev_path = take 63 (dax_dev_path (g_mem_devs p ! nat node)),
                          req_offset_mb = k * seg, req_size_mb = size_mb, req_align_mb = seg\<rparr>))"
  by (rule allocate_first_fit [OF assms])

theorem pool_allocate_first_fit_witness:
  "\<exists>r p'. memory_pool_allocate_segments 0 7 256 ex_pool = Inr (r, p')"
proof -
  have "0 < (256::int)" "(256::int) \<le> INT_MAX" by (simp_all add: INT_MAX_def)
  from pool_allocate_first_fit [OF ex_pool_wf this, of 0 7] show ?thesis by blast
qed

text \<open>C22: A granted allocation is exclusive.  Its segments were all free, they now all belong to
  the VM, no other segment changes its owner, and the pool stays well-formed.\<close>

theorem pool_allocate_exclusive:
  assumes "pool_wf p" "0 < size_mb" "size_mb \<le> INT_MAX"
    "memory_pool_allocate_segments node v size_mb p = Inr (Some q, p')"
  shows "pool_wf p' \<and> req_span p q \<noteq> {} \<and>
         (\<forall>x \<in> req_span p q. pool_owner p x = None) \<and>
         (\<forall>x. pool_owner p' x = (if x \<in> req_span p q then Some v else pool_owner p x))"
proof -
  note facts = memory_pool_allocate_Some [OF assms]
  obtain a n where "req_span p q = Pair (req_node_id q) ` {a..<a + n}" "0 < n"
    using facts(1) req_span_shape [OF assms(1), of q] by metis
  then have "req_span p q \<noteq> {}" by auto
  with facts show ?thesis by blast
qed

theorem pool_allocate_exclusive_witness:
  "\<exists>p'. memory_pool_allocate_segments 0 7 256 ex_pool = Inr (Some ex_grant, p') \<and> pool_wf p' \<and>
     (\<forall>x. pool_owner p' x = (if x \<in> req_span ex_pool ex_grant then Some 7 else None))"
proof -
  have sz: "0 < (256::int)" "(256::int) \<le> INT_MAX" by (simp_all add: INT_MAX_def)
  obtain p where p: "memory_pool_allocate_segments 0 7 256 ex_pool = Inr (Some ex_grant, p)"
    using ex_allocate by blast
  from pool_allocate_exclusive [OF ex_pool_wf sz p] p show ?thesis by (auto simp: ex_pool_free)
qed

text \<open>C23: Releasing what was just granted always succeeds and gives back the ownership of
  before.\<close>

theorem pool_allocate_release_roundtrip:
  assumes "pool_wf p" "0 < size_mb" "size_mb \<le> INT_MAX"
    "memory_pool_allocate_segments node v size_mb p = Inr (Some q, p')"
  shows "\<exists>p''. memory_pool_release_segments (req_node_id q) v (req_offset_mb q) (req_size_mb q) p'
                 = Inr (0, p'') \<and> pool_wf p'' \<and> pool_owner p'' = pool_owner p"
proof -
  note facts = memory_pool_allocate_Some [OF assms]
  have p': "pool_wf p'" "req_valid p' q" "req_span p' q = req_span p q" using facts(1) by auto
  have "\<And>x. x \<in> req_span p' q \<Longrightarrow> pool_owner p' x = Some v" using facts(3) p'(3) by simp
  from memory_pool_release_owned [OF p'(1,2) this] obtain p'' where
    "memory_pool_release_segments (req_node_id q) v (req_offset_mb q) (req_size_mb q) p' = Inr (0, p'')"
    "pool_wf p''" "pool_owner p'' = (\<lambda>x. if x \<in> req_span p' q then None else pool_owner p' x)" by blast
  then show ?thesis using facts(2,3) p'(3) by (auto simp: fun_eq_iff)
qed

theorem pool_allocate_release_roundtrip_witness:
  "\<exists>p' p''. memory_pool_allocate_segments 0 7 256 ex_pool = Inr (Some ex_grant, p') \<and>
     memory_pool_release_segments 0 7 0 256 p' = Inr (0, p'') \<and> pool_owner p'' = pool_owner ex_pool"
proof -
  have sz: "0 < (256::int)" "(256::int) \<le> INT_MAX" by (simp_all add: INT_MAX_def)
  obtain p where p: "memory_pool_allocate_segments 0 7 256 ex_pool = Inr (Some ex_grant, p)"
    using ex_allocate by blast
  from pool_allocate_release_roundtrip [OF ex_pool_wf sz p] p show ?thesis
    by (auto simp: ex_grant_def)
qed

text \<open>C24: The skipping search of \<open>find_free_segments\<close> returns what a search that tries every
  start index returns.\<close>

theorem search_is_first_fit:
  assumes "dev_wf seg d" "0 < n" "n \<le> INT_MAX"
  shows "find_free_segments d n =
           Inr (case find (\<lambda>i. list_all (\<lambda>j. \<not> allocated (dax_segments d j)) [i..i + n - 1])
                       [0..dax_total_segments d - n] of
                  None \<Rightarrow> -1 | Some i \<Rightarrow> i)"
  using find_free_segments_eq [OF assms] by (simp add: first_fit_def free_run_def)

theorem search_is_first_fit_witness: "find_free_segments (g_mem_devs ex_pool ! 0) 2 = Inr 0"
proof -
  have "dev_wf (g_segment_size_mb ex_pool) (g_mem_devs ex_pool ! 0)"
    by (rule pool_dev_wf [OF ex_pool_wf]) (simp add: ex_dev_segments)
  from search_is_first_fit [OF this, of 2] ex_first_fit show ?thesis
    by (simp add: INT_MAX_def ex_dev_segments first_fit_def free_run_def)
qed

section \<open>The life of a VM\<close>

text \<open>C25: \<open>vm_mngr_instance_create\<close> never faults when the core set, cut to 255 characters, names
  cores.  It succeeds exactly when the table has room and the id is new; then the VM exists, runs
  not and has no memory, and no other VM changes.\<close>

theorem vm_create_correct:
  assumes "rm_inv s" "core_ids (take 255 core_set) = Inr ids" "int (length ids) \<le> INT_MAX"
  shows "\<exists>r m. vm_mngr_instance_create v core_set (rm_vms s) = Inr (r, m) \<and>
           rm_inv (s\<lparr>rm_vms := m\<rparr>) \<and>
           (\<forall>w i. vm_mngr_instance_get_mem w i m = vm_mngr_instance_get_mem w i (rm_vms s)) \<and>
           (\<forall>w. vm_running m w = vm_running (rm_vms s) w) \<and>
           (if mngr_count (rm_vms s) = 16 \<or> vm_mngr_check_exit v (rm_vms s) then r = -1 \<and> m = rm_vms s
            else r = 0 \<and> mngr_count m = mngr_count (rm_vms s) + 1 \<and>
              (\<forall>w. vm_mngr_check_exit w m = (w = v \<or> vm_mngr_check_exit w (rm_vms s))))"
proof -
  have wf: "mngr_wf (rm_vms s)" using assms(1) by (simp add: rm_inv_def)
  have "core_ids (fst (snprintf CORE_SET_LEN core_set)) = Inr ids"
    using assms(2) by (simp add: snprintf_def CORE_SET_LEN_def)
  from create_total [OF wf this assms(3)] obtain r m where
    run: "vm_mngr_instance_create v core_set (rm_vms s) = Inr (r, m)" by blast
  from create_correct [OF wf run] create_inv [OF assms(1) run] run show ?thesis
    by (intro exI [of _ r] exI [of _ m]) (auto simp: vm_ledger_def fun_eq_iff MAX_NUM_VM_def)
qed

theorem vm_create_correct_witness:
  "\<exists>r m. vm_mngr_instance_create 1 ''0-1'' (rm_vms ex_state) = Inr (r, m) \<and> rm_inv (ex_state\<lparr>rm_vms := m\<rparr>)"
  using vm_create_correct [OF ex_state_inv, of "''0-1''" "[0, 1]" 1] ex_cores by (auto simp: INT_MAX_def)

text \<open>C26: \<open>vm_mngr_instance_start\<close> never faults for an id in the range of the guest agents, when
  the kernel opens the counters and the VM has cores with ids that are not negative.  It reports
  success exactly when the VM runs afterwards; a failed start is rolled back.\<close>

theorem vm_start_correct:
  assumes "rm_inv s" "perf_opens_ok os" "perf_reads_ok os" "perf_closes_ok os" "0 \<le> v" "v < 16"
    and "sane_cores s v"
  shows "\<exists>r s'. vm_mngr_instance_start os v s = Inr (r, s') \<and> rm_inv s' \<and> rm_pool s' = rm_pool s \<and>
           (r = 0 \<or> r = -1) \<and> (r = 0 \<longleftrightarrow> vm_running (rm_vms s') v) \<and>
           (\<forall>u. u \<noteq> v \<longrightarrow> vm_running (rm_vms s') u = vm_running (rm_vms s) u)"
proof -
  have "v < MAX_NUM_VM" using assms(6) by (simp add: MAX_NUM_VM_def)
  moreover have "ids \<noteq> [] \<and> (\<forall>c \<in> set ids. 0 \<le> c)"
    if "vm_mngr_get_instance v (rm_vms s) = Some k" "core_ids (VM_core_set (vm_at s k)) = Inr ids" for k ids
    using assms(7) that by (simp add: sane_cores_def list_all_iff)
  ultimately obtain r s' where run: "vm_mngr_instance_start os v s = Inr (r, s')"
    using start_total [OF assms(1-5)] by blast
  with start_inv [OF assms(1) run] show ?thesis by blast
qed

theorem vm_start_correct_witness:
  "\<exists>r s'. vm_mngr_instance_start ex_os 1 ex_state1 = Inr (r, s') \<and> rm_inv s'"
proof -
  have "0 \<le> (1::int)" "(1::int) < 16" by simp_all
  moreover have "sane_cores ex_state1 1"
    using ex_cores ex_core_set by (simp add: sane_cores_def ex_state1_def ex_get1)
  ultimately show ?thesis
    using vm_start_correct [OF ex_state1_inv ex_opens ex_reads ex_closes, of 1] by blast
qed

text \<open>C27: \<open>vm_mngr_instance_stop\<close> never faults when the kernel's counters can be read and closed.  An
  unknown VM is refused and a halted one left alone, both without any change.  Of a running VM the flag
  is cleared, the descriptor arrays are freed, the counts are brought up to date one last time without
  going back, and its agent is disconnected; the rest of its entry (identity, cores, devices, metrics), all
  other entries, the other agents and the pool stay as they were.\<close>

theorem vm_stop_correct:
  assumes "rm_inv s" "perf_reads_ok os" "perf_closes_ok os"
  shows "case vm_mngr_get_instance v (rm_vms s) of
           None \<Rightarrow> vm_mngr_instance_stop os v s = Inr (-1, s)
         | Some k \<Rightarrow>
             if \<not> VM_running (vm_at s k) then vm_mngr_instance_stop os v s = Inr (0, s)
             else \<exists>s' cum delta.
               vm_mngr_instance_stop os v s = Inr (0, s') \<and> rm_inv s' \<and> rm_pool s' = rm_pool s \<and>
               rm_vms s' = (rm_vms s)\<lparr>mngr_VMs := (mngr_VMs (rm_vms s))
                 [k := (vm_at s k)\<lparr>VM_running := False, VM_perf_event_fds := (\<lambda>_. None),
                                  VM_cum_counts := cum, VM_delta_counts := delta\<rparr>]\<rparr> \<and>
               (\<forall>j. uint (cum j) = uint (VM_cum_counts (vm_at s k) j) + uint (delta j)) \<and>
               \<not> agent_up (rm_agents s') v \<and>
               (\<forall>u. u \<noteq> v \<longrightarrow> guest_agents (rm_agents s') u = guest_agents (rm_agents s) u)"
proof (cases "\<exists>k. vm_mngr_get_instance v (rm_vms s) = Some k \<and> VM_running (vm_at s k)")
  case False
  then show ?thesis by (auto simp: vm_mngr_instance_stop_def split: option.split)
next
  case True
  then obtain k where k: "vm_mngr_get_instance v (rm_vms s) = Some k" "VM_running (vm_at s k)" by blast
  from stop_total [OF assms] obtain r s' where run: "vm_mngr_instance_stop os v s = Inr (r, s')" by blast
  from stop_effect [OF assms(1) k run] stop_inv [OF assms(1) run] run k show ?thesis
    by (auto simp: mngr_put_def)
qed

theorem vm_stop_correct_witness:
  "\<exists>s'. vm_mngr_instance_stop ex_os 1 ex_running = Inr (0, s') \<and> rm_inv s' \<and> rm_pool s' = rm_pool ex_running"
  using vm_stop_correct [OF ex_running_inv ex_reads ex_closes, of 1] ex_running_table(1,4) by auto

section \<open>Counters and metrics\<close>

text \<open>C28: What \<open>vm_perf_counter_setup\<close> does when it returns.  After the five allocations it has asked the kernel for
  exactly the events of \<open>open_cores\<close>, core by core in the order of the core set and on each core for the five
  raw events, each on that core and in a group of its own, and for nothing else; none was refused;
  and the table holds for every event and every core the descriptor of just that call.  All counts start
  from 0.\<close>

theorem perf_setup_opens_events:
  assumes "vm_perf_counter_setup os (VM, w) = Inr (VM', w')" "core_ids (VM_core_set VM) = Inr ids"
    "open_cores os ids (fold (\<lambda>_ u. snd (os_malloc os (nat (VM_num_cores VM) * 4) u)) all_events w) = (fds, u)"
  shows "w' = u \<and>
         (\<forall>k j. k < length ids \<longrightarrow> fd_get j (int k) VM' = Inr (fds ! k ! enum_of j) \<and> 0 \<le> fds ! k ! enum_of j) \<and>
         VM_cum_counts VM' = (\<lambda>_. 0) \<and> VM_delta_counts VM' = (\<lambda>_. 0)"
  using perf_setup_opened [OF assms(1,2)] unfolding assms(3) by simp

theorem perf_setup_opens_events_witness:
  "\<exists>VM' w'. vm_perf_counter_setup ex_os (vm_at ex_state1 0, ()) = Inr (VM', w') \<and>
     (\<forall>j. fd_get j 0 VM' = Inr 5 \<and> fd_get j 1 VM' = Inr 5)"
proof -
  have cores: "core_ids (VM_core_set (vm_at ex_state1 0)) = Inr [0, 1]"
    "VM_num_cores (vm_at ex_state1 0) = int (length [0 :: int, 1])" by (simp_all add: ex_core_set ex_cores)
  moreover have "VM_num_cores (vm_at ex_state1 0) \<le> INT_MAX" by (simp add: ex_core_set INT_MAX_def)
  moreover have "[0 :: int, 1] \<noteq> []" "\<And>c. c \<in> set [0 :: int, 1] \<Longrightarrow> 0 \<le> c" by auto
  ultimately obtain VM' w' where run: "vm_perf_counter_setup ex_os (vm_at ex_state1 0, ()) = Inr (VM', w')"
    using perf_setup_ok [OF ex_opens cores] by blast
  have "open_event ex_os c j u = (5, u)" for c j u by (simp add: open_event_def ex_os_def)
  then have fds: "open_cores ex_os [0, 1] u = ([[5, 5, 5, 5, 5], [5, 5, 5, 5, 5]], u)" for u
    by (simp add: open_cores_def all_events_def)
  have "fd_get j (int k) VM' = Inr 5" if "k < 2" for j k
    using perf_setup_opens_events [OF run cores(1) fds] that by (cases j) (auto simp: less_2_cases_iff)
  from this [of 0] this [of 1] run show ?thesis by auto
qed

text \<open>C29: A round of the monitor over the counters never faults when they can be read.  Every
  running VM's cumulative counts grow by exactly the deltas it records, without wrap-around, and
  a VM that does not run is left alone.\<close>

theorem counters_round:
  assumes "rm_inv s" "perf_reads_ok os"
  shows "\<exists>s'. vm_mngr_update_perf_counters os s = Inr s' \<and> rm_inv s' \<and>
           (mngr_count (rm_vms s) \<noteq> 0 \<longrightarrow>
             (\<forall>k < 16.
               if VM_running (vm_at s k)
               then \<forall>j. uint (VM_cum_counts (vm_at s' k) j) =
                        uint (VM_cum_counts (vm_at s k) j) + uint (VM_delta_counts (vm_at s' k) j)
               else vm_at s' k = vm_at s k))"
  using update_perf_counters_correct [OF assms]
  by (elim ex_forward) (auto simp: counts_grow_def MAX_NUM_VM_def)

theorem counters_round_witness: "\<exists>s'. vm_mngr_update_perf_counters ex_os ex_state2 = Inr s' \<and> rm_inv s'"
  using counters_round [OF ex_state2_inv ex_reads] by blast

text \<open>C30: One interval without L3 misses makes the smoothed metric NaN, and it stays NaN in every
  later update until the VM is started again.\<close>

theorem no_miss_interval_poisons_average:
  assumes "VM_delta_counts VM OCR_OUTSTANDING_L3_MISS_DEMAND_DATA_RD = 0"
    "VM_delta_counts VM OCR_L3_MISS_DEMAND_DATA_RD = 0"
  shows "VM_ewma_metrics (fold (\<lambda>deltas V. vm_update_metrics (V\<lparr>VM_delta_counts := deltas\<rparr>)) rounds
           (vm_update_metrics VM)) j = DNaN"
proof -
  have "VM_ewma_metrics (vm_update_metrics VM) j = DNaN \<and> VM_ewma_initialized (vm_update_metrics VM)"
    using metrics_no_misses [OF assms, of j] by (simp add: vm_update_metrics_def Let_def)
  moreover have "VM_ewma_metrics (fold (\<lambda>deltas V. vm_update_metrics (V\<lparr>VM_delta_counts := deltas\<rparr>)) rounds V) j = DNaN"
    if "VM_ewma_metrics V j = DNaN \<and> VM_ewma_initialized V" for V
    using that
  proof (induction rounds arbitrary: V)
    case (Cons d rounds)
    then have "VM_ewma_metrics (vm_update_metrics (V\<lparr>VM_delta_counts := d\<rparr>)) j = DNaN"
      by (intro ewma_nan) simp_all
    moreover have "VM_ewma_initialized (vm_update_metrics (V\<lparr>VM_delta_counts := d\<rparr>))"
      by (simp add: vm_update_metrics_def Let_def)
    ultimately show ?case using Cons.IH by simp
  qed simp
  ultimately show ?thesis by blast
qed

theorem no_miss_interval_poisons_average_witness:
  "VM_ewma_metrics (vm_update_metrics (vm_update_metrics zero_vm\<lparr>VM_delta_counts := (\<lambda>_. 100)\<rparr>))
     LOAD_L3_MISS_LAT = DNaN"
  using no_miss_interval_poisons_average [of zero_vm "[\<lambda>_. 100]" LOAD_L3_MISS_LAT] by (simp add: zero_vm_def)

section \<open>The monitor\<close>



text \<open>C32: The bandwidth of a VM over one round, in every case.  A core outside PCM's table is an
  access outside the array, an interval of 0 a division by zero; otherwise local and remote
  bandwidth are the sums over the VM's cores divided by the interval, and their sum is the total.\<close>

theorem bandwidth_figures:
  assumes "core_ids (VM_core_set VM) = Inr ids"
  shows "vm_mem_bw gm cm VM =
           (if \<not> (\<forall>c \<in> set ids. 0 \<le> c \<and> c < 4096) then Inl OutOfBounds
            else if monitor_interval_in_second gm = 0 then Inl DivByZero
            else let interval = ucast (monitor_interval_in_second gm);
                     l = sum_list (map (core_local_bw cm) ids) div interval;
                     r = sum_list (map (core_remote_bw cm) ids) div interval
                 in Inr (VM\<lparr>VM_mem_bw_local := l, VM_mem_bw_remote := r, VM_mem_bw := l + r\<rparr>))"
  using vm_mem_bw_cases [OF assms, of gm cm]
  by (simp add: measured_core_def MAX_CORES_def bw_figures_def bw_sum_def Let_def)

theorem bandwidth_figures_witness:
  "\<exists>V. vm_mem_bw initial_monitor \<lparr>core_local_bw = (\<lambda>c. 2048), core_remote_bw = (\<lambda>c. 1024)\<rparr> (vm_at ex_running 0)
         = Inr V \<and> VM_mem_bw_local V = 4096 \<and> VM_mem_bw V = 6144"
proof -
  have "core_ids (VM_core_set (vm_at ex_running 0)) = Inr [0, 1]" by (simp add: ex_running_table ex_cores)
  from bandwidth_figures [OF this] show ?thesis by (simp add: initial_monitor_def)
qed

text \<open>C33: Nothing that is sent to the database is cut by its buffer of 256 bytes, of all three kinds of lines: the
  line of a guest's memory, for whatever \<open>int\<close>s the guest's answer holds; the bandwidth line, which is sent unless
  the total is 251 GB or more, which is taken for a wrong measurement; and the latency line, which is
  always sent, after the update of the metrics that comes before it in every round.\<close>

theorem uploads_complete:
  assumes "in_int (VM_id VM)" "\<And>j. in_int (json_object_get_int js j)"
  shows "(let field = (\<lambda>key. json_object_get_int js (json_object_object_get js info key)) in
          upload_meminfo js lib gm (VM_id VM) info w =
            cloud_db_client_send lib gm (guest_memory_text (VM_id VM) (field ''index'') (field ''mem-free'')
              (field ''mem-total'') (field ''mem-available'') (g_time_now_s gm)) w) \<and>
         upload_vm_bw_to_cloud_db lib gm VM w =
           (if 257024 \<le> uint (VM_mem_bw VM) then w
            else cloud_db_client_send lib gm (vm_bandwidth_text VM (g_time_now_s gm)) w) \<and>
         upload_vm_latency_to_cloud_db lib gm (vm_update_metrics VM) w =
           cloud_db_client_send lib gm (vm_latency_text (vm_update_metrics VM) (g_time_now_s gm)) w"
proof -
  have "VM_id (vm_update_metrics VM) = VM_id VM" by (simp add: vm_update_metrics_def Let_def)
  then show ?thesis
    using assms(1) by (simp add: upload_bw_text upload_latency_text cur_metrics_sane upload_meminfo_text [OF assms])
qed

theorem uploads_complete_witness:
  "upload_meminfo ex_js ex_lib initial_monitor 0 None () = cloud_db_client_send ex_lib initial_monitor
     (guest_memory_text 0 0 0 0 0 0) () \<and>
   upload_vm_latency_to_cloud_db ex_lib initial_monitor (vm_update_metrics zero_vm) () =
     cloud_db_client_send ex_lib initial_monitor (vm_latency_text (vm_update_metrics zero_vm) 0) ()"
proof -
  have "in_int (VM_id zero_vm)" "in_int (json_object_get_int ex_js j)" for j
    by (simp_all add: zero_vm_def ex_js_def in_int_def INT_MIN_def INT_MAX_def)
  from uploads_complete [OF this, of None ex_lib initial_monitor "()"] show ?thesis
    by (simp add: initial_monitor_def zero_vm_def ex_js_def)
qed

section \<open>Configuration, listings, queues\<close>

text \<open>C34: Pool and monitor read one file, each for itself.  From a written file with a segment size,
  the monitor's settings and at most ten devices, the monitor takes exactly its settings, and the
  pool one initialised device per line, in order, with the line's path, size, tier and dax id, all
  segments free.\<close>

theorem config_read_by_both:
  assumes "0 < seg" "seg \<le> INT_MAX" "settings_ok c" "list_all entry_ok es" "length es \<le> 10"
  shows "guest_monitor_load_config (Some (config_file_text seg c es)) gm =
           Inr (0, gm\<lparr>monitor_interval_in_second := word_of_int (set_interval c),
                      enable_cloud_db := set_clouddb c, influxdb_url := Some (set_url c),
                      influxdb_token := Some (set_token c), use_proxy := set_use_proxy c,
                      proxy_addr := Some (set_proxy c)\<rparr>) \<and>
         (\<exists>p. memory_pool_init (Some (config_file_text seg c es)) empty_pool = Inr (0, p) \<and>
           g_segment_size_mb p = seg \<and> length (g_mem_devs p) = length es \<and>
           (\<forall>k < length es. \<forall>path sz tier dax. es ! k = (path, sz, tier, dax) \<longrightarrow>
              dax_dev_path (g_mem_devs p ! k) = path \<and> dax_total_size_mb (g_mem_devs p ! k) = sz \<and>
              dax_tier_id (g_mem_devs p ! k) = tier \<and> dax_dax_id (g_mem_devs p ! k) = dax \<and>
              dax_node_id (g_mem_devs p ! k) = int k \<and>
              dax_total_segments (g_mem_devs p ! k) = sz div seg \<and>
              (\<forall>j. 0 \<le> j \<and> j < 4096 \<longrightarrow> \<not> allocated (dax_segments (g_mem_devs p ! k) j))))"
proof -
  have len: "int (length es) \<le> MAX_DEVICES" using assms(5) by (simp add: MAX_DEVICES_def)
  from init_config_text [OF assms(1,2,4) len] pool_reads_config [OF assms(1-4) len]
    monitor_reads_config [OF assms(1-4), of gm]
  show ?thesis
    by (auto simp: initialised_all_nth initialised_def entry_dev_def MAX_SEGMENTS_def apply_settings_def)
qed

theorem config_read_by_both_witness:
  "\<exists>p. memory_pool_init (Some (config_file_text 128
       \<lparr>set_interval = 5, set_clouddb = True, set_url = ''http://db'', set_token = ''t0'', set_use_proxy = False,
        set_proxy = ''none''\<rparr> [(''/dev/dax0.0'', 512, 1, 0)])) empty_pool = Inr (0, p) \<and>
     dax_total_segments (g_mem_devs p ! 0) = 4"
proof -
  let ?c = "\<lparr>set_interval = 5, set_clouddb = True, set_url = ''http://db'', set_token = ''t0'',
      set_use_proxy = False, set_proxy = ''none''\<rparr>"
  have "settings_ok ?c"
    by (simp add: settings_ok_def is_word_def is_space_def in_int_def INT_MIN_def INT_MAX_def)
  from config_read_by_both [OF _ _ this ex_entry_ok, of 128] show ?thesis by (auto simp: INT_MAX_def)
qed

text \<open>C35: The TAILQ macros on linked cells refine a list: any sequence of insertions of fresh
  allocated elements and removals of queued ones runs without touching freed memory, and the walk
  afterwards visits exactly what the list operations leave.\<close>

theorem tailq_refines_list:
  assumes "tq_repr q xs" "ops_ok (\<lambda>a. tq_links q a \<noteq> None) ops xs"
  shows "\<exists>q'. run_ops TAILQ_INSERT_TAIL TAILQ_REMOVE ops q = Inr q' \<and>
           tq_repr q' (fold list_op ops xs) \<and> TAILQ_FOREACH q' = Some (fold list_op ops xs)"
  by (rule tq.run_ops_refines [OF assms])

theorem tailq_refines_list_witness:
  "\<exists>q'. run_ops TAILQ_INSERT_TAIL TAILQ_REMOVE [Insert 1, Insert 2, Insert 3, Remove 2] ex_queue = Inr q' \<and>
     TAILQ_FOREACH q' = Some [1, 3]"
proof -
  have "ops_ok (\<lambda>a. tq_links ex_queue a \<noteq> None) [Insert 1, Insert 2, Insert 3, Remove 2] []"
    using ex_queue_cells(2) by simp
  from tailq_refines_list [OF ex_queue_cells(1) this] show ?thesis by auto
qed

section \<open>Hotplug and the agents\<close>

text \<open>C36: Attach and detach undo each other in QEMU.  With a QEMU that keeps its documentation, an
  \<open>attach-mem\<close> that is answered by a success made the backend and the DIMM, neither of which was there
  before; a \<open>detach-mem\<close> answered by a success removed both, and nothing else of the server's state
  changed.\<close>

theorem attach_detach_roundtrip:
  assumes "qemu_contract os js v i q obj dev" "vm_mngr_instance_get_mem v i (rm_vms s) = Some q"
    "request_ok (AttachMem i v n)"
    "serve os js (print_request (AttachMem i v n)) old s = Inr (''Hotplug memory success'', a, s1)"
    "serve os js (print_request (DetachMem i v)) b s1 = Inr (''Hotunplug memory success'', c, s2)"
  shows "\<not> obj (rm_world s) \<and> \<not> dev (rm_world s) \<and> obj (rm_world s1) \<and> dev (rm_world s1) \<and>
         \<not> obj (rm_world s2) \<and> \<not> dev (rm_world s2) \<and> s2 = s\<lparr>rm_world := rm_world s2\<rparr>"
  using attach_then_detach [OF assms(1,2) serve_perform [OF assms(3,4)] serve_perform [OF _ assms(5)]] assms(3)
  by simp

theorem attach_detach_roundtrip_witness:
  "\<exists>a s1 c s2. serve (ex_qemu False) ex_qmp_js (print_request (AttachMem 0 1 0)) None ex_unplugged =
       Inr (''Hotplug memory success'', a, s1) \<and> rm_world s1 = (True, True, True) \<and>
     serve (ex_qemu False) ex_qmp_js (print_request (DetachMem 0 1)) a s1 =
       Inr (''Hotunplug memory success'', c, s2) \<and> \<not> fst (rm_world s2)"
proof -
  have w: "ex_unplugged = ex_unplugged\<lparr>rm_world := (False, False, True)\<rparr>" by (simp add: ex_unplugged_def)
  define s1 where "s1 = ex_unplugged\<lparr>rm_world := (True, True, True)\<rparr>"
  define s2 where "s2 = ex_unplugged\<lparr>rm_world := (False, False, True)\<rparr>"
  have a: "serve (ex_qemu False) ex_qmp_js (print_request (AttachMem 0 1 0)) None ex_unplugged =
      Inr (''Hotplug memory success'', request_args (AttachMem 0 1 0) None, s1)"
    unfolding serve_request [OF ex_attach_request(1)]
    by (subst w) (simp add: ex_plugging s1_def del: perform.simps)
  have d: "serve (ex_qemu False) ex_qmp_js (print_request (DetachMem 0 1)) (request_args (AttachMem 0 1 0) None) s1 =
      Inr (''Hotunplug memory success'', request_args (DetachMem 0 1) (request_args (AttachMem 0 1 0) None), s2)"
    unfolding serve_request [OF ex_attach_request(2)] s1_def s2_def by (simp add: ex_plugging del: perform.simps)
  from attach_detach_roundtrip [OF ex_qemu_contract ex_unplugged_grant ex_attach_request(1) a d] a d
  show ?thesis by (intro exI conjI) (assumption | simp add: s1_def)+
qed

text \<open>C37: An attach that QEMU refuses halfway cannot be repeated or undone.  With a QEMU that keeps its
  documentation, let it make the backend for an \<open>attach-mem\<close> and then refuse the DIMM.  The attach is
  answered by a failure and leaves the backend behind; and in any sequence of further \<open>attach-mem\<close> and
  \<open>detach-mem\<close> requests for that memory every single one fails, and at the end there is still the
  backend and no DIMM.\<close>

theorem failed_attach_sticks:
  assumes "qemu_contract os js v i q obj dev" "vm_mngr_instance_get_mem v i (rm_vms s) = Some q"
    "request_ok (AttachMem i v n)"
    "qmp_execute os js v (create_object_cmd js (hotplug_request_of i n q)) (snd (os_malloc os 1024 (rm_world s))) = Inr (0, w1)"
    "qmp_execute os js v (add_device_cmd js (hotplug_request_of i n q)) w1 = Inr (-1, w2)" "\<not> dev w2"
    and "\<And>r. r \<in> set rs \<Longrightarrow> request_ok r \<and> (r = DetachMem i v \<or> (\<exists>m. r = AttachMem i v m))"
    and "serve_all os js (AttachMem i v n # rs) old s = Inr (ts, s')"
  shows "ts = ''Hotplug memory failed'' # map (\<lambda>r. if r = DetachMem i v then ''Hotunplug memory failed''
                                                else ''Hotplug memory failed'') rs \<and>
         obj (rm_world s') \<and> \<not> dev (rm_world s')"
proof -
  from assms(8) obtain t a s1 us where one: "serve os js (print_request (AttachMem i v n)) old s = Inr (t, a, s1)"
    and rest: "serve_all os js rs a s1 = Inr (us, s')" "ts = t # us" by (auto simp: bindE_eq_Inr)
  have buf: "nat BUFFER_SIZE = 1024" by (simp add: BUFFER_SIZE_def)
  note first = refused_attach [OF assms(1,2) assms(4,5) [folded buf] serve_perform [OF assms(3) one]]
  have con: "\<forall>r \<in> set rs. concerns v i r" using assms(7) by (auto simp: concerns_def)
  have texts: "failure_text r = (if r = DetachMem i v then ''Hotunplug memory failed'' else ''Hotplug memory failed'')"
    if "r \<in> set rs" for r using assms(7) [OF that] by (auto simp: failure_text_def)
  from stuck_forever [OF assms(1) _ _ _ con rest(1)] first assms(2,6) rest(2) texts show ?thesis by simp
qed

theorem failed_attach_sticks_witness:
  "\<exists>s'. serve_all (ex_qemu True) ex_qmp_js [AttachMem 0 1 0, DetachMem 0 1, AttachMem 0 1 0] None ex_unplugged =
     Inr ([''Hotplug memory failed'', ''Hotunplug memory failed'', ''Hotplug memory failed''], s') \<and> fst (rm_world s')"
proof -
  let ?rs = "[DetachMem 0 1, AttachMem 0 1 0]"
  have later: "request_ok r \<and> (r = DetachMem 0 1 \<or> (\<exists>m. r = AttachMem 0 1 m))" if "r \<in> set ?rs" for r
    using that ex_attach_request by auto
  have w: "ex_unplugged = ex_unplugged\<lparr>rm_world := (False, False, True)\<rparr>" by (simp add: ex_unplugged_def)
  have u: "(ex_unplugged\<lparr>rm_world := x\<rparr>)\<lparr>rm_world := y\<rparr> = ex_unplugged\<lparr>rm_world := y\<rparr>" for x y by simp
  have "\<exists>ts s'. serve_all (ex_qemu True) ex_qmp_js (AttachMem 0 1 0 # ?rs) None ex_unplugged = Inr (ts, s')"
    by (subst w) (simp add: serve_request [OF ex_attach_request(1)] serve_request [OF ex_attach_request(2)]
        ex_plugging u del: perform.simps)
  then obtain ts s' where run: "serve_all (ex_qemu True) ex_qmp_js (AttachMem 0 1 0 # ?rs) None ex_unplugged = Inr (ts, s')"
    by blast
  have made: "qmp_execute (ex_qemu True) ex_qmp_js 1 (create_object_cmd ex_qmp_js (hotplug_request_of 0 0 ex_grant))
      (snd (os_malloc (ex_qemu True) 1024 (rm_world ex_unplugged))) = Inr (0, (True, False, True))"
    and refused: "qmp_execute (ex_qemu True) ex_qmp_js 1 (add_device_cmd ex_qmp_js (hotplug_request_of 0 0 ex_grant))
      (True, False, True) = Inr (-1, (True, False, False))"
    by (simp_all add: ex_qmp_commands ex_qmp_execute ex_qemu_simps ex_qemu_send_def ex_unplugged_def)
  have "\<not> (fst \<circ> snd) (True, False, False)" by simp
  from failed_attach_sticks [OF ex_qemu_contract ex_unplugged_grant ex_attach_request(1) made refused this later run] run
  show ?thesis by auto
qed

text \<open>C38: An attach is not recorded.  After any answered \<open>attach-mem\<close> the request \<open>free-mem\<close> for the same
  device succeeds and makes its segments free for other VMs, while QEMU, which may have it plugged
  in, is not asked for anything: the only call to the outside is that of \<open>malloc\<close>.\<close>

theorem attached_memory_freed:
  assumes "rm_inv s" "\<And>n w. fst (os_malloc os n w)" "0 \<le> memid" "memid \<le> INT_MAX" "0 \<le> vid" "vid \<le> INT_MAX"
    "0 \<le> nid" "nid \<le> INT_MAX" "vm_mngr_instance_get_mem vid memid (rm_vms s) = Some q"
    "length (req_dev_path q) < 64"
    and "serve os js (''attach-mem '' @ attach_args memid vid nid) old s = Inr (t, a, s1)"
  shows "\<exists>b s2. serve os js (''free-mem '' @ free_args vid memid) a s1 = Inr (''Release success'', b, s2) \<and>
           rm_world s2 = snd (os_malloc os 1024 (rm_world s1)) \<and>
           pool_owner (rm_pool s2) =
             (\<lambda>x. if x \<in> req_span (rm_pool s) q then None else pool_owner (rm_pool s) x)"
  by (rule attached_freed [OF assms])

theorem attached_memory_freed_witness:
  "\<exists>a s1 b s2. serve ex_os ex_js (''attach-mem '' @ attach_args 0 1 0) None ex_state2 =
       Inr (''Hotplug memory success'', a, s1) \<and>
     serve ex_os ex_js (''free-mem '' @ free_args 1 0) a s1 = Inr (''Release success'', b, s2)"
proof -
  have mal: "fst (os_malloc ex_os n w)" for n w by (simp add: ex_os_def)
  have ids: "0 \<le> (0::int)" "(0::int) \<le> INT_MAX" "0 \<le> (1::int)" "(1::int) \<le> INT_MAX" by (simp_all add: INT_MAX_def)
  have path: "length (req_dev_path ex_grant) < 64" by (simp add: ex_grant_def)
  have att: "serve ex_os ex_js (''attach-mem '' @ attach_args 0 1 0) None ex_state2 =
      Inr (''Hotplug memory success'', Some (attach_args 0 1 0), ex_state2)"
    unfolding attach_served [where os = ex_os, OF mal ids ids(1,2) ex_state2_grant path] by (simp add: ex_plug)
  from attached_memory_freed [OF ex_state2_inv mal ids ids(1,2) ex_state2_grant path att] att show ?thesis by blast
qed

text \<open>C39: \<open>attach-mem\<close> does not tell QEMU which part of the device was granted.  Let two VMs hold, under the same
  memory id (the ids of every VM count from 0), two grants of one device with the same size.  The pool keeps the two
  ranges apart; yet when both requests to attach them are answered by a success, the QEMUs of both VMs
  have executed the very same \<open>object-add\<close>, so that both map the same bytes of the device.\<close>

theorem two_grants_one_command:
  assumes "rm_inv s" "v \<noteq> w" "vm_mngr_instance_get_mem v i (rm_vms s) = Some q"
    "vm_mngr_instance_get_mem w i (rm_vms s) = Some r"
    "req_node_id q = req_node_id r" "req_dev_path q = req_dev_path r"
    "req_size_mb q = req_size_mb r" "req_align_mb q = req_align_mb r"
    "request_ok (AttachMem i v n)" "request_ok (AttachMem i w n')"
    "serve os js (print_request (AttachMem i v n)) old s = Inr (''Hotplug memory success'', a, s1)"
    "serve os js (print_request (AttachMem i w n')) a s1 = Inr (''Hotplug memory success'', b, s2)"
  shows "(req_offset_mb q + req_size_mb q \<le> req_offset_mb r \<or> req_offset_mb r + req_size_mb r \<le> req_offset_mb q) \<and>
         (\<exists>cmd w1 w2. create_object_cmd js (hotplug_request_of i n q) = Inr cmd \<and>
            qmp_execute os js v (Inr cmd) (snd (os_malloc os 1024 (rm_world s))) = Inr (0, w1) \<and>
            qmp_execute os js w (Inr cmd) (snd (os_malloc os 1024 (rm_world s1))) = Inr (0, w2))"
proof -
  have buf: "nat BUFFER_SIZE = 1024" by (simp add: BUFFER_SIZE_def)
  have "grants_apart q r" using rm_inv_grants [OF assms(1,3)] assms(2,4) by blast
  moreover from attach_success [OF assms(3) serve_perform [OF assms(9,11)]] obtain cmd w1 where
    v: "create_object_cmd js (hotplug_request_of i n q) = Inr cmd" "rm_vms s1 = rm_vms s"
      "qmp_execute os js v (Inr cmd) (snd (os_malloc os 1024 (rm_world s))) = Inr (0, w1)" unfolding buf by blast
  moreover have "vm_mngr_instance_get_mem w i (rm_vms s1) = Some r" using assms(4) v(2) by simp
  from attach_success [OF this serve_perform [OF assms(10,12)]] obtain cmd' w2 where
    w: "create_object_cmd js (hotplug_request_of i n' r) = Inr cmd'"
      "qmp_execute os js w (Inr cmd') (snd (os_malloc os 1024 (rm_world s1))) = Inr (0, w2)" unfolding buf by blast
  moreover have "create_object_cmd js (hotplug_request_of i n' r) = create_object_cmd js (hotplug_request_of i n q)"
    using assms(6-8) by (simp add: create_object_cmd_def hotplug_request_of_def)
  ultimately show ?thesis using assms(5) by (auto simp: grants_apart_def)
qed

theorem two_grants_one_command_witness:
  "\<exists>cmd w1 w2. create_object_cmd ex_js (hotplug_request_of 0 0 ex_grant) = Inr cmd \<and>
     qmp_execute ex_os ex_js 1 (Inr cmd) () = Inr (0, w1) \<and> qmp_execute ex_os ex_js 2 (Inr cmd) () = Inr (0, w2)"
proof -
  note a1 = ex_two_attach [of 1, OF insertI1, where old = None]
  note a2 = ex_two_attach [of 2, OF insertI2 [OF insertI1]]
  have "(1::int) \<noteq> 2" by simp
  from two_grants_one_command [OF ex_two_inv this ex_two_grants _ _ _ _ ex_two_requests a1 a2] show ?thesis by simp
qed

text \<open>C40: Exactly when a QMP command overruns a buffer.  It is when the socket was connected, the session was
  opened, the command was sent, and then the answer to this command, received from this socket,
  has all 1024 bytes of the buffer: then the terminator is written one byte behind it.  Nothing else in
  a command faults; the greeting and the answer to the negotiation are terminated inside theirs.\<close>

theorem qmp_fault_is_full_answer:
  assumes "in_int v"
  shows "send_qemu_cmd os js v cmd w = Inl e \<longleftrightarrow>
     e = OutOfBounds \<and>
     (\<exists>fd w1 r w2 n w3 bs w4.
        connect_to_socket os (''/var/run/qmp-sock-'' @ show_int v) w = (fd, w1) \<and> 0 \<le> fd \<and>
        init_qemu_qmp_session os js fd w1 = Inr (r, w2) \<and> 0 \<le> r \<and> os_send os fd cmd w2 = (n, w3) \<and> 0 \<le> n \<and>
        sys_recv os fd 1024 w3 = (Some bs, w4) \<and> length bs = 1024)"
proof -
  have "int (length (QMP_SOCKET_PREFIX @ show_int v)) < MAX_SOCKET_PATH"
    using show_int_length [OF assms] by (simp add: MAX_SOCKET_PATH_def QMP_SOCKET_PREFIX_def)
  from snprintf_whole [OF this] show ?thesis
    by (simp add: send_qemu_cmd_fault BUFFER_SIZE_def QMP_SOCKET_PREFIX_def)
qed

theorem qmp_fault_is_full_answer_witness:
  "send_qemu_cmd (ex_os\<lparr>os_recv := (\<lambda>fd n w. (Some (replicate 1024 CHR ''a''), w))\<rparr>) ex_js 1 ''quit'' () = Inl OutOfBounds \<and>
   (\<exists>x. send_qemu_cmd (ex_os\<lparr>os_recv := (\<lambda>fd n w. (Some (replicate 1023 CHR ''a''), w))\<rparr>) ex_js 1 ''quit'' () = Inr x)"
proof -
  let ?full = "ex_os\<lparr>os_recv := (\<lambda>fd n w. (Some (replicate 1024 CHR ''a''), w))\<rparr>"
  let ?short = "ex_os\<lparr>os_recv := (\<lambda>fd n w. (Some (replicate 1023 CHR ''a''), w))\<rparr>"
  have v: "in_int 1" by (simp add: in_int_def INT_MIN_def INT_MAX_def)
  have con: "connect_to_socket ?full p () = (3, ())" for p by (simp add: connect_to_socket_def ex_os_def)
  have full: "sys_recv ?full 3 n () = (Some (take n (replicate 1024 CHR ''a'')), ())" for n by (simp add: sys_recv_def)
  have snd: "os_send ex_os fd c () = (0, ())" for fd c by (simp add: ex_os_def)
  have session: "init_qemu_qmp_session ?full ex_js 3 () = Inr (0, ())"
    using full [of 1023] by (simp add: init_qemu_qmp_session_def snd recv_ret_def put_nul_def BUFFER_SIZE_def ex_js_def)
  have "os_send ?full 3 ''quit'' () = (0, ())" by (simp add: snd)
  with qmp_fault_is_full_answer [OF v, of ?full ex_js "''quit''" "()" OutOfBounds] con session full [of 1024]
  have "send_qemu_cmd ?full ex_js 1 ''quit'' () = Inl OutOfBounds" by simp
  moreover have "length bs \<noteq> 1024" if "sys_recv ?short fd 1024 u = (Some bs, x)" for fd u bs x
    using that by (auto simp: sys_recv_def)
  with qmp_fault_is_full_answer [OF v, of ?short ex_js "''quit''" "()"]
  have "send_qemu_cmd ?short ex_js 1 ''quit'' () \<noteq> Inl e" for e by blast
  then have "\<exists>x. send_qemu_cmd ?short ex_js 1 ''quit'' () = Inr x"
    by (cases "send_qemu_cmd ?short ex_js 1 ''quit'' ()"; blast)
  ultimately show ?thesis ..
qed

end
